theory Spec2Isabelle
  imports Complex_Main "HOL-Library.Word"
begin

unbundle bit_operations_syntax

section \<open>Geometry\<close>

text \<open>
  Scalars are modelled as real numbers: every sum and product below is the exact one.
  Points and vectors are triples of scalars, with the component-wise operations of the
  geometry templates the sources use (\<open>operator+\<close>, \<open>operator-\<close>, \<open>Geometry::sqrDist\<close>).
\<close>

type_synonym Scalar = real
type_synonym Vector = "Scalar \<times> Scalar \<times> Scalar"
type_synonym Point = "Scalar \<times> Scalar \<times> Scalar"

definition vzero :: Vector where
  "vzero = (0, 0, 0)"

fun vadd :: "Vector \<Rightarrow> Vector \<Rightarrow> Vector" where
  "vadd (a0, a1, a2) (b0, b1, b2) = (a0 + b0, a1 + b1, a2 + b2)"

fun vsub :: "Vector \<Rightarrow> Vector \<Rightarrow> Vector" where
  "vsub (a0, a1, a2) (b0, b1, b2) = (a0 - b0, a1 - b1, a2 - b2)"

fun vneg :: "Vector \<Rightarrow> Vector" where
  "vneg (a0, a1, a2) = (- a0, - a1, - a2)"

fun vscale :: "Vector \<Rightarrow> Scalar \<Rightarrow> Vector" where
  "vscale (a0, a1, a2) s = (a0 * s, a1 * s, a2 * s)"

fun vdiv :: "Vector \<Rightarrow> Scalar \<Rightarrow> Vector" where
  "vdiv (a0, a1, a2) s = (a0 / s, a1 / s, a2 / s)"

fun vdot :: "Vector \<Rightarrow> Vector \<Rightarrow> Scalar" where
  "vdot (a0, a1, a2) (b0, b1, b2) = a0 * b0 + a1 * b1 + a2 * b2"

definition mag :: "Vector \<Rightarrow> Scalar" where
  "mag v = sqrt (vdot v v)"

fun sqrDist :: "Point \<Rightarrow> Point \<Rightarrow> Scalar" where
  "sqrDist (a0, a1, a2) (b0, b1, b2) =
     (a0 - b0) * (a0 - b0) + (a1 - b1) * (a1 - b1) + (a2 - b2) * (a2 - b2)"

fun comp :: "Vector \<Rightarrow> nat \<Rightarrow> Scalar" where
  "comp (a0, a1, a2) i = (if i = 0 then a0 else if i = 1 then a1 else a2)"

section \<open>Point selector tool (PointSelectorTool.cpp)\<close>

datatype SelectorMode = Add | Subtract

record Interactor =
  sphereCenter :: Point
  sphereRadius :: Scalar

text \<open>
  Modelled from the spec: the run-time octree class \<open>LidarOctree\<close> is not part of the
  sources at hand. An octree is represented by its currently resident points, each with
  its selection flag. \<open>selectPoints\<close> sets and \<open>deselectPoints\<close> clears the flag of every
  resident point inside the interactor's sphere; \<open>interact\<close> prepares the octree for the
  interaction and leaves the selection flags as they are.
\<close>

type_synonym LidarOctree = "(Point \<times> bool) list"

definition insideInteractor :: "Interactor \<Rightarrow> Point \<Rightarrow> bool" where
  "insideInteractor ia p \<longleftrightarrow> sqrDist p (sphereCenter ia) \<le> sphereRadius ia * sphereRadius ia"

definition interact :: "Interactor \<Rightarrow> LidarOctree \<Rightarrow> LidarOctree" where
  "interact ia oct = oct"

definition selectPoints :: "Interactor \<Rightarrow> LidarOctree \<Rightarrow> LidarOctree" where
  "selectPoints ia oct = map (\<lambda>(p, s). (p, if insideInteractor ia p then True else s)) oct"

definition deselectPoints :: "Interactor \<Rightarrow> LidarOctree \<Rightarrow> LidarOctree" where
  "deselectPoints ia oct = map (\<lambda>(p, s). (p, if insideInteractor ia p then False else s)) oct"

text \<open>Calls made on the application's octrees, recorded in the order they are made.\<close>

datatype OctreeCall =
    InteractCall nat Interactor
  | SelectPointsCall nat Interactor
  | DeselectPointsCall nat Interactor

record LidarViewer =
  numOctrees :: nat
  octrees :: "LidarOctree list"
  showOctrees :: "bool list"
  callLog :: "OctreeCall list"

record PointSelectorTool =
  radius :: Scalar
  selectorMode :: SelectorMode
  active :: bool

text \<open>
  What \<open>frame\<close> reads from the toolkit: the button device's position mapped through the
  inverse navigation transformation, and that transformation's scaling factor.
\<close>

record FrameInput =
  devicePosition :: Point
  navScaling :: Scalar

definition buttonCallback :: "bool \<Rightarrow> PointSelectorTool \<Rightarrow> PointSelectorTool" where
  "buttonCallback newButtonState tool =
     (if newButtonState then tool\<lparr>active := True\<rparr> else tool\<lparr>active := False\<rparr>)"

definition callInteract :: "Interactor \<Rightarrow> nat \<Rightarrow> LidarViewer \<Rightarrow> LidarViewer" where
  "callInteract ia i app =
     app\<lparr>octrees := (octrees app)[i := interact ia (octrees app ! i)],
         callLog := callLog app @ [InteractCall i ia]\<rparr>"

definition callSelectPoints :: "Interactor \<Rightarrow> nat \<Rightarrow> LidarViewer \<Rightarrow> LidarViewer" where
  "callSelectPoints ia i app =
     app\<lparr>octrees := (octrees app)[i := selectPoints ia (octrees app ! i)],
         callLog := callLog app @ [SelectPointsCall i ia]\<rparr>"

definition callDeselectPoints :: "Interactor \<Rightarrow> nat \<Rightarrow> LidarViewer \<Rightarrow> LidarViewer" where
  "callDeselectPoints ia i app =
     app\<lparr>octrees := (octrees app)[i := deselectPoints ia (octrees app ! i)],
         callLog := callLog app @ [DeselectPointsCall i ia]\<rparr>"

text \<open>The loop \<open>for(i=0;i<numOctrees;++i) if(showOctrees[i]) octrees[i]->m(interactor)\<close>.\<close>

fun forShownOctrees :: "(nat \<Rightarrow> LidarViewer \<Rightarrow> LidarViewer) \<Rightarrow> nat list \<Rightarrow> LidarViewer \<Rightarrow> LidarViewer" where
  "forShownOctrees m [] app = app"
| "forShownOctrees m (i # is) app =
     forShownOctrees m is (if showOctrees app ! i then m i app else app)"

definition frame :: "PointSelectorTool \<Rightarrow> FrameInput \<Rightarrow> LidarViewer \<Rightarrow> LidarViewer" where
  "frame tool inp app =
     (if \<not> active tool then app
      else
        let interactor = \<lparr>sphereCenter = devicePosition inp, sphereRadius = navScaling inp * radius tool\<rparr>;
            app1 = forShownOctrees (callInteract interactor) [0..<numOctrees app] app
        in case selectorMode tool of
             Add \<Rightarrow> forShownOctrees (callSelectPoints interactor) [0..<numOctrees app1] app1
           | Subtract \<Rightarrow> forShownOctrees (callDeselectPoints interactor) [0..<numOctrees app1] app1)"

definition shownIndices :: "LidarViewer \<Rightarrow> nat list" where
  "shownIndices app = filter (\<lambda>i. showOctrees app ! i) [0..<numOctrees app]"

definition frameInteractor :: "PointSelectorTool \<Rightarrow> FrameInput \<Rightarrow> Interactor" where
  "frameInteractor tool inp =
     \<lparr>sphereCenter = devicePosition inp, sphereRadius = navScaling inp * radius tool\<rparr>"

definition keepsConfig :: "(nat \<Rightarrow> LidarViewer \<Rightarrow> LidarViewer) \<Rightarrow> bool" where
  "keepsConfig m \<longleftrightarrow>
     (\<forall>i app. showOctrees (m i app) = showOctrees app \<and> numOctrees (m i app) = numOctrees app
        \<and> length (octrees (m i app)) = length (octrees app))"

definition updatesOctree :: "(nat \<Rightarrow> LidarViewer \<Rightarrow> LidarViewer) \<Rightarrow> (LidarOctree \<Rightarrow> LidarOctree) \<Rightarrow> bool" where
  "updatesOctree m f \<longleftrightarrow>
     (\<forall>i app. octrees (m i app) = (octrees app)[i := f (octrees app ! i)])"

text \<open>The octree array after \<open>f\<close> has been applied to every shown octree.\<close>

definition onShown :: "(LidarOctree \<Rightarrow> LidarOctree) \<Rightarrow> LidarViewer \<Rightarrow> LidarOctree list" where
  "onShown f app =
     map (\<lambda>i. if showOctrees app ! i then f (octrees app ! i) else octrees app ! i) [0..<numOctrees app]"

section \<open>Point accumulator\<close>

text \<open>
  Colours handed to the accumulator are RGB triples of scalars; the alpha channel is
  not read by anything modelled here and is left out.
\<close>

type_synonym Color = "Scalar \<times> Scalar \<times> Scalar"

text \<open>
  Modelled from the spec: the class \<open>PointAccumulator\<close> is not part of the sources at
  hand. \<open>addPoint\<close> applies the optional transformation and the subtractive coordinate
  offset to the position, scales the colour by the colour mask, and stores the point.
  \<open>points\<close> holds every point accumulated so far, in the order of the \<open>addPoint\<close> calls
  (whether still buffered or already handed to the temporary octree).
\<close>

text \<open>An affine transformation: the three rows of its matrix and its translation.\<close>

type_synonym AffineTransformation = "Vector \<times> Vector \<times> Vector \<times> Vector"

fun transformPoint :: "AffineTransformation \<Rightarrow> Point \<Rightarrow> Point" where
  "transformPoint (r0, r1, r2, (t0, t1, t2)) p = (vdot r0 p + t0, vdot r1 p + t1, vdot r2 p + t2)"

record PointAccumulator =
  pointOffset :: Vector
  transform :: "AffineTransformation option"
  colorMask :: Color
  points :: "(Point \<times> Color) list"

definition getPointOffset :: "PointAccumulator \<Rightarrow> Vector" where
  "getPointOffset pa = pointOffset pa"

definition setPointOffset :: "Vector \<Rightarrow> PointAccumulator \<Rightarrow> PointAccumulator" where
  "setPointOffset newPointOffset pa = pa\<lparr>pointOffset := newPointOffset\<rparr>"

fun maskColor :: "Color \<Rightarrow> Color \<Rightarrow> Color" where
  "maskColor (m0, m1, m2) (c0, c1, c2) = (c0 * m0, c1 * m1, c2 * m2)"

definition storedPoint :: "PointAccumulator \<Rightarrow> Point \<Rightarrow> Color \<Rightarrow> Point \<times> Color" where
  "storedPoint pa p c =
     (vsub (case transform pa of None \<Rightarrow> p | Some t \<Rightarrow> transformPoint t p) (pointOffset pa),
      maskColor (colorMask pa) c)"

definition addPoint :: "Point \<Rightarrow> Color \<Rightarrow> PointAccumulator \<Rightarrow> PointAccumulator" where
  "addPoint p c pa = pa\<lparr>points := points pa @ [storedPoint pa p c]\<rparr>"

section \<open>Input file loaders (LidarPreprocessor.cpp)\<close>

text \<open>
  A read past the end of a file makes the I/O library throw; no loader catches that, so
  it ends the loader (and the run) as an error value.
\<close>

datatype IOError = ReadPastEnd

text \<open>Messages the loaders print.\<close>

datatype Diagnostic =
    LasWrongRecordLength "8 word" "16 word" "16 word"
  | LasUnknownFormat "8 word"
  | LasShortHeader "32 word"
  | XyziParseError nat

subsection \<open>LAS files\<close>

text \<open>
  Modelled from the spec: the class \<open>IO::File\<close> is not part of the sources at hand. A
  file is read front to back: a read or a skip of \<open>n\<close> bytes takes them from what is left
  of the file, and throws when fewer are left. The loader sets the file to little
  endian, so the first byte of an integer is its lowest.
\<close>

definition skipBytes :: "nat \<Rightarrow> 8 word list \<Rightarrow> IOError + 8 word list" where
  "skipBytes n bytes = (if length bytes < n then Inl ReadPastEnd else Inr (drop n bytes))"

fun littleEndian :: "8 word list \<Rightarrow> int" where
  "littleEndian [] = 0"
| "littleEndian (b # bytes) = uint b + 256 * littleEndian bytes"

definition readLasUChar :: "8 word list \<Rightarrow> IOError + (8 word \<times> 8 word list)" where
  "readLasUChar bytes =
     (if length bytes < 1 then Inl ReadPastEnd else Inr (of_int (littleEndian (take 1 bytes)), drop 1 bytes))"

definition readLasUShort :: "8 word list \<Rightarrow> IOError + (16 word \<times> 8 word list)" where
  "readLasUShort bytes =
     (if length bytes < 2 then Inl ReadPastEnd else Inr (of_int (littleEndian (take 2 bytes)), drop 2 bytes))"

definition readLasInt :: "8 word list \<Rightarrow> IOError + (32 word \<times> 8 word list)" where
  "readLasInt bytes =
     (if length bytes < 4 then Inl ReadPastEnd else Inr (of_int (littleEndian (take 4 bytes)), drop 4 bytes))"

text \<open>\<open>file->read(pos,3)\<close> and \<open>file->read(rgb,3)\<close>: three integers at once.\<close>

definition readLasInts3 :: "8 word list \<Rightarrow> IOError + ((32 word \<times> 32 word \<times> 32 word) \<times> 8 word list)" where
  "readLasInts3 bytes =
     (case readLasInt bytes of Inl e \<Rightarrow> Inl e | Inr (x, b1) \<Rightarrow>
      case readLasInt b1 of Inl e \<Rightarrow> Inl e | Inr (y, b2) \<Rightarrow>
      case readLasInt b2 of Inl e \<Rightarrow> Inl e | Inr (z, b3) \<Rightarrow> Inr ((x, y, z), b3))"

definition readLasUShorts3 :: "8 word list \<Rightarrow> IOError + ((16 word \<times> 16 word \<times> 16 word) \<times> 8 word list)" where
  "readLasUShorts3 bytes =
     (case readLasUShort bytes of Inl e \<Rightarrow> Inl e | Inr (x, b1) \<Rightarrow>
      case readLasUShort b1 of Inl e \<Rightarrow> Inl e | Inr (y, b2) \<Rightarrow>
      case readLasUShort b2 of Inl e \<Rightarrow> Inl e | Inr (z, b3) \<Rightarrow> Inr ((x, y, z), b3))"

text \<open>
  A LAS file as the loader reads it: the bytes the signature is read from (fewer than
  four when the file ends there), the header fields the loader keeps (\<open>None\<close> when the
  file ends inside the 227 bytes of the header that the loader reads before it checks
  anything but the signature), and the bytes of the file that follow these 227 bytes.
  In one round of its loop the loader reads the three quantized coordinates, the
  intensity, the classification byte and, in the formats for which \<open>haveRgb\<close> is set, the
  colour; \<open>rgb\<close> is left zero, and is not looked at, in the other formats.
\<close>

record LasHeader =
  pointDataOffset :: "32 word"
  pointDataFormat :: "8 word"
  pointDataRecordLength :: "16 word"
  numPointRecords :: "32 word"
  scale :: Vector
  offset :: Vector

record LasPointRecord =
  pos :: "32 word \<times> 32 word \<times> 32 word"
  intensity :: "16 word"
  classification :: "8 word"
  rgb :: "16 word \<times> 16 word \<times> 16 word"

record LasFile =
  signature :: string
  header :: "LasHeader option"
  pointData :: "8 word list"

definition expectedPointDataRecordLengths :: "16 word list" where
  "expectedPointDataRecordLengths = [20, 28, 26, 34, 57, 63]"

definition haveTimes :: "bool list" where
  "haveTimes = [False, True, False, True, True, True]"

definition haveRgb :: "bool list" where
  "haveRgb = [False, False, True, True, False, False]"

text \<open>
  \<open>skipToClass=sizeof(char)\<close>, \<open>skipToColor=2*sizeof(unsigned char)+sizeof(unsigned short)\<close>,
  plus \<open>sizeof(double)\<close> in the formats with a time stamp, and
  \<open>skipToEnd=pointDataRecordLength-expectedPointDataRecordLengths[pointDataFormat]\<close>.
\<close>

definition skipToClass :: nat where
  "skipToClass = 1"

definition skipToColor :: "LasHeader \<Rightarrow> nat" where
  "skipToColor h = 2 * 1 + 2 + (if haveTimes ! unat (pointDataFormat h) then 8 else 0)"

definition skipToEnd :: "LasHeader \<Rightarrow> nat" where
  "skipToEnd h =
     unat (pointDataRecordLength h) - unat (expectedPointDataRecordLengths ! unat (pointDataFormat h))"

text \<open>\<open>p[j]=double(pos[j])*scale[j]\<close>, the coordinates being signed 32-bit integers.\<close>

fun lasPosition :: "LasHeader \<Rightarrow> LasPointRecord \<Rightarrow> Point" where
  "lasPosition h r =
     (case (pos r, scale h) of
        ((x, y, z), (s0, s1, s2)) \<Rightarrow>
          (real_of_int (sint x) * s0, real_of_int (sint y) * s1, real_of_int (sint z) * s2))"

fun lasColor :: "LasHeader \<Rightarrow> LasPointRecord \<Rightarrow> Color" where
  "lasColor h r =
     (if haveRgb ! unat (pointDataFormat h)
      then (case rgb r of (cr, cg, cb) \<Rightarrow> (real (unat cr), real (unat cg), real (unat cb)))
      else (real (unat (intensity r)), real (unat (intensity r)), real (unat (intensity r))))"

text \<open>\<open>classBit=0x1U<<(classification&0x1fU)\<close>, tested as \<open>classMask&classBit\<close>.\<close>

definition classBit :: "LasPointRecord \<Rightarrow> 32 word" where
  "classBit r = push_bit (unat (classification r AND 0x1f)) 1"

definition classSelected :: "32 word \<Rightarrow> LasPointRecord \<Rightarrow> bool" where
  "classSelected classMask r \<longleftrightarrow> classMask AND classBit r \<noteq> 0"

text \<open>
  What one round of the loop reads and skips, in the order of the source: the position
  (12 bytes), the intensity (2), \<open>skipToClass\<close> bytes, the classification (1),
  \<open>skipToColor\<close> bytes, the colour (6, if \<open>haveRgb\<close>), and \<open>skipToEnd\<close> bytes.
\<close>

definition readLasPoint :: "LasHeader \<Rightarrow> 8 word list \<Rightarrow> IOError + (LasPointRecord \<times> 8 word list)" where
  "readLasPoint h bytes =
     (case readLasInts3 bytes of Inl e \<Rightarrow> Inl e | Inr (p, b1) \<Rightarrow>
      case readLasUShort b1 of Inl e \<Rightarrow> Inl e | Inr (i0, b2) \<Rightarrow>
      case skipBytes skipToClass b2 of Inl e \<Rightarrow> Inl e | Inr b3 \<Rightarrow>
      case readLasUChar b3 of Inl e \<Rightarrow> Inl e | Inr (cls, b4) \<Rightarrow>
      case skipBytes (skipToColor h) b4 of Inl e \<Rightarrow> Inl e | Inr b5 \<Rightarrow>
      case (if haveRgb ! unat (pointDataFormat h) then readLasUShorts3 b5 else Inr ((0, 0, 0), b5)) of
        Inl e \<Rightarrow> Inl e
      | Inr (c, b6) \<Rightarrow>
      case skipBytes (skipToEnd h) b6 of Inl e \<Rightarrow> Inl e | Inr b7 \<Rightarrow>
        Inr (\<lparr>pos = p, intensity = i0, classification = cls, rgb = c\<rparr>, b7))"

text \<open>The loop over \<open>numPointRecords\<close> rounds.\<close>

fun readLasPoints :: "nat \<Rightarrow> LasHeader \<Rightarrow> 32 word \<Rightarrow> 8 word list \<Rightarrow> PointAccumulator
    \<Rightarrow> IOError + PointAccumulator" where
  "readLasPoints 0 h classMask bytes pa = Inr pa"
| "readLasPoints (Suc n) h classMask bytes pa =
     (case readLasPoint h bytes of
        Inl e \<Rightarrow> Inl e
      | Inr (r, rest) \<Rightarrow>
          readLasPoints n h classMask rest
            (if classSelected classMask r then addPoint (lasPosition h r) (lasColor h r) pa else pa))"

definition loadPointFileLas :: "PointAccumulator \<Rightarrow> LasFile \<Rightarrow> 32 word
    \<Rightarrow> IOError + (PointAccumulator \<times> Diagnostic list)" where
  "loadPointFileLas pa file classMask =
     (if length (signature file) < 4 then Inl ReadPastEnd
      else if take 4 (signature file) \<noteq> ''LASF'' then Inr (pa, [])
      else case header file of
        None \<Rightarrow> Inl ReadPastEnd
      | Some h \<Rightarrow>
          if pointDataFormat h < 6 \<and>
             pointDataRecordLength h < expectedPointDataRecordLengths ! unat (pointDataFormat h)
          then Inr (pa, [LasWrongRecordLength (pointDataFormat h) (pointDataRecordLength h)
                           (expectedPointDataRecordLengths ! unat (pointDataFormat h))])
          else if pointDataFormat h \<ge> 6
          then Inr (pa, [LasUnknownFormat (pointDataFormat h)])
          else if pointDataOffset h < 227
          then Inr (pa, [LasShortHeader (pointDataOffset h)])
          else
            case skipBytes (unat (pointDataOffset h - 227)) (pointData file) of
              Inl e \<Rightarrow> Inl e
            | Inr bytes \<Rightarrow>
                let originalPointOffset = getPointOffset pa;
                    pa1 = setPointOffset (vadd originalPointOffset (offset h)) pa
                in case readLasPoints (unat (numPointRecords h)) h classMask bytes pa1 of
                     Inl e \<Rightarrow> Inl e
                   | Inr pa2 \<Rightarrow> Inr (setPointOffset originalPointOffset pa2, []))"

subsection \<open>ASCII files with x, y, z and intensity\<close>

text \<open>
  Modelled from the spec: the tokenizer \<open>IO::ValueSource\<close> is not part of the sources at
  hand. A file is the list of its lines and a line the list of its tokens after the
  leading white space; \<open>#\<close> is a token of its own, and the end of the line is where the
  token list ends. \<open>readNumber\<close> takes a number token or throws a number error.
\<close>

datatype AsciiToken = NumberToken Scalar | HashToken | WordToken string

type_synonym AsciiLine = "AsciiToken list"

datatype NumberError = NumberError

fun readNumber :: "AsciiToken list \<Rightarrow> NumberError + (Scalar \<times> AsciiToken list)" where
  "readNumber (NumberToken x # rest) = Inr (x, rest)"
| "readNumber rest = Inl NumberError"

text \<open>The body of the \<open>try\<close> block up to the call of \<open>addPoint\<close>.\<close>

definition parseXyziLine :: "AsciiLine \<Rightarrow> NumberError + (Point \<times> Color)" where
  "parseXyziLine line =
     (case readNumber line of Inl e \<Rightarrow> Inl e | Inr (p0, l1) \<Rightarrow>
      case readNumber l1 of Inl e \<Rightarrow> Inl e | Inr (p1, l2) \<Rightarrow>
      case readNumber l2 of Inl e \<Rightarrow> Inl e | Inr (p2, l3) \<Rightarrow>
      case readNumber l3 of Inl e \<Rightarrow> Inl e | Inr (i0, l4) \<Rightarrow>
        Inr ((p0, p1, p2), (i0, i0, i0)))"

text \<open>\<open>reader.peekc()!='#'&&reader.peekc()!='\n'\<close>\<close>

fun isDataLine :: "AsciiLine \<Rightarrow> bool" where
  "isDataLine [] = False"
| "isDataLine (HashToken # rest) = False"
| "isDataLine line = True"

fun xyziLines :: "nat \<Rightarrow> AsciiLine list \<Rightarrow> PointAccumulator \<times> Diagnostic list
    \<Rightarrow> PointAccumulator \<times> Diagnostic list" where
  "xyziLines lineNumber [] st = st"
| "xyziLines lineNumber (line # rest) (pa, cerr) =
     xyziLines (lineNumber + 1) rest
       (if isDataLine line
        then (case parseXyziLine line of
                Inr (p, c) \<Rightarrow> (addPoint p c pa, cerr)
              | Inl e \<Rightarrow> (pa, cerr @ [XyziParseError lineNumber]))
        else (pa, cerr))"

definition loadPointFileXyzi :: "PointAccumulator \<Rightarrow> AsciiLine list \<Rightarrow> PointAccumulator \<times> Diagnostic list" where
  "loadPointFileXyzi pa file = xyziLines 1 file (pa, [])"

subsection \<open>Octree files, old and new format\<close>

text \<open>
  A LiDAR point as stored in an octree: its position and its colour as four bytes.
  \<open>addLidarPoint\<close> is the call
  \<open>pa.addPoint(Point(p.getComponents()),Color(p.value.getRgba()))\<close> both octree
  loaders make.
\<close>

type_synonym RGBA = "8 word \<times> 8 word \<times> 8 word \<times> 8 word"
type_synonym LidarPoint = "Point \<times> RGBA"

fun lidarColor :: "RGBA \<Rightarrow> Color" where
  "lidarColor (r, g, b, a) = (real (unat r), real (unat g), real (unat b))"

fun addLidarPoint :: "LidarPoint \<Rightarrow> PointAccumulator \<Rightarrow> PointAccumulator" where
  "addLidarPoint (p, v) pa = addPoint p (lidarColor v) pa"

text \<open>
  An octree as a tree: every node stores points; a node without children is a leaf.
\<close>

datatype OctreeNode = OctreeNode (nodePoints: "LidarPoint list") (nodeChildren: "OctreeNode list")

definition isLeaf :: "OctreeNode \<Rightarrow> bool" where
  "isLeaf node \<longleftrightarrow> nodeChildren node = []"

fun leafPoints :: "OctreeNode \<Rightarrow> LidarPoint list" where
  "leafPoints (OctreeNode pts cs) = (if cs = [] then pts else concat (map leafPoints cs))"

fun depth :: "OctreeNode \<Rightarrow> nat" where
  "depth (OctreeNode pts cs) = Suc (fold max (map depth cs) 0)"

text \<open>
  The node record of the old octree file format. File positions and counts are natural
  numbers; the loader does no arithmetic on them that could wrap around.
\<close>

record OldLidarOctreeFileNode =
  childrenOffset :: nat
  detailSize :: Scalar
  numPoints :: nat
  pointsOffset :: nat

text \<open>
  Modelled from the spec: \<open>LidarTypes.h\<close> is not part of the sources at hand; the stored
  scalar type is the 32-bit floating-point type, so a node record takes 8+4+8+4 bytes
  and a point record 3*4+4 bytes.
\<close>

definition getSize :: nat where
  "getSize = 8 + 4 + 8 + 4"

definition pointRecordSize :: nat where
  "pointRecordSize = 3 * 4 + 4"

text \<open>
  The two files of the old format as the loader reads them: the node record, or the point
  record, that starts at a byte position (\<open>None\<close> where the file ends before a whole
  record could be read, which makes the read throw).
\<close>

type_synonym OctFile = "nat \<Rightarrow> OldLidarOctreeFileNode option"
type_synonym ObinFile = "nat \<Rightarrow> LidarPoint option"

fun readNodePoints :: "ObinFile \<Rightarrow> nat \<Rightarrow> nat \<Rightarrow> PointAccumulator \<Rightarrow> IOError + PointAccumulator" where
  "readNodePoints obinFile readPos 0 pa = Inr pa"
| "readNodePoints obinFile readPos (Suc n) pa =
     (case obinFile readPos of
        None \<Rightarrow> Inl ReadPastEnd
      | Some p \<Rightarrow> readNodePoints obinFile (readPos + pointRecordSize) n (addLidarPoint p pa))"

text \<open>
  \<open>readOctreeFileSubtree\<close> follows the offsets it reads from the file, so the recursion is
  bounded by a fuel argument: \<open>None\<close> means that the fuel did not suffice.
  \<open>readChildren\<close> is the loop over the eight child records.
\<close>

fun readOctreeFileSubtree :: "nat \<Rightarrow> OctFile \<Rightarrow> ObinFile \<Rightarrow> nat \<Rightarrow> PointAccumulator
      \<Rightarrow> (IOError + PointAccumulator) option"
  and readChildren :: "nat \<Rightarrow> OctFile \<Rightarrow> ObinFile \<Rightarrow> nat \<Rightarrow> nat \<Rightarrow> PointAccumulator
      \<Rightarrow> (IOError + PointAccumulator) option" where
  "readOctreeFileSubtree 0 octFile obinFile readPos pa = None"
| "readOctreeFileSubtree (Suc fuel) octFile obinFile readPos pa =
     (case octFile readPos of
        None \<Rightarrow> Some (Inl ReadPastEnd)
      | Some ofn \<Rightarrow>
          if childrenOffset ofn \<noteq> 0
          then readChildren fuel octFile obinFile (childrenOffset ofn) 8 pa
          else if numPoints ofn > 0
          then Some (readNodePoints obinFile (pointsOffset ofn) (numPoints ofn) pa)
          else Some (Inr pa))"
| "readChildren fuel octFile obinFile childOffset 0 pa = Some (Inr pa)"
| "readChildren fuel octFile obinFile childOffset (Suc n) pa =
     (case readOctreeFileSubtree fuel octFile obinFile childOffset pa of
        None \<Rightarrow> None
      | Some (Inl e) \<Rightarrow> Some (Inl e)
      | Some (Inr pa') \<Rightarrow> readChildren fuel octFile obinFile (childOffset + getSize) n pa')"

text \<open>
  When the two files hold a given tree below a file position: a leaf is a node record
  with \<open>childrenOffset = 0\<close> whose points are stored consecutively from \<open>pointsOffset\<close>; an
  interior node is a record with a nonzero \<open>childrenOffset\<close>, where the records of its
  eight children follow one another.
\<close>

fun pointsAt :: "ObinFile \<Rightarrow> nat \<Rightarrow> LidarPoint list \<Rightarrow> bool" where
  "pointsAt obinFile readPos [] = True"
| "pointsAt obinFile readPos (p # ps) =
     (obinFile readPos = Some p \<and> pointsAt obinFile (readPos + pointRecordSize) ps)"

fun holdsTree :: "OctFile \<Rightarrow> ObinFile \<Rightarrow> nat \<Rightarrow> OctreeNode \<Rightarrow> bool"
  and holdsChildren :: "OctFile \<Rightarrow> ObinFile \<Rightarrow> nat \<Rightarrow> OctreeNode list \<Rightarrow> bool" where
  "holdsTree octFile obinFile readPos (OctreeNode pts cs) =
     (case octFile readPos of
        None \<Rightarrow> False
      | Some ofn \<Rightarrow>
          if cs = []
          then childrenOffset ofn = 0 \<and> numPoints ofn = length pts \<and> pointsAt obinFile (pointsOffset ofn) pts
          else childrenOffset ofn \<noteq> 0 \<and> length cs = 8 \<and> holdsChildren octFile obinFile (childrenOffset ofn) cs)"
| "holdsChildren octFile obinFile childOffset [] = True"
| "holdsChildren octFile obinFile childOffset (c # cs) =
     (holdsTree octFile obinFile childOffset c \<and> holdsChildren octFile obinFile (childOffset + getSize) cs)"

text \<open>
  Modelled from the spec: the class \<open>LidarProcessOctree\<close> is not part of the sources at
  hand. \<open>processNodesPostfix\<close> visits every node, children before their parent, and hands
  the node and its level to the functor.
\<close>

fun processNodesPostfix :: "(OctreeNode \<Rightarrow> nat \<Rightarrow> 's \<Rightarrow> 's) \<Rightarrow> OctreeNode \<Rightarrow> nat \<Rightarrow> 's \<Rightarrow> 's" where
  "processNodesPostfix f (OctreeNode pts cs) nodeLevel st =
     f (OctreeNode pts cs) nodeLevel (fold (\<lambda>c. processNodesPostfix f c (nodeLevel + 1)) cs st)"

text \<open>\<open>LidarFileLoader::operator()\<close> and \<open>loadLidarFile\<close>.\<close>

definition LidarFileLoader :: "OctreeNode \<Rightarrow> nat \<Rightarrow> PointAccumulator \<Rightarrow> PointAccumulator" where
  "LidarFileLoader node nodeLevel pa =
     (if isLeaf node then fold addLidarPoint (nodePoints node) pa else pa)"

definition loadLidarFile :: "PointAccumulator \<Rightarrow> OctreeNode \<Rightarrow> PointAccumulator" where
  "loadLidarFile pa rootNode = processNodesPostfix LidarFileLoader rootNode 0 pa"

text \<open>What a stored LiDAR point becomes in the accumulator.\<close>

fun storedLidarPoint :: "PointAccumulator \<Rightarrow> LidarPoint \<Rightarrow> Point \<times> Color" where
  "storedLidarPoint pa (p, v) = storedPoint pa p (lidarColor v)"

subsection \<open>What the loaders are expected to keep and to report\<close>

text \<open>
  The points of the well-formed data lines of an ASCII file, in file order, and the
  numbers (counted from \<open>n\<close>) of its data lines that do not parse.
\<close>

fun goodXyziPoints :: "AsciiLine list \<Rightarrow> (Point \<times> Color) list" where
  "goodXyziPoints [] = []"
| "goodXyziPoints (line # rest) =
     (if isDataLine line
      then (case parseXyziLine line of Inr pc \<Rightarrow> pc # goodXyziPoints rest | Inl e \<Rightarrow> goodXyziPoints rest)
      else goodXyziPoints rest)"

fun badXyziLines :: "nat \<Rightarrow> AsciiLine list \<Rightarrow> nat list" where
  "badXyziLines n [] = []"
| "badXyziLines n (line # rest) =
     (if isDataLine line
      then (case parseXyziLine line of Inr pc \<Rightarrow> badXyziLines (n + 1) rest | Inl e \<Rightarrow> n # badXyziLines (n + 1) rest)
      else badXyziLines (n + 1) rest)"

text \<open>
  A LAS file with a bad signature, an unsupported point data format or a too short
  header; a LAS file that ends before its signature or its header has been read; and a
  LAS file that passes every check of the loader.
\<close>

definition lasRejected :: "LasFile \<Rightarrow> bool" where
  "lasRejected file \<longleftrightarrow>
     take 4 (signature file) \<noteq> ''LASF'' \<or>
     (case header file of
        None \<Rightarrow> False
      | Some h \<Rightarrow> pointDataFormat h \<ge> 6 \<or> pointDataOffset h < 227)"

definition lasCutOff :: "LasFile \<Rightarrow> bool" where
  "lasCutOff file \<longleftrightarrow>
     length (signature file) < 4 \<or> (take 4 (signature file) = ''LASF'' \<and> header file = None)"


text \<open>
  The point records a LAS file holds: record \<open>k\<close> is the \<open>pointDataRecordLength\<close> bytes
  that start \<open>k\<close> record lengths into the point data, and its fields are those that one
  round of the loader reads from the start of these bytes. \<open>lasStride\<close> is the number of
  bytes by which one round of the loader advances.
\<close>

definition lasRecordAt :: "LasHeader \<Rightarrow> 8 word list \<Rightarrow> nat \<Rightarrow> LasPointRecord option" where
  "lasRecordAt h bytes k =
     (case readLasPoint h (take (unat (pointDataRecordLength h))
                             (drop (k * unat (pointDataRecordLength h)) bytes)) of
        Inl e \<Rightarrow> None
      | Inr (r, rest) \<Rightarrow> Some r)"

definition lasStride :: "LasHeader \<Rightarrow> nat" where
  "lasStride h =
     12 + 2 + skipToClass + 1 + skipToColor h + (if haveRgb ! unat (pointDataFormat h) then 6 else 0)
       + skipToEnd h"



subsection \<open>The offset file written after the build\<close>

text \<open>
  The end of the preprocessor's \<open>main\<close>: the dataset's \<open>Offset\<close> file, or \<open>None\<close> when no
  such file is written. The file is given by the byte order set on it with
  \<open>setEndianness\<close>, the size in bytes of one component written, and the components
  written. The components of the point offset are C++ doubles: the LAS loader reads
  them from the three 8-byte fields of the LAS header.
\<close>

datatype Endianness = LittleEndian | BigEndian

definition sizeofDouble :: nat where
  "sizeofDouble = 8"

record OffsetFile =
  ofEndianness :: Endianness
  ofComponentSize :: nat
  ofComponents :: "Scalar list"

definition writeOffsetFile :: "PointAccumulator \<Rightarrow> OffsetFile option" where
  "writeOffsetFile pa =
     (if getPointOffset pa \<noteq> vzero
      then (case getPointOffset pa of
              (ox, oy, oz) \<Rightarrow>
                Some \<lparr>ofEndianness = LittleEndian, ofComponentSize = sizeofDouble,
                      ofComponents = [ox, oy, oz]\<rparr>)
      else None)"

section \<open>Exporter (LidarExporter.cpp)\<close>

record Box =
  boxMin :: Point
  boxMax :: Point

fun boxesIntersect :: "Box \<Rightarrow> Box \<Rightarrow> bool" where
  "boxesIntersect a b =
     (case (boxMin a, boxMax a, boxMin b, boxMax b) of
        ((a0, a1, a2), (A0, A1, A2), (b0, b1, b2), (B0, B1, B2)) \<Rightarrow>
          a0 \<le> B0 \<and> b0 \<le> A0 \<and> a1 \<le> B1 \<and> b1 \<le> A1 \<and> a2 \<le> B2 \<and> b2 \<le> A2)"

text \<open>
  Modelled from the spec: the class \<open>LidarProcessOctree\<close> is not part of the sources at
  hand. A dataset opened for export gives its offset vector (zero without an \<open>Offset\<close>
  file), the centre of its domain, and its leaves, each with its domain and its points.
  \<open>processPoints\<close> applies the functor to every point of every leaf, \<open>processPointsInBox\<close>
  to every point of every leaf whose domain intersects the box.
\<close>

record LidarProcessOctree =
  lpoOffset :: Vector
  domainCenter :: Point
  leaves :: "(Box \<times> LidarPoint list) list"

definition processPoints :: "LidarProcessOctree \<Rightarrow> (LidarPoint \<Rightarrow> 's \<Rightarrow> 's) \<Rightarrow> 's \<Rightarrow> 's" where
  "processPoints lpo f st = fold f (concat (map snd (leaves lpo))) st"

definition processPointsInBox :: "LidarProcessOctree \<Rightarrow> Box \<Rightarrow> (LidarPoint \<Rightarrow> 's \<Rightarrow> 's) \<Rightarrow> 's \<Rightarrow> 's" where
  "processPointsInBox lpo b f st =
     fold f (concat (map snd (filter (\<lambda>leaf. boxesIntersect (fst leaf) b) (leaves lpo)))) st"

text \<open>
  The three output files. A line of the ASCII file is given by the format string and
  the arguments of the \<open>fprintf\<close> call that prints it: the position and the three colour
  bytes. The binary file is the offset vector and the point count of its header and the
  point records. Of the LAS file the quantization scale and offset and the point count
  of the header are kept, and of a point record the quantized position, a triple of
  32-bit integers, the intensity and the colour; the bounding box of the header is left
  out.
\<close>

type_synonym AsciiRecord = "string \<times> Point \<times> 8 word \<times> 8 word \<times> 8 word"

record PointSaver =
  psOffset :: Vector
  psLines :: "AsciiRecord list"
  psNumPoints :: nat

record BinaryPointSaver =
  bpsOffset :: Vector
  bpsCount :: "32 word"
  bpsRecords :: "LidarPoint list"
  bpsNumPoints :: nat

type_synonym LasRecord = "(32 word \<times> 32 word \<times> 32 word) \<times> 16 word \<times> (16 word \<times> 16 word \<times> 16 word)"

record LasPointSaver =
  lpsLpoOffset :: Vector
  lpsScale :: Vector
  lpsOffset :: Vector
  lpsHeaderOffset :: Vector
  lpsCount :: "32 word"
  lpsRecords :: "LasRecord list"
  lpsNumPoints :: nat

definition newPointSaver :: "Vector \<Rightarrow> PointSaver" where
  "newPointSaver sOffset = \<lparr>psOffset = sOffset, psLines = [], psNumPoints = 0\<rparr>"

text \<open>The format string of \<open>PointSaver::operator()\<close>, which ends with a line feed.\<close>

definition pointSaverFormat :: string where
  "pointSaverFormat = ''%.12g %.12g %.12g %u %u %u'' @ [CHR 0x0A]"

fun PointSaver_call :: "LidarPoint \<Rightarrow> PointSaver \<Rightarrow> PointSaver" where
  "PointSaver_call (p, (r, g, b, a)) ps =
     ps\<lparr>psLines := psLines ps @ [(pointSaverFormat, vadd p (psOffset ps), r, g, b)],
        psNumPoints := psNumPoints ps + 1\<rparr>"

definition newBinaryPointSaver :: "Vector \<Rightarrow> BinaryPointSaver" where
  "newBinaryPointSaver sOffset = \<lparr>bpsOffset = sOffset, bpsCount = 0, bpsRecords = [], bpsNumPoints = 0\<rparr>"

definition BinaryPointSaver_call :: "LidarPoint \<Rightarrow> BinaryPointSaver \<Rightarrow> BinaryPointSaver" where
  "BinaryPointSaver_call point ps =
     ps\<lparr>bpsRecords := bpsRecords ps @ [point], bpsNumPoints := bpsNumPoints ps + 1\<rparr>"

definition closeBinaryPointSaver :: "BinaryPointSaver \<Rightarrow> BinaryPointSaver" where
  "closeBinaryPointSaver ps = ps\<lparr>bpsCount := of_nat (bpsNumPoints ps)\<rparr>"

definition newLasPointSaver :: "Vector \<Rightarrow> Vector \<Rightarrow> Vector \<Rightarrow> LasPointSaver" where
  "newLasPointSaver sLpoOffset sScale sOffset =
     \<lparr>lpsLpoOffset = sLpoOffset, lpsScale = sScale, lpsOffset = sOffset,
      lpsHeaderOffset = vadd sOffset sLpoOffset, lpsCount = 0, lpsRecords = [], lpsNumPoints = 0\<rparr>"

text \<open>
  \<open>p[i]=int(Math::floor((double(point[i])-offset[i])/scale[i]+0.5))\<close>. The conversion to
  \<open>int\<close> is defined only for a value within the range of a signed 32-bit integer; a
  value outside of it, and the infinite or undefined quotient that a scale of zero
  gives, make the behaviour of the program undefined, which is the error value here.
\<close>

datatype ExportError = UndefinedIntConversion

definition quantize :: "Scalar \<Rightarrow> Scalar \<Rightarrow> Scalar \<Rightarrow> ExportError + 32 word" where
  "quantize x off sc =
     (if sc = 0 then Inl UndefinedIntConversion
      else if - (2 ^ 31) \<le> \<lfloor>(x - off) / sc + 1 / 2\<rfloor> \<and> \<lfloor>(x - off) / sc + 1 / 2\<rfloor> < 2 ^ 31
      then Inr (word_of_int \<lfloor>(x - off) / sc + 1 / 2\<rfloor>)
      else Inl UndefinedIntConversion)"

fun LasPointSaver_call :: "LidarPoint \<Rightarrow> ExportError + LasPointSaver \<Rightarrow> ExportError + LasPointSaver" where
  "LasPointSaver_call point (Inl e) = Inl e"
| "LasPointSaver_call ((x, y, z), (r, g, b, a)) (Inr ps) =
     (case (lpsOffset ps, lpsScale ps) of
        ((o0, o1, o2), (s0, s1, s2)) \<Rightarrow>
          case quantize x o0 s0 of Inl e \<Rightarrow> Inl e | Inr p0 \<Rightarrow>
          case quantize y o1 s1 of Inl e \<Rightarrow> Inl e | Inr p1 \<Rightarrow>
          case quantize z o2 s2 of Inl e \<Rightarrow> Inl e | Inr p2 \<Rightarrow>
            Inr (ps\<lparr>lpsRecords := lpsRecords ps @
                        [((p0, p1, p2),
                          of_nat ((unat r + unat g + unat b + 1) div 3),
                          (ucast r, ucast g, ucast b))],
                    lpsNumPoints := lpsNumPoints ps + 1\<rparr>))"

definition closeLasPointSaver :: "LasPointSaver \<Rightarrow> LasPointSaver" where
  "closeLasPointSaver ps = ps\<lparr>lpsCount := of_nat (lpsNumPoints ps)\<rparr>"

datatype ExportOutput =
    AsciiOutput PointSaver
  | BinaryOutput BinaryPointSaver
  | LasOutput "ExportError + LasPointSaver"

text \<open>The command line after parsing; \<open>box\<close> is kept as its lower and its upper corner.\<close>

record ExporterArgs =
  outputFileType :: int
  lasScale :: Vector
  haveBox :: bool
  box :: "Point \<times> Point"

text \<open>\<open>lbox.min[i]=box[i]-lpo.getOffset()[i]; lbox.max[i]=box[3+i]-lpo.getOffset()[i]\<close>\<close>

definition lidarBox :: "ExporterArgs \<Rightarrow> LidarProcessOctree \<Rightarrow> Box" where
  "lidarBox args lpo =
     \<lparr>boxMin = vsub (fst (box args)) (lpoOffset lpo), boxMax = vsub (snd (box args)) (lpoOffset lpo)\<rparr>"

definition processExport :: "ExporterArgs \<Rightarrow> LidarProcessOctree \<Rightarrow> (LidarPoint \<Rightarrow> 's \<Rightarrow> 's) \<Rightarrow> 's \<Rightarrow> 's" where
  "processExport args lpo f st =
     (if haveBox args then processPointsInBox lpo (lidarBox args lpo) f st else processPoints lpo f st)"

definition exporterMain :: "ExporterArgs \<Rightarrow> LidarProcessOctree \<Rightarrow> ExportOutput" where
  "exporterMain args lpo =
     (if outputFileType args = 2
      then LasOutput
             (case processExport args lpo LasPointSaver_call
                     (Inr (newLasPointSaver (lpoOffset lpo) (lasScale args) (domainCenter lpo))) of
                Inl e \<Rightarrow> Inl e
              | Inr ps \<Rightarrow> Inr (closeLasPointSaver ps))
      else if outputFileType args = 1
      then BinaryOutput (closeBinaryPointSaver
             (processExport args lpo BinaryPointSaver_call (newBinaryPointSaver (lpoOffset lpo))))
      else AsciiOutput (processExport args lpo PointSaver_call (newPointSaver (lpoOffset lpo))))"

text \<open>
  The points an export visits, and the positions its output holds, record by record
  (in a LAS file, the quantized coordinates).
\<close>

definition visitedPoints :: "ExporterArgs \<Rightarrow> LidarProcessOctree \<Rightarrow> LidarPoint list" where
  "visitedPoints args lpo =
     (if haveBox args
      then concat (map snd (filter (\<lambda>leaf. boxesIntersect (fst leaf) (lidarBox args lpo)) (leaves lpo)))
      else concat (map snd (leaves lpo)))"

fun outputPositions :: "ExportOutput \<Rightarrow> Point list" where
  "outputPositions (AsciiOutput ps) = map (\<lambda>(fmt, p, r, g, b). p) (psLines ps)"
| "outputPositions (BinaryOutput ps) = map fst (bpsRecords ps)"
| "outputPositions (LasOutput (Inl e)) = []"
| "outputPositions (LasOutput (Inr ps)) =
     map (\<lambda>((qx, qy, qz), i0, c). (real_of_int (sint qx), real_of_int (sint qy), real_of_int (sint qz)))
       (lpsRecords ps)"

text \<open>
  What a LAS export is expected to write. A coordinate can be quantized when the scale
  is not zero and the rounded quotient is a signed 32-bit integer; the record of a
  point holds the rounded quotients, the mean of the three colour bytes as the
  intensity, and the colour. A reader of the LAS file recovers a position as quantized
  coordinate times scale plus header offset; \<open>withinHalfStep\<close> says that two positions
  differ by at most half a quantization step in every coordinate.
\<close>

definition quantizable :: "Scalar \<Rightarrow> Scalar \<Rightarrow> Scalar \<Rightarrow> bool" where
  "quantizable x off sc \<longleftrightarrow>
     sc \<noteq> 0 \<and> - (2 ^ 31) \<le> \<lfloor>(x - off) / sc + 1 / 2\<rfloor> \<and> \<lfloor>(x - off) / sc + 1 / 2\<rfloor> < 2 ^ 31"

fun pointQuantizable :: "Vector \<Rightarrow> Vector \<Rightarrow> LidarPoint \<Rightarrow> bool" where
  "pointQuantizable (o0, o1, o2) (s0, s1, s2) ((x, y, z), v) \<longleftrightarrow>
     quantizable x o0 s0 \<and> quantizable y o1 s1 \<and> quantizable z o2 s2"

fun lasRecordOf :: "Vector \<Rightarrow> Vector \<Rightarrow> LidarPoint \<Rightarrow> LasRecord" where
  "lasRecordOf (o0, o1, o2) (s0, s1, s2) ((x, y, z), (r, g, b, a)) =
     ((word_of_int \<lfloor>(x - o0) / s0 + 1 / 2\<rfloor>,
       word_of_int \<lfloor>(y - o1) / s1 + 1 / 2\<rfloor>,
       word_of_int \<lfloor>(z - o2) / s2 + 1 / 2\<rfloor>),
      of_nat ((unat r + unat g + unat b + 1) div 3),
      (ucast r, ucast g, ucast b))"

fun lasDecodedPosition :: "Vector \<Rightarrow> Vector \<Rightarrow> LasRecord \<Rightarrow> Point" where
  "lasDecodedPosition (s0, s1, s2) (h0, h1, h2) ((qx, qy, qz), i0, c) =
     (real_of_int (sint qx) * s0 + h0, real_of_int (sint qy) * s1 + h1, real_of_int (sint qz) * s2 + h2)"

fun withinHalfStep :: "Vector \<Rightarrow> Point \<Rightarrow> Point \<Rightarrow> bool" where
  "withinHalfStep (s0, s1, s2) (a0, a1, a2) (b0, b1, b2) \<longleftrightarrow>
     \<bar>a0 - b0\<bar> \<le> \<bar>s0\<bar> / 2 \<and> \<bar>a1 - b1\<bar> \<le> \<bar>s1\<bar> / 2 \<and> \<bar>a2 - b2\<bar> \<le> \<bar>s2\<bar> / 2"

section \<open>Node normal calculator (NormalCalculator.icpp)\<close>

text \<open>
  Modelled from the spec: \<open>Cube\<close> and \<open>LidarProcessOctree::Node\<close> are not part of the
  sources at hand. A node's domain is an axis-aligned cube given by centre and radius;
  its eight children are the half-size cubes, child \<open>k\<close> lying on the upper side of axis
  \<open>i\<close> exactly when bit \<open>i\<close> of \<open>k\<close> is set; \<open>findChild\<close> gives the index of the child
  cube for a point, a point on a split plane going to the upper side; \<open>Cube_sqrDist\<close> is
  the squared distance from a point to the cube. A node gives its domain, its detail
  size, its offset in the point file and its points.
\<close>

record Cube =
  cubeCenter :: Point
  cubeRadius :: Scalar

fun findChild :: "Cube \<Rightarrow> Point \<Rightarrow> nat" where
  "findChild c (x, y, z) =
     (case cubeCenter c of
        (cx, cy, cz) \<Rightarrow> (if x \<ge> cx then 1 else 0) + (if y \<ge> cy then 2 else 0) + (if z \<ge> cz then 4 else 0))"

definition axisDist :: "Scalar \<Rightarrow> Scalar \<Rightarrow> Scalar \<Rightarrow> Scalar" where
  "axisDist c r x = (if x < c - r then (c - r) - x else if x > c + r then x - (c + r) else 0)"

fun Cube_sqrDist :: "Cube \<Rightarrow> Point \<Rightarrow> Scalar" where
  "Cube_sqrDist c (x, y, z) =
     (case cubeCenter c of
        (cx, cy, cz) \<Rightarrow>
          axisDist cx (cubeRadius c) x * axisDist cx (cubeRadius c) x +
          axisDist cy (cubeRadius c) y * axisDist cy (cubeRadius c) y +
          axisDist cz (cubeRadius c) z * axisDist cz (cubeRadius c) z)"

fun cubeContains :: "Cube \<Rightarrow> Point \<Rightarrow> bool" where
  "cubeContains c (x, y, z) =
     (case cubeCenter c of
        (cx, cy, cz) \<Rightarrow>
          cx - cubeRadius c \<le> x \<and> x \<le> cx + cubeRadius c \<and>
          cy - cubeRadius c \<le> y \<and> y \<le> cy + cubeRadius c \<and>
          cz - cubeRadius c \<le> z \<and> z \<le> cz + cubeRadius c)"

definition childCube :: "Cube \<Rightarrow> nat \<Rightarrow> Cube" where
  "childCube c k =
     (case cubeCenter c of
        (cx, cy, cz) \<Rightarrow>
          \<lparr>cubeCenter =
              (if odd k then cx + cubeRadius c / 2 else cx - cubeRadius c / 2,
               if odd (k div 2) then cy + cubeRadius c / 2 else cy - cubeRadius c / 2,
               if odd (k div 4) then cz + cubeRadius c / 2 else cz - cubeRadius c / 2),
            cubeRadius = cubeRadius c / 2\<rparr>)"

record Node =
  domain :: Cube
  nodeDetailSize :: Scalar
  dataOffset :: nat
  pointArray :: "LidarPoint list"

text \<open>\<open>getNumPoints\<close> returns an unsigned 32-bit integer.\<close>

definition getNumPoints :: "Node \<Rightarrow> 32 word" where
  "getNumPoints node = of_nat (length (pointArray node))"

text \<open>
  Modelled from the spec: \<open>processNodePointsDirected\<close> hands the points of one node to a
  functor. The functors below take a point together with its index in the node's point
  array, which the sources recover from the point's address.
\<close>

definition processNodePointsDirected :: "Node \<Rightarrow> (nat \<times> LidarPoint \<Rightarrow> 's \<Rightarrow> 's) \<Rightarrow> 's \<Rightarrow> 's" where
  "processNodePointsDirected node f st = fold f (List.enumerate 0 (pointArray node)) st"

subsection \<open>The helper functors\<close>

text \<open>\<open>FindPoint\<close>: the state is the found point (its index), initially none.\<close>

fun FindPoint_call :: "Point \<Rightarrow> nat \<times> LidarPoint \<Rightarrow> nat option \<Rightarrow> nat option" where
  "FindPoint_call queryPoint (j, lp) foundPoint =
     (if sqrDist (fst lp) queryPoint = 0 then Some j else foundPoint)"

text \<open>\<open>NormalAverager\<close>: the state is the averaged normal vector, initially zero.\<close>

fun NormalAverager_call :: "Point \<Rightarrow> Scalar \<Rightarrow> Vector \<Rightarrow> Vector list \<Rightarrow> nat \<times> LidarPoint \<Rightarrow> Vector \<Rightarrow> Vector" where
  "NormalAverager_call queryPoint radius2 pointNormal normalBase (j, lp) normal =
     (if sqrDist (fst lp) queryPoint \<le> radius2
      then
        let nearNormal = normalBase ! j;
            nearNormalLen = mag nearNormal
        in if nearNormalLen > 0
           then (if vdot nearNormal pointNormal \<ge> 0
                 then vadd normal (vdiv nearNormal nearNormalLen)
                 else vsub normal (vdiv nearNormal nearNormalLen))
           else normal
      else normal)"

subsection \<open>The subsampling threads\<close>

datatype NormalError = OctreeFileCorrupted Scalar Scalar Scalar

text \<open>
  The index range of a thread: \<open>(threadIndex*numPoints)/numThreads\<close> up to
  \<open>((threadIndex+1)*numPoints)/numThreads\<close>, in unsigned 32-bit arithmetic.
\<close>

definition firstI :: "32 word \<Rightarrow> 32 word \<Rightarrow> 32 word \<Rightarrow> 32 word" where
  "firstI threadIndex numPts numThreads = (threadIndex * numPts) div numThreads"

definition lastI :: "32 word \<Rightarrow> 32 word \<Rightarrow> 32 word \<Rightarrow> 32 word" where
  "lastI threadIndex numPts numThreads = ((threadIndex + 1) * numPts) div numThreads"

text \<open>
  The body of the loop for the node point with index \<open>i\<close>: the error thrown, or the value
  stored in \<open>normalBuffer[i]\<close>.
\<close>

definition findAncestor :: "Node \<Rightarrow> Point \<Rightarrow> nat option" where
  "findAncestor pointChild queryPoint =
     processNodePointsDirected pointChild (FindPoint_call queryPoint) None"

definition averageNormals :: "Node list \<Rightarrow> Vector list list \<Rightarrow> Point \<Rightarrow> Scalar \<Rightarrow> Vector \<Rightarrow> Vector" where
  "averageNormals currentChildren childNormalBuffers p averageRadius2 pointNormal =
     fold (\<lambda>childIndex normal.
             if Cube_sqrDist (domain (currentChildren ! childIndex)) p \<le> averageRadius2
             then processNodePointsDirected (currentChildren ! childIndex)
                    (NormalAverager_call p averageRadius2 pointNormal (childNormalBuffers ! childIndex)) normal
             else normal)
          [0..<8] vzero"

text \<open>The value stored for the node point \<open>i\<close> once its ancestor has been found at index \<open>found\<close>.\<close>

definition subsampledNormal :: "Node \<Rightarrow> Node list \<Rightarrow> Vector list list \<Rightarrow> nat \<Rightarrow> nat \<Rightarrow> Vector" where
  "subsampledNormal currentNode currentChildren childNormalBuffers i found =
     (let p = fst (pointArray currentNode ! i);
          averageRadius2 = (nodeDetailSize currentNode * (3 / 2)) * (nodeDetailSize currentNode * (3 / 2));
          pointChildIndex = findChild (domain currentNode) p;
          pointChild = currentChildren ! pointChildIndex;
          pointNormal = childNormalBuffers ! pointChildIndex ! found;
          normal = averageNormals currentChildren childNormalBuffers p averageRadius2 pointNormal
      in vscale normal
           ((mag pointNormal - nodeDetailSize pointChild + nodeDetailSize currentNode) / mag normal))"

fun corruptedAt :: "Point \<Rightarrow> NormalError" where
  "corruptedAt (x, y, z) = OctreeFileCorrupted x y z"

definition subsamplePoint :: "Node \<Rightarrow> Node list \<Rightarrow> Vector list list \<Rightarrow> nat \<Rightarrow> NormalError + Vector" where
  "subsamplePoint currentNode currentChildren childNormalBuffers i =
     (let p = fst (pointArray currentNode ! i);
          pointChildIndex = findChild (domain currentNode) p;
          pointChild = currentChildren ! pointChildIndex
      in case findAncestor pointChild p of
           None \<Rightarrow> Inl (corruptedAt p)
         | Some found \<Rightarrow> Inr (subsampledNormal currentNode currentChildren childNormalBuffers i found))"

fun subsampleLoop :: "Node \<Rightarrow> Node list \<Rightarrow> Vector list list \<Rightarrow> nat list \<Rightarrow> Vector list
    \<Rightarrow> NormalError + Vector list" where
  "subsampleLoop currentNode currentChildren childNormalBuffers [] normalBuffer = Inr normalBuffer"
| "subsampleLoop currentNode currentChildren childNormalBuffers (i # is) normalBuffer =
     (case subsamplePoint currentNode currentChildren childNormalBuffers i of
        Inl e \<Rightarrow> Inl e
      | Inr n \<Rightarrow> subsampleLoop currentNode currentChildren childNormalBuffers is (normalBuffer[i := n]))"

text \<open>One job of the subsampling thread \<open>threadIndex\<close>, between the two barriers.\<close>

definition subsampleThreadMethod :: "32 word \<Rightarrow> 32 word \<Rightarrow> Node \<Rightarrow> Node list \<Rightarrow> Vector list list
    \<Rightarrow> Vector list \<Rightarrow> NormalError + Vector list" where
  "subsampleThreadMethod threadIndex numThreads currentNode currentChildren childNormalBuffers normalBuffer =
     subsampleLoop currentNode currentChildren childNormalBuffers
       [unat (firstI threadIndex (getNumPoints currentNode) numThreads)
          ..< unat (lastI threadIndex (getNumPoints currentNode) numThreads)]
       normalBuffer"

text \<open>The index range of a thread as a set, and the child searched for a node point.\<close>

definition threadRange :: "32 word \<Rightarrow> 32 word \<Rightarrow> Node \<Rightarrow> nat set" where
  "threadRange threadIndex numThreads currentNode =
     {unat (firstI threadIndex (getNumPoints currentNode) numThreads)
        ..< unat (lastI threadIndex (getNumPoints currentNode) numThreads)}"

definition nodePoint :: "Node \<Rightarrow> nat \<Rightarrow> Point" where
  "nodePoint currentNode i = fst (pointArray currentNode ! i)"

definition pointChildOf :: "Node \<Rightarrow> Node list \<Rightarrow> nat \<Rightarrow> Node" where
  "pointChildOf currentNode currentChildren i =
     currentChildren ! findChild (domain currentNode) (nodePoint currentNode i)"

text \<open>Whether a node holds a point at squared distance zero from the query point.\<close>

definition hasExactMatch :: "Node \<Rightarrow> Point \<Rightarrow> bool" where
  "hasExactMatch node queryPoint \<longleftrightarrow> list_ex (\<lambda>lp. sqrDist (fst lp) queryPoint = 0) (pointArray node)"

subsection \<open>The calculation threads\<close>

text \<open>
  The normal calculator functor is a template parameter; together with the traversal of
  the point's neighbourhood it is represented by what it yields for a point: the number
  of points collected, the normal of the fitted plane, and the distance to the closest
  neighbour.
\<close>

type_synonym NormalCalculator = "LidarPoint \<Rightarrow> nat \<times> Vector \<times> Scalar"

text \<open>
  The state that the worker threads and \<open>operator()\<close> share. The normal file is its
  data header (the record size it stores, once written) and the normal vectors it
  holds, each under the byte position at which it starts.
\<close>

record NormalFile =
  dataHeader :: "32 word option"
  normalRecords :: "nat \<Rightarrow> Vector option"

record NodeNormalCalculator =
  normalBuffer :: "Vector list"
  normalDataSize :: nat
  normalFile :: NormalFile
  saveOutliers :: bool
  outliers :: "Point list"
  outlierFile :: "Point list"
  numThreads :: "32 word"
  childNormalBuffers :: "Vector list list"
  numProcessedNodes :: nat

fun calcLoop :: "NormalCalculator \<Rightarrow> Node \<Rightarrow> nat list \<Rightarrow> NodeNormalCalculator \<Rightarrow> NodeNormalCalculator" where
  "calcLoop nc currentNode [] calc = calc"
| "calcLoop nc currentNode (i # is) calc =
     calcLoop nc currentNode is
       (case nc (pointArray currentNode ! i) of
          (ncNumPoints, planeNormal, closestDist) \<Rightarrow>
            if ncNumPoints \<ge> 3
            then calc\<lparr>normalBuffer := (normalBuffer calc)[i := vscale planeNormal closestDist]\<rparr>
            else if saveOutliers calc
            then calc\<lparr>normalBuffer := (normalBuffer calc)[i := vzero],
                      outliers := outliers calc @ [fst (pointArray currentNode ! i)]\<rparr>
            else calc\<lparr>normalBuffer := (normalBuffer calc)[i := vzero]\<rparr>)"

definition calcThreadMethod :: "NormalCalculator \<Rightarrow> 32 word \<Rightarrow> Node \<Rightarrow> NodeNormalCalculator \<Rightarrow> NodeNormalCalculator" where
  "calcThreadMethod nc threadIndex currentNode calc =
     calcLoop nc currentNode
       [unat (firstI threadIndex (getNumPoints currentNode) (numThreads calc))
          ..< unat (lastI threadIndex (getNumPoints currentNode) (numThreads calc))]
       calc"

subsection \<open>The constructor and the call operator\<close>

text \<open>
  Modelled from the spec: \<open>LidarTypes.h\<close> and \<open>LidarFile.h\<close> are not part of the sources at
  hand. A scalar of a normal vector takes four bytes; the data file header consists of
  the record size, an unsigned 32-bit integer, and takes four bytes.
\<close>

definition sizeofScalar :: nat where
  "sizeofScalar = 4"

definition LidarDataFileHeader_getFileSize :: nat where
  "LidarDataFileHeader_getFileSize = 4"

text \<open>Writing \<open>vs\<close>, and reading \<open>n\<close> vectors, of \<open>recordSize\<close> bytes each from a byte position.\<close>

fun writeVectors :: "nat \<Rightarrow> nat \<Rightarrow> Vector list \<Rightarrow> (nat \<Rightarrow> Vector option) \<Rightarrow> (nat \<Rightarrow> Vector option)" where
  "writeVectors recordSize writePos [] recs = recs"
| "writeVectors recordSize writePos (v # vs) recs =
     writeVectors recordSize (writePos + recordSize) vs (recs(writePos \<mapsto> v))"

fun readVectors :: "nat \<Rightarrow> nat \<Rightarrow> nat \<Rightarrow> (nat \<Rightarrow> Vector option) \<Rightarrow> IOError + Vector list" where
  "readVectors recordSize readPos 0 recs = Inr []"
| "readVectors recordSize readPos (Suc n) recs =
     (case recs readPos of
        None \<Rightarrow> Inl ReadPastEnd
      | Some v \<Rightarrow>
          (case readVectors recordSize (readPos + recordSize) n recs of
             Inl e \<Rightarrow> Inl e
           | Inr vs \<Rightarrow> Inr (v # vs)))"

text \<open>
  The constructor, given the maximum number of points per node, the number of threads
  and the normal file as opened: it allocates the buffers and writes the data header.
\<close>

definition newNodeNormalCalculator :: "nat \<Rightarrow> 32 word \<Rightarrow> NormalFile \<Rightarrow> NodeNormalCalculator" where
  "newNodeNormalCalculator maxNumPointsPerNode sNumThreads openedFile =
     \<lparr>normalBuffer = replicate maxNumPointsPerNode vzero,
      normalDataSize = sizeofScalar * 3,
      normalFile = openedFile\<lparr>dataHeader := Some (of_nat (sizeofScalar * 3))\<rparr>,
      saveOutliers = False, outliers = [], outlierFile = [],
      numThreads = sNumThreads,
      childNormalBuffers = replicate 8 (replicate maxNumPointsPerNode vzero),
      numProcessedNodes = 0\<rparr>"

datatype OperatorError = ThreadError NormalError | FileError IOError

text \<open>
  The jobs of all threads of one kind, one thread after the other; the threads of one
  job write disjoint parts of the normal buffer.
\<close>

fun runCalcThreads :: "NormalCalculator \<Rightarrow> Node \<Rightarrow> nat list \<Rightarrow> NodeNormalCalculator \<Rightarrow> NodeNormalCalculator" where
  "runCalcThreads nc currentNode [] calc = calc"
| "runCalcThreads nc currentNode (t # ts) calc =
     runCalcThreads nc currentNode ts (calcThreadMethod nc (of_nat t) currentNode calc)"

fun runSubsampleThreads :: "Node \<Rightarrow> Node list \<Rightarrow> nat list \<Rightarrow> NodeNormalCalculator
    \<Rightarrow> OperatorError + NodeNormalCalculator" where
  "runSubsampleThreads currentNode currentChildren [] calc = Inr calc"
| "runSubsampleThreads currentNode currentChildren (t # ts) calc =
     (case subsampleThreadMethod (of_nat t) (numThreads calc) currentNode currentChildren
             (childNormalBuffers calc) (normalBuffer calc) of
        Inl e \<Rightarrow> Inl (ThreadError e)
      | Inr buf \<Rightarrow> runSubsampleThreads currentNode currentChildren ts (calc\<lparr>normalBuffer := buf\<rparr>))"

text \<open>The loop that loads the normal vectors of the eight children.\<close>

fun loadChildNormals :: "Node list \<Rightarrow> nat list \<Rightarrow> NodeNormalCalculator \<Rightarrow> OperatorError + NodeNormalCalculator" where
  "loadChildNormals currentChildren [] calc = Inr calc"
| "loadChildNormals currentChildren (childIndex # rest) calc =
     (if getNumPoints (currentChildren ! childIndex) > 0
      then (case readVectors (normalDataSize calc)
                   (LidarDataFileHeader_getFileSize + normalDataSize calc * dataOffset (currentChildren ! childIndex))
                   (unat (getNumPoints (currentChildren ! childIndex)))
                   (normalRecords (normalFile calc)) of
              Inl e \<Rightarrow> Inl (FileError e)
            | Inr vs \<Rightarrow>
                loadChildNormals currentChildren rest
                  (calc\<lparr>childNormalBuffers := (childNormalBuffers calc)
                          [childIndex := vs @ drop (length vs) (childNormalBuffers calc ! childIndex)]\<rparr>))
      else loadChildNormals currentChildren rest calc)"

text \<open>
  \<open>operator()\<close> for a node and its children (none for a leaf). The final step writes the
  first \<open>numPoints\<close> entries of the normal buffer to the normal file.
\<close>

definition writeNodeNormals :: "Node \<Rightarrow> NodeNormalCalculator \<Rightarrow> NodeNormalCalculator" where
  "writeNodeNormals currentNode calc =
     calc\<lparr>normalFile := (normalFile calc)
             \<lparr>normalRecords :=
                writeVectors (normalDataSize calc)
                  (LidarDataFileHeader_getFileSize + normalDataSize calc * dataOffset currentNode)
                  (take (unat (getNumPoints currentNode)) (normalBuffer calc))
                  (normalRecords (normalFile calc))\<rparr>,
          numProcessedNodes := numProcessedNodes calc + 1\<rparr>"

definition NodeNormalCalculator_call :: "NormalCalculator \<Rightarrow> Node \<Rightarrow> Node list \<Rightarrow> NodeNormalCalculator
    \<Rightarrow> OperatorError + NodeNormalCalculator" where
  "NodeNormalCalculator_call nc node nodeChildNodes calc =
     (if nodeChildNodes = []
      then
        let calc1 = runCalcThreads nc node [0..<unat (numThreads calc)] calc;
            calc2 = (if saveOutliers calc1
                     then calc1\<lparr>outlierFile := outlierFile calc1 @ outliers calc1, outliers := []\<rparr>
                     else calc1)
        in Inr (writeNodeNormals node calc2)
      else
        (case loadChildNormals nodeChildNodes [0..<8] calc of
           Inl e \<Rightarrow> Inl e
         | Inr calc1 \<Rightarrow>
             (case runSubsampleThreads node nodeChildNodes [0..<unat (numThreads calc1)] calc1 of
                Inl e \<Rightarrow> Inl e
              | Inr calc2 \<Rightarrow> Inr (writeNodeNormals node calc2))))"

text \<open>The byte position of the \<open>k\<close>-th normal record of a node.\<close>

definition normalPosition :: "nat \<Rightarrow> Node \<Rightarrow> nat \<Rightarrow> nat" where
  "normalPosition recordSize node k =
     LidarDataFileHeader_getFileSize + recordSize * dataOffset node + k * recordSize"

text \<open>Two states of the calculator with the same normal file, record size, thread count and buffer size.\<close>

definition sameFile :: "NodeNormalCalculator \<Rightarrow> NodeNormalCalculator \<Rightarrow> bool" where
  "sameFile c c' \<longleftrightarrow> normalFile c' = normalFile c \<and> normalDataSize c' = normalDataSize c
     \<and> numThreads c' = numThreads c \<and> length (normalBuffer c') = length (normalBuffer c)"

text \<open>
  The normal vector that a leaf's point with index \<open>i\<close> is given: the normal of the plane
  fitted by the normal calculator, scaled by the distance to the closest neighbour, or
  zero when the calculator collected fewer than three points.
\<close>

definition leafNormal :: "NormalCalculator \<Rightarrow> Node \<Rightarrow> nat \<Rightarrow> Vector" where
  "leafNormal nc node i =
     (case nc (pointArray node ! i) of
        (ncNumPoints, planeNormal, closestDist) \<Rightarrow>
          if ncNumPoints \<ge> 3 then vscale planeNormal closestDist else vzero)"

text \<open>
  Child normal buffers that agree with the normal file: for each of the eight children,
  entry \<open>j\<close> of its buffer is the \<open>j\<close>-th normal record of the child in the file.
\<close>

definition childNormalsLoaded :: "NormalFile \<Rightarrow> nat \<Rightarrow> Node list \<Rightarrow> Vector list list \<Rightarrow> bool" where
  "childNormalsLoaded nf recordSize children buffers \<longleftrightarrow>
     (\<forall>c\<in>{0..<8}. \<forall>j\<in>{0..<unat (getNumPoints (children ! c))}.
        normalRecords nf (normalPosition recordSize (children ! c) j) = Some (buffers ! c ! j))"

section \<open>Extracted primitives and their files\<close>

text \<open>
  The members of the primitive classes that are written to a file, in the order of the
  class declarations. \<open>PrimitiveData\<close> is the base class: the number of points, the RMS
  residual and the label. Colours, version counters and display lists are not part of a
  primitive file and are left out.

  \<^item> point: the extracted point;
  \<^item> sphere: a point primitive and the radius;
  \<^item> line: centre, axis, length and extents;
  \<^item> cylinder: a line primitive, the radius and the two grid line counts;
  \<^item> plane: centre, normal, two axes, two extents and the two grid line counts;
  \<^item> Brunton: a plane primitive.
\<close>

type_synonym PrimitiveData = "64 word \<times> Scalar \<times> string"
type_synonym Interval = "Scalar \<times> Scalar"
type_synonym NumLines = "32 word \<times> 32 word"

datatype Primitive =
    PointPrimitive PrimitiveData Point
  | SpherePrimitive PrimitiveData Point Scalar
  | LinePrimitive PrimitiveData Point Vector Scalar Interval
  | CylinderPrimitive PrimitiveData Point Vector Scalar Interval Scalar NumLines
  | PlanePrimitive PrimitiveData Point Vector "Vector \<times> Vector" "Interval \<times> Interval" NumLines
  | BruntonPrimitive PrimitiveData Point Vector "Vector \<times> Vector" "Interval \<times> Interval" NumLines

text \<open>
  A file is the sequence of the values written to it: single characters, 32-bit
  integers, 64-bit unsigned integers, scalars and strings. Reading a value of one type
  where the file ends, or where a value of another type was written, fails with the
  error of the I/O library.
\<close>

datatype Field =
    CharField char
  | IntField "32 word"
  | UInt64Field "64 word"
  | ScalarField Scalar
  | StringField string

datatype LoadError =
    FileReadError
  | NotValidHeader
  | UnknownPrimitiveType "32 word"

type_synonym 'a reader = "Field list \<Rightarrow> LoadError + ('a \<times> Field list)"

definition bindR :: "'a reader \<Rightarrow> ('a \<Rightarrow> 'b reader) \<Rightarrow> 'b reader" where
  "bindR r k file = (case r file of Inl e \<Rightarrow> Inl e | Inr (x, rest) \<Rightarrow> k x rest)"

definition returnR :: "'a \<Rightarrow> 'a reader" where
  "returnR x file = Inr (x, file)"

fun readChar :: "char reader" where
  "readChar (CharField c # rest) = Inr (c, rest)"
| "readChar file = Inl FileReadError"

fun readInt :: "32 word reader" where
  "readInt (IntField i # rest) = Inr (i, rest)"
| "readInt file = Inl FileReadError"

fun readUInt64 :: "64 word reader" where
  "readUInt64 (UInt64Field n # rest) = Inr (n, rest)"
| "readUInt64 file = Inl FileReadError"

fun readScalar :: "Scalar reader" where
  "readScalar (ScalarField x # rest) = Inr (x, rest)"
| "readScalar file = Inl FileReadError"

fun readCppString :: "string reader" where
  "readCppString (StringField str # rest) = Inr (str, rest)"
| "readCppString file = Inl FileReadError"

fun readChars :: "nat \<Rightarrow> string reader" where
  "readChars 0 = returnR []"
| "readChars (Suc n) = bindR readChar (\<lambda>c. bindR (readChars n) (\<lambda>cs. returnR (c # cs)))"

definition readScalars2 :: "Interval reader" where
  "readScalars2 = bindR readScalar (\<lambda>a. bindR readScalar (\<lambda>b. returnR (a, b)))"

definition readScalars3 :: "Vector reader" where
  "readScalars3 = bindR readScalar (\<lambda>a. bindR readScalar (\<lambda>b. bindR readScalar (\<lambda>c. returnR (a, b, c))))"

definition readInts2 :: "NumLines reader" where
  "readInts2 = bindR readInt (\<lambda>a. bindR readInt (\<lambda>b. returnR (a, b)))"

fun writeScalars2 :: "Interval \<Rightarrow> Field list" where
  "writeScalars2 (a, b) = [ScalarField a, ScalarField b]"

fun writeScalars3 :: "Vector \<Rightarrow> Field list" where
  "writeScalars3 (a, b, c) = [ScalarField a, ScalarField b, ScalarField c]"

fun writeInts2 :: "NumLines \<Rightarrow> Field list" where
  "writeInts2 (a, b) = [IntField a, IntField b]"

subsection \<open>Writing and reading one primitive\<close>

fun Primitive_write :: "PrimitiveData \<Rightarrow> Vector \<Rightarrow> Field list" where
  "Primitive_write (n, r, l) translation = [UInt64Field n, ScalarField r, StringField l]"

definition Primitive_read :: "Vector \<Rightarrow> PrimitiveData reader" where
  "Primitive_read translation =
     bindR readUInt64 (\<lambda>n. bindR readScalar (\<lambda>r. bindR readCppString (\<lambda>l. returnR (n, r, l))))"

definition PointPrimitive_write :: "PrimitiveData \<Rightarrow> Point \<Rightarrow> Vector \<Rightarrow> Field list" where
  "PointPrimitive_write b pt translation =
     Primitive_write b translation @ writeScalars3 (vadd pt translation)"

definition PointPrimitive_read :: "Vector \<Rightarrow> (PrimitiveData \<times> Point) reader" where
  "PointPrimitive_read translation =
     bindR (Primitive_read translation) (\<lambda>b.
     bindR readScalars3 (\<lambda>pt. returnR (b, vadd pt translation)))"

definition SpherePrimitive_write :: "PrimitiveData \<Rightarrow> Point \<Rightarrow> Scalar \<Rightarrow> Vector \<Rightarrow> Field list" where
  "SpherePrimitive_write b pt rad translation =
     PointPrimitive_write b pt translation @ [ScalarField rad]"

definition SpherePrimitive_read :: "Vector \<Rightarrow> Primitive reader" where
  "SpherePrimitive_read translation =
     bindR (PointPrimitive_read translation) (\<lambda>(b, pt).
     bindR readScalar (\<lambda>rad. returnR (SpherePrimitive b pt rad)))"

definition LinePrimitive_write :: "PrimitiveData \<Rightarrow> Point \<Rightarrow> Vector \<Rightarrow> Scalar \<Rightarrow> Interval \<Rightarrow> Vector \<Rightarrow> Field list" where
  "LinePrimitive_write b c ax len ext translation =
     Primitive_write b translation @ writeScalars3 (vadd c translation) @
     writeScalars3 ax @ [ScalarField len] @ writeScalars2 ext"

definition LinePrimitive_read :: "Vector \<Rightarrow> (PrimitiveData \<times> Point \<times> Vector \<times> Scalar \<times> Interval) reader" where
  "LinePrimitive_read translation =
     bindR (Primitive_read translation) (\<lambda>b.
     bindR readScalars3 (\<lambda>c.
     bindR readScalars3 (\<lambda>ax.
     bindR readScalar (\<lambda>len.
     bindR readScalars2 (\<lambda>ext. returnR (b, vadd c translation, ax, len, ext))))))"

definition CylinderPrimitive_write :: "PrimitiveData \<Rightarrow> Point \<Rightarrow> Vector \<Rightarrow> Scalar \<Rightarrow> Interval \<Rightarrow> Scalar
    \<Rightarrow> NumLines \<Rightarrow> Vector \<Rightarrow> Field list" where
  "CylinderPrimitive_write b c ax len ext rad nl translation =
     LinePrimitive_write b c ax len ext translation @ [ScalarField rad] @ writeInts2 nl"

definition CylinderPrimitive_read :: "Vector \<Rightarrow> Primitive reader" where
  "CylinderPrimitive_read translation =
     bindR (LinePrimitive_read translation) (\<lambda>(b, c, ax, len, ext).
     bindR readScalar (\<lambda>rad.
     bindR readInts2 (\<lambda>nl. returnR (CylinderPrimitive b c ax len ext rad nl))))"

definition PlanePrimitive_write :: "PrimitiveData \<Rightarrow> Point \<Rightarrow> Vector \<Rightarrow> Vector \<times> Vector \<Rightarrow> Interval \<times> Interval
    \<Rightarrow> NumLines \<Rightarrow> Vector \<Rightarrow> Field list" where
  "PlanePrimitive_write b c nrm axes exts nl translation =
     Primitive_write b translation @ writeScalars3 (vadd c translation) @ writeScalars3 nrm @
     writeScalars3 (fst axes) @ writeScalars3 (snd axes) @
     writeScalars2 (fst exts) @ writeScalars2 (snd exts) @ writeInts2 nl"

definition PlanePrimitive_read :: "Vector
    \<Rightarrow> (PrimitiveData \<times> Point \<times> Vector \<times> (Vector \<times> Vector) \<times> (Interval \<times> Interval) \<times> NumLines) reader" where
  "PlanePrimitive_read translation =
     bindR (Primitive_read translation) (\<lambda>b.
     bindR readScalars3 (\<lambda>c.
     bindR readScalars3 (\<lambda>nrm.
     bindR readScalars3 (\<lambda>a0.
     bindR readScalars3 (\<lambda>a1.
     bindR readScalars2 (\<lambda>e0.
     bindR readScalars2 (\<lambda>e1.
     bindR readInts2 (\<lambda>nl. returnR (b, vadd c translation, nrm, (a0, a1), (e0, e1), nl)))))))))"

text \<open>The virtual \<open>write\<close> method, dispatched on the class of the primitive.\<close>

fun writePrimitive :: "Primitive \<Rightarrow> Vector \<Rightarrow> Field list" where
  "writePrimitive (PointPrimitive b pt) translation = PointPrimitive_write b pt translation"
| "writePrimitive (SpherePrimitive b pt rad) translation = SpherePrimitive_write b pt rad translation"
| "writePrimitive (LinePrimitive b c ax len ext) translation = LinePrimitive_write b c ax len ext translation"
| "writePrimitive (CylinderPrimitive b c ax len ext rad nl) translation =
     CylinderPrimitive_write b c ax len ext rad nl translation"
| "writePrimitive (PlanePrimitive b c nrm axes exts nl) translation = PlanePrimitive_write b c nrm axes exts nl translation"
| "writePrimitive (BruntonPrimitive b c nrm axes exts nl) translation = PlanePrimitive_write b c nrm axes exts nl translation"

subsection \<open>Saving and loading the primitive list (LidarViewer.cpp)\<close>

text \<open>The 39 characters of the header string; with the terminating NUL they fill the 40 bytes.\<close>

definition headerString :: string where
  "headerString = ''LidarViewer primitive file v1.3       '' @ [CHR 0x0A]"

text \<open>\<open>snprintf(header,sizeof(header),...)\<close> into \<open>char header[40]\<close>.\<close>

definition headerBytes :: string where
  "headerBytes = take 40 (headerString @ [CHR 0x00])"

text \<open>A character array as a C string: the characters before the first NUL.\<close>

definition cstring :: "string \<Rightarrow> string" where
  "cstring bytes = takeWhile (\<lambda>c. c \<noteq> CHR 0x00) bytes"

text \<open>The type tag that \<open>savePrimitivesOKCallback\<close> finds by its chain of dynamic casts.\<close>

fun typeTag :: "Primitive \<Rightarrow> 32 word" where
  "typeTag (PointPrimitive b pt) = 0"
| "typeTag (SpherePrimitive b pt rad) = 1"
| "typeTag (LinePrimitive b c ax len ext) = 2"
| "typeTag (CylinderPrimitive b c ax len ext rad nl) = 3"
| "typeTag (PlanePrimitive b c nrm axes exts nl) = 4"
| "typeTag (BruntonPrimitive b c nrm axes exts nl) = 5"

fun savePrimitives :: "Vector \<Rightarrow> Primitive list \<Rightarrow> Field list" where
  "savePrimitives offsets [] = []"
| "savePrimitives offsets (p # ps) = IntField (typeTag p) # writePrimitive p offsets @ savePrimitives offsets ps"

definition savePrimitivesOKCallback :: "Vector \<Rightarrow> Primitive list \<Rightarrow> Field list" where
  "savePrimitivesOKCallback offsets prims = map CharField headerBytes @ savePrimitives offsets prims"

text \<open>The part of the application the two callbacks touch.\<close>

record PrimitiveStore =
  primitives :: "Primitive list"
  primitiveSelectedFlags :: "bool list"
  lastPickedPrimitive :: int

definition addPrimitive :: "Primitive \<Rightarrow> PrimitiveStore \<Rightarrow> PrimitiveStore \<times> int" where
  "addPrimitive newPrimitive st =
     (let st' = st\<lparr>primitives := primitives st @ [newPrimitive],
                    primitiveSelectedFlags := primitiveSelectedFlags st @ [False]\<rparr>
      in (st', int (length (primitives st')) - 1))"

text \<open>The \<open>switch\<close> on the type tag, with the negated offsets as translation.\<close>

definition readPrimitive :: "32 word \<Rightarrow> Vector \<Rightarrow> Primitive reader" where
  "readPrimitive primitiveType translation =
     (if primitiveType = 0
      then bindR (PointPrimitive_read translation) (\<lambda>(b, pt). returnR (PointPrimitive b pt))
      else if primitiveType = 1 then SpherePrimitive_read translation
      else if primitiveType = 2
      then bindR (LinePrimitive_read translation) (\<lambda>(b, c, ax, len, ext). returnR (LinePrimitive b c ax len ext))
      else if primitiveType = 3 then CylinderPrimitive_read translation
      else if primitiveType = 4
      then bindR (PlanePrimitive_read translation)
             (\<lambda>(b, c, nrm, axes, exts, nl). returnR (PlanePrimitive b c nrm axes exts nl))
      else if primitiveType = 5
      then bindR (PlanePrimitive_read translation)
             (\<lambda>(b, c, nrm, axes, exts, nl). returnR (BruntonPrimitive b c nrm axes exts nl))
      else (\<lambda>file. Inl (UnknownPrimitiveType primitiveType)))"

text \<open>
  The loop \<open>while(!primitiveFile->eof())\<close>. Every round reads at least the type tag, so
  the loop makes at most as many rounds as the file has values left; the first argument
  bounds the number of rounds, and \<open>None\<close> means that the bound did not suffice. An error
  ends the loop with the primitives stored so far, as the \<open>catch\<close> clause finds them.
\<close>

fun loadLoop :: "nat \<Rightarrow> Vector \<Rightarrow> Field list \<Rightarrow> PrimitiveStore \<Rightarrow> (PrimitiveStore \<times> LoadError option) option" where
  "loadLoop n offsets [] st = Some (st, None)"
| "loadLoop 0 offsets (f # file) st = None"
| "loadLoop (Suc n) offsets (f # file) st =
     (case bindR readInt (\<lambda>primitiveType. readPrimitive primitiveType (vneg offsets)) (f # file) of
        Inl e \<Rightarrow> Some (st, Some e)
      | Inr (newPrimitive, rest) \<Rightarrow>
          (case addPrimitive newPrimitive st of
             (st', i) \<Rightarrow> loadLoop n offsets rest (st'\<lparr>lastPickedPrimitive := i\<rparr>)))"

definition loadPrimitivesOKCallback :: "Vector \<Rightarrow> Field list \<Rightarrow> PrimitiveStore
    \<Rightarrow> (PrimitiveStore \<times> LoadError option) option" where
  "loadPrimitivesOKCallback offsets file st =
     (case readChars 40 file of
        Inl e \<Rightarrow> Some (st, Some e)
      | Inr (hdr, rest) \<Rightarrow>
          if cstring hdr \<noteq> cstring (headerString @ [CHR 0x00])
          then Some (st, Some NotValidHeader)
          else loadLoop (length rest) offsets rest st)"

subsection \<open>What saving and loading are expected to do\<close>

text \<open>
  The characteristic point of a primitive (the point of a point or sphere primitive, the
  centre of the others), and a primitive moved by a vector.
\<close>

fun characteristicPoint :: "Primitive \<Rightarrow> Point" where
  "characteristicPoint (PointPrimitive b pt) = pt"
| "characteristicPoint (SpherePrimitive b pt rad) = pt"
| "characteristicPoint (LinePrimitive b c ax len ext) = c"
| "characteristicPoint (CylinderPrimitive b c ax len ext rad nl) = c"
| "characteristicPoint (PlanePrimitive b c nrm axes exts nl) = c"
| "characteristicPoint (BruntonPrimitive b c nrm axes exts nl) = c"

fun translatePrimitive :: "Vector \<Rightarrow> Primitive \<Rightarrow> Primitive" where
  "translatePrimitive t (PointPrimitive b pt) = PointPrimitive b (vadd pt t)"
| "translatePrimitive t (SpherePrimitive b pt rad) = SpherePrimitive b (vadd pt t) rad"
| "translatePrimitive t (LinePrimitive b c ax len ext) = LinePrimitive b (vadd c t) ax len ext"
| "translatePrimitive t (CylinderPrimitive b c ax len ext rad nl) = CylinderPrimitive b (vadd c t) ax len ext rad nl"
| "translatePrimitive t (PlanePrimitive b c nrm axes exts nl) = PlanePrimitive b (vadd c t) nrm axes exts nl"
| "translatePrimitive t (BruntonPrimitive b c nrm axes exts nl) = BruntonPrimitive b (vadd c t) nrm axes exts nl"

text \<open>The store after the primitives \<open>qs\<close> have been added to it one by one.\<close>

definition loadedStore :: "PrimitiveStore \<Rightarrow> Primitive list \<Rightarrow> PrimitiveStore" where
  "loadedStore st qs =
     \<lparr>primitives = primitives st @ qs,
      primitiveSelectedFlags = primitiveSelectedFlags st @ replicate (length qs) False,
      lastPickedPrimitive =
        (if qs = [] then lastPickedPrimitive st else int (length (primitives st) + length qs) - 1)\<rparr>"

text \<open>A primitive written with the translation \<open>off\<close> and read back with the offsets \<open>offs\<close>.\<close>

definition reloaded :: "Vector \<Rightarrow> Vector \<Rightarrow> Primitive \<Rightarrow> Primitive" where
  "reloaded offs off p = translatePrimitive (vneg offs) (translatePrimitive off p)"

section \<open>Verified properties\<close>

subsection \<open>The calls of one frame\<close>

lemma keepsConfig_calls:
  "keepsConfig (callInteract ia)" "keepsConfig (callSelectPoints ia)" "keepsConfig (callDeselectPoints ia)"
  by (simp_all add: keepsConfig_def callInteract_def callSelectPoints_def callDeselectPoints_def)

lemma forShownOctrees_config:
  assumes "keepsConfig m"
  shows "showOctrees (forShownOctrees m is app) = showOctrees app
     \<and> numOctrees (forShownOctrees m is app) = numOctrees app
     \<and> length (octrees (forShownOctrees m is app)) = length (octrees app)"
  using assms by (induction "is" arbitrary: app) (auto simp: keepsConfig_def)

lemma forShownOctrees_log:
  assumes "keepsConfig m" and "\<And>i app. callLog (m i app) = callLog app @ [c i]"
  shows "callLog (forShownOctrees m is app) = callLog app @ map c (filter (\<lambda>i. showOctrees app ! i) is)"
  using assms
proof (induction "is" arbitrary: app)
  case Nil
  then show ?case by simp
next
  case (Cons i "is")
  have cfg: "showOctrees (m i app) = showOctrees app"
    using Cons.prems(1) by (simp add: keepsConfig_def)
  show ?case
    using Cons.IH [OF Cons.prems, of "m i app"] Cons.IH [OF Cons.prems, of app] Cons.prems(2) [of i app]
    by (simp add: cfg)
qed

lemma frame_log:
  "callLog (frame tool inp app) =
     callLog app @
       (if active tool then
          map (\<lambda>i. InteractCall i (frameInteractor tool inp)) (shownIndices app) @
          (case selectorMode tool of
             Add \<Rightarrow> map (\<lambda>i. SelectPointsCall i (frameInteractor tool inp)) (shownIndices app)
           | Subtract \<Rightarrow> map (\<lambda>i. DeselectPointsCall i (frameInteractor tool inp)) (shownIndices app))
        else [])"
proof (cases "active tool")
  case False
  then show ?thesis by (simp add: frame_def)
next
  case True
  let ?ia = "frameInteractor tool inp"
  let ?app1 = "forShownOctrees (callInteract ?ia) [0..<numOctrees app] app"
  have cfg1: "showOctrees ?app1 = showOctrees app" "numOctrees ?app1 = numOctrees app"
    using forShownOctrees_config [OF keepsConfig_calls(1)] by simp_all
  have log1: "callLog ?app1 = callLog app @ map (\<lambda>i. InteractCall i ?ia) (shownIndices app)"
    using forShownOctrees_log [OF keepsConfig_calls(1), of ?ia "\<lambda>i. InteractCall i ?ia"]
    by (simp add: callInteract_def shownIndices_def)
  have logS: "callLog (forShownOctrees (callSelectPoints ?ia) [0..<numOctrees ?app1] ?app1)
      = callLog ?app1 @ map (\<lambda>i. SelectPointsCall i ?ia) (shownIndices app)"
    using forShownOctrees_log [OF keepsConfig_calls(2), of ?ia "\<lambda>i. SelectPointsCall i ?ia"]
    by (simp add: callSelectPoints_def shownIndices_def cfg1)
  have logD: "callLog (forShownOctrees (callDeselectPoints ?ia) [0..<numOctrees ?app1] ?app1)
      = callLog ?app1 @ map (\<lambda>i. DeselectPointsCall i ?ia) (shownIndices app)"
    using forShownOctrees_log [OF keepsConfig_calls(3), of ?ia "\<lambda>i. DeselectPointsCall i ?ia"]
    by (simp add: callDeselectPoints_def shownIndices_def cfg1)
  show ?thesis
  proof (cases "selectorMode tool")
    case Add
    then show ?thesis
      using True logS log1 by (simp add: frame_def Let_def frameInteractor_def)
  next
    case Subtract
    then show ?thesis
      using True logD log1 by (simp add: frame_def Let_def frameInteractor_def)
  qed
qed

text \<open>
  C6. A frame of an active point selector tool (the button callback has last seen the
  button pressed) first calls \<open>interact\<close> with the frame's selection sphere on every shown
  octree, in index order, and only then \<open>selectPoints\<close> (mode Add) or \<open>deselectPoints\<close>
  (mode Subtract) on every shown octree, with the same sphere; nothing else is called:
  an Add frame makes no \<open>deselectPoints\<close> call, a Subtract frame no \<open>selectPoints\<close> call.
  A frame of an inactive tool (button released) calls nothing and changes nothing.
\<close>

theorem C6_frame_call_order:
  "callLog (frame (buttonCallback True tool) inp app) =
     callLog app @
       map (\<lambda>i. InteractCall i (frameInteractor tool inp)) (shownIndices app) @
       (case selectorMode tool of
          Add \<Rightarrow> map (\<lambda>i. SelectPointsCall i (frameInteractor tool inp)) (shownIndices app)
        | Subtract \<Rightarrow> map (\<lambda>i. DeselectPointsCall i (frameInteractor tool inp)) (shownIndices app))
   \<and> frame (buttonCallback False tool) inp app = app"
proof -
  have pressed: "active (buttonCallback True tool)"
    "selectorMode (buttonCallback True tool) = selectorMode tool"
    "frameInteractor (buttonCallback True tool) inp = frameInteractor tool inp"
    by (simp_all add: buttonCallback_def frameInteractor_def)
  have released: "\<not> active (buttonCallback False tool)"
    by (simp add: buttonCallback_def)
  have "frame (buttonCallback False tool) inp app = app"
    using released by (simp add: frame_def)
  then show ?thesis
    by (simp add: frame_log pressed split: SelectorMode.split)
qed

theorem C6_frame_call_order_witness:
  "callLog (frame (buttonCallback True \<lparr>radius = 1, selectorMode = Subtract, active = False\<rparr>)
       \<lparr>devicePosition = (0, 0, 0), navScaling = 2\<rparr>
       \<lparr>numOctrees = 2, octrees = [[((0, 0, 0), True)], [((5, 5, 5), True)]],
        showOctrees = [False, True], callLog = []\<rparr>)
     = [InteractCall 1 \<lparr>sphereCenter = (0, 0, 0), sphereRadius = 2\<rparr>,
        DeselectPointsCall 1 \<lparr>sphereCenter = (0, 0, 0), sphereRadius = 2\<rparr>]"
  using C6_frame_call_order [of "\<lparr>radius = 1, selectorMode = Subtract, active = False\<rparr>"
      "\<lparr>devicePosition = (0, 0, 0), navScaling = 2\<rparr>"
      "\<lparr>numOctrees = 2, octrees = [[((0, 0, 0), True)], [((5, 5, 5), True)]],
        showOctrees = [False, True], callLog = []\<rparr>"]
  by (simp add: shownIndices_def frameInteractor_def eval_nat_numeral)

subsection \<open>Selecting and deselecting the same sphere\<close>

lemma updatesOctree_calls:
  "updatesOctree (callInteract ia) (interact ia)"
  "updatesOctree (callSelectPoints ia) (selectPoints ia)"
  "updatesOctree (callDeselectPoints ia) (deselectPoints ia)"
  by (simp_all add: updatesOctree_def callInteract_def callSelectPoints_def callDeselectPoints_def)

lemma forShownOctrees_nth:
  assumes "keepsConfig m" and "updatesOctree m f" and "distinct is" and "j < length (octrees app)"
  shows "octrees (forShownOctrees m is app) ! j =
     (if j \<in> set is \<and> showOctrees app ! j then f (octrees app ! j) else octrees app ! j)"
  using assms
proof (induction "is" arbitrary: app)
  case Nil
  then show ?case by simp
next
  case (Cons i "is")
  have cfg: "showOctrees (m i app) = showOctrees app" "length (octrees (m i app)) = length (octrees app)"
    using Cons.prems(1) by (simp_all add: keepsConfig_def)
  have upd: "octrees (m i app) = (octrees app)[i := f (octrees app ! i)]"
    using Cons.prems(2) by (simp add: updatesOctree_def)
  have d: "distinct is" "i \<notin> set is" using Cons.prems(3) by simp_all
  show ?case
  proof (cases "showOctrees app ! i")
    case True
    have "octrees (forShownOctrees m is (m i app)) ! j =
       (if j \<in> set is \<and> showOctrees (m i app) ! j then f (octrees (m i app) ! j) else octrees (m i app) ! j)"
      using Cons.IH [OF Cons.prems(1,2) d(1), of "m i app"] Cons.prems(4) cfg by simp
    moreover have "j \<in> set is \<Longrightarrow> j \<noteq> i" using d(2) by auto
    ultimately show ?thesis
      using True Cons.prems(4) by (cases "j = i") (auto simp: cfg upd nth_list_update)
  next
    case False
    then show ?thesis
      using Cons.IH [OF Cons.prems(1,2) d(1), of app] Cons.prems(4) d(2) by auto
  qed
qed

lemma forShownOctrees_all:
  assumes "keepsConfig m" and "updatesOctree m f" and "length (octrees app) = n"
  shows "octrees (forShownOctrees m [0..<n] app) =
     map (\<lambda>i. if showOctrees app ! i then f (octrees app ! i) else octrees app ! i) [0..<n]"
proof (rule nth_equalityI)
  show "length (octrees (forShownOctrees m [0..<n] app)) =
    length (map (\<lambda>i. if showOctrees app ! i then f (octrees app ! i) else octrees app ! i) [0..<n])"
    using forShownOctrees_config [OF assms(1), of "[0..<n]" app] assms(3) by simp
next
  fix j assume "j < length (octrees (forShownOctrees m [0..<n] app))"
  then have j: "j < n"
    using forShownOctrees_config [OF assms(1), of "[0..<n]" app] assms(3) by simp
  then show "octrees (forShownOctrees m [0..<n] app) ! j =
    map (\<lambda>i. if showOctrees app ! i then f (octrees app ! i) else octrees app ! i) [0..<n] ! j"
    using forShownOctrees_nth [OF assms(1,2), of "[0..<n]" j app] assms(3) by simp
qed

lemma frame_octrees:
  assumes "active tool" and "length (octrees app) = numOctrees app"
  shows "octrees (frame tool inp app) =
     (case selectorMode tool of
        Add \<Rightarrow> onShown (selectPoints (frameInteractor tool inp)) app
      | Subtract \<Rightarrow> onShown (deselectPoints (frameInteractor tool inp)) app)"
proof -
  let ?ia = "frameInteractor tool inp"
  let ?app1 = "forShownOctrees (callInteract ?ia) [0..<numOctrees app] app"
  have cfg1: "showOctrees ?app1 = showOctrees app" "numOctrees ?app1 = numOctrees app"
    "length (octrees ?app1) = numOctrees app"
    using forShownOctrees_config [OF keepsConfig_calls(1)] assms(2) by simp_all
  have "octrees ?app1 = map (\<lambda>i. octrees app ! i) [0..<numOctrees app]"
    using forShownOctrees_all [OF keepsConfig_calls(1) updatesOctree_calls(1) assms(2), of ?ia]
    by (simp add: interact_def)
  then have o1: "octrees ?app1 = octrees app"
    unfolding assms(2) [symmetric] by (simp add: map_nth)
  have s: "octrees (forShownOctrees (callSelectPoints ?ia) [0..<numOctrees ?app1] ?app1)
     = onShown (selectPoints ?ia) app"
    using forShownOctrees_all [OF keepsConfig_calls(2) updatesOctree_calls(2) cfg1(3), of ?ia]
    by (simp add: cfg1 o1 onShown_def)
  have d: "octrees (forShownOctrees (callDeselectPoints ?ia) [0..<numOctrees ?app1] ?app1)
     = onShown (deselectPoints ?ia) app"
    using forShownOctrees_all [OF keepsConfig_calls(3) updatesOctree_calls(3) cfg1(3), of ?ia]
    by (simp add: cfg1 o1 onShown_def)
  show ?thesis
    using assms(1) s d
    by (simp add: frame_def Let_def frameInteractor_def split: SelectorMode.split)
qed

lemma frame_config:
  "showOctrees (frame tool inp app) = showOctrees app \<and> numOctrees (frame tool inp app) = numOctrees app
    \<and> length (octrees (frame tool inp app)) = length (octrees app)"
proof -
  have a: "\<And>m is a. keepsConfig m \<Longrightarrow> showOctrees (forShownOctrees m is a) = showOctrees a"
    "\<And>m is a. keepsConfig m \<Longrightarrow> numOctrees (forShownOctrees m is a) = numOctrees a"
    "\<And>m is a. keepsConfig m \<Longrightarrow> length (octrees (forShownOctrees m is a)) = length (octrees a)"
    using forShownOctrees_config by blast+
  show ?thesis
    by (simp add: frame_def Let_def a keepsConfig_calls split: SelectorMode.split)
qed

lemma deselect_select_disjoint:
  assumes "\<forall>(p, s) \<in> set oct. insideInteractor ia p \<longrightarrow> \<not> s"
  shows "deselectPoints ia (selectPoints ia oct) = oct"
proof -
  have "map ((\<lambda>(p, s). (p, if insideInteractor ia p then False else s)) \<circ>
             (\<lambda>(p, s). (p, if insideInteractor ia p then True else s))) oct = map id oct"
    using assms by (intro map_cong) (auto split: if_splits)
  then show ?thesis
    by (simp add: deselectPoints_def selectPoints_def)
qed

text \<open>
  C5. With the tool active, a frame in mode Add applies \<open>selectPoints\<close>, and a frame in
  mode Subtract applies \<open>deselectPoints\<close>, with the frame's sphere to every shown octree
  and to no other. When no resident point inside the sphere was selected beforehand (as
  in a freshly built dataset, with the sphere of radius 0.1 around (0.5, 0.5, 0.5)), an
  Add frame followed by a Subtract frame with the same sphere leaves every octree, and so
  every point's selection flag, exactly as it was before the two frames.
\<close>

theorem C5_select_then_deselect:
  assumes "active tool" and "length (octrees app) = numOctrees app"
    and "\<forall>i<numOctrees app. showOctrees app ! i \<longrightarrow>
           (\<forall>(p, s) \<in> set (octrees app ! i). insideInteractor (frameInteractor tool inp) p \<longrightarrow> \<not> s)"
  shows "octrees (frame (tool\<lparr>selectorMode := Add\<rparr>) inp app)
           = onShown (selectPoints (frameInteractor tool inp)) app
       \<and> octrees (frame (tool\<lparr>selectorMode := Subtract\<rparr>) inp app)
           = onShown (deselectPoints (frameInteractor tool inp)) app
       \<and> octrees (frame (tool\<lparr>selectorMode := Subtract\<rparr>) inp
                    (frame (tool\<lparr>selectorMode := Add\<rparr>) inp app)) = octrees app"
proof -
  let ?ia = "frameInteractor tool inp"
  let ?add = "tool\<lparr>selectorMode := Add\<rparr>" and ?sub = "tool\<lparr>selectorMode := Subtract\<rparr>"
  have ia: "frameInteractor ?add inp = ?ia" "frameInteractor ?sub inp = ?ia"
    by (simp_all add: frameInteractor_def)
  have act: "active ?add" "active ?sub" using assms(1) by simp_all
  have A: "octrees (frame ?add inp app) = onShown (selectPoints ?ia) app"
    using frame_octrees [OF act(1) assms(2), of inp] by (simp add: ia)
  have S: "octrees (frame ?sub inp app) = onShown (deselectPoints ?ia) app"
    using frame_octrees [OF act(2) assms(2), of inp] by (simp add: ia)
  let ?app1 = "frame ?add inp app"
  have cfg: "showOctrees ?app1 = showOctrees app" "numOctrees ?app1 = numOctrees app"
    "length (octrees ?app1) = numOctrees ?app1"
    using frame_config [of ?add inp app] assms(2) by simp_all
  have "octrees (frame ?sub inp ?app1) = onShown (deselectPoints ?ia) ?app1"
    using frame_octrees [OF act(2) cfg(3), of inp] by (simp add: ia)
  also have "\<dots> = map (\<lambda>i. octrees app ! i) [0..<numOctrees app]"
    unfolding onShown_def cfg A
    using assms(3) by (intro map_cong) (auto simp: deselect_select_disjoint)
  also have "\<dots> = octrees app"
    unfolding assms(2) [symmetric] by (simp add: map_nth)
  finally show ?thesis using A S by simp
qed


theorem C5_select_then_deselect_witness:
  "octrees (frame \<lparr>radius = 1 / 10, selectorMode = Subtract, active = True\<rparr>
       \<lparr>devicePosition = (1 / 2, 1 / 2, 1 / 2), navScaling = 1\<rparr>
       (frame \<lparr>radius = 1 / 10, selectorMode = Add, active = True\<rparr>
          \<lparr>devicePosition = (1 / 2, 1 / 2, 1 / 2), navScaling = 1\<rparr>
          \<lparr>numOctrees = 2,
           octrees = [[((1 / 2, 1 / 2, 1 / 2), False), ((9 / 10, 9 / 10, 9 / 10), True)],
                      [((1 / 2, 1 / 2, 1 / 2), True)]],
           showOctrees = [True, False], callLog = []\<rparr>))
     = [[((1 / 2, 1 / 2, 1 / 2), False), ((9 / 10, 9 / 10, 9 / 10), True)],
        [((1 / 2, 1 / 2, 1 / 2), True)]]"
  using C5_select_then_deselect [of "\<lparr>radius = 1 / 10, selectorMode = Add, active = True\<rparr>"
      "\<lparr>numOctrees = 2,
           octrees = [[((1 / 2, 1 / 2, 1 / 2), False), ((9 / 10, 9 / 10, 9 / 10), True)],
                      [((1 / 2, 1 / 2, 1 / 2), True)]],
           showOctrees = [True, False], callLog = []\<rparr>"
      "\<lparr>devicePosition = (1 / 2, 1 / 2, 1 / 2), navScaling = 1\<rparr>"]
  by (simp add: insideInteractor_def frameInteractor_def eval_nat_numeral All_less_Suc)

subsection \<open>Loaders: malformed input and the point offset\<close>

lemma addPoint_config:
  "pointOffset (addPoint p c pa) = pointOffset pa" "transform (addPoint p c pa) = transform pa"
  "colorMask (addPoint p c pa) = colorMask pa"
  "points (addPoint p c pa) = points pa @ [storedPoint pa p c]"
  by (simp_all add: addPoint_def)

lemma storedPoint_cong:
  "pointOffset pa' = pointOffset pa \<Longrightarrow> transform pa' = transform pa \<Longrightarrow> colorMask pa' = colorMask pa
    \<Longrightarrow> storedPoint pa' p c = storedPoint pa p c"
  by (simp add: storedPoint_def)




text \<open>
  In the point data formats 4 and 5, which the loader accepts, a round of the loop
  advances by 28 bytes plus the excess of the record length over 57 or 63, not by the
  record length. For the file below, of two records of 57 bytes, the second round reads
  the bytes 28 to 55 of the first record; the second record of the file, with the
  coordinates 10, 20 and 30, is not read. The point offset is restored all the same.
\<close>

lemma loadPointFileLas_format_4_rounds:
  "loadPointFileLas
     \<lparr>pointOffset = (10, 20, 30), transform = None, colorMask = (1, 1, 1), points = []\<rparr>
     \<lparr>signature = ''LASF'',
      header = Some \<lparr>pointDataOffset = 227, pointDataFormat = 4, pointDataRecordLength = 57,
                      numPointRecords = 2, scale = (1, 1, 1), offset = (100, 200, 300)\<rparr>,
      pointData =
        [1, 0, 0, 0, 2, 0, 0, 0, 3, 0, 0, 0, 7, 0, 0, 2, 0, 0, 0, 0] @ replicate 8 0
          @ [1, 9, 0, 0, 0, 0, 0, 0, 0, 5, 0, 0, 0] @ replicate 16 0
        @ [10, 0, 0, 0, 20, 0, 0, 0, 30, 0, 0, 0, 8, 0, 0, 2, 0, 0, 0, 0] @ replicate 8 0
          @ replicate 29 0\<rparr>
     0xFFFFFFFF
   = Inr (\<lparr>pointOffset = (10, 20, 30), transform = None, colorMask = (1, 1, 1),
           points = [((- 109, - 218, - 327), (7, 7, 7)), ((2195, - 220, 950), (0, 0, 0))]\<rparr>, [])
   \<and> lasRecordAt
        \<lparr>pointDataOffset = 227, pointDataFormat = 4, pointDataRecordLength = 57,
          numPointRecords = 2, scale = (1, 1, 1), offset = (100, 200, 300)\<rparr>
        ([1, 0, 0, 0, 2, 0, 0, 0, 3, 0, 0, 0, 7, 0, 0, 2, 0, 0, 0, 0] @ replicate 8 0
          @ [1, 9, 0, 0, 0, 0, 0, 0, 0, 5, 0, 0, 0] @ replicate 16 0
        @ [10, 0, 0, 0, 20, 0, 0, 0, 30, 0, 0, 0, 8, 0, 0, 2, 0, 0, 0, 0] @ replicate 8 0
          @ replicate 29 0)
        1
      = Some \<lparr>pos = (10, 20, 30), intensity = 8, classification = 2, rgb = (0, 0, 0)\<rparr>
   \<and> lasStride \<lparr>pointDataOffset = 227, pointDataFormat = 4, pointDataRecordLength = 57,
          numPointRecords = 2, scale = (1, 1, 1), offset = (100, 200, 300)\<rparr> = 28"
  by code_simp

lemma xyziLines_result:
  "xyziLines n lines (pa, cerr) = (pa', cerr') \<Longrightarrow>
     pointOffset pa' = pointOffset pa \<and> transform pa' = transform pa \<and> colorMask pa' = colorMask pa \<and>
     points pa' = points pa @ map (\<lambda>(p, c). storedPoint pa p c) (goodXyziPoints lines) \<and>
     cerr' = cerr @ map XyziParseError (badXyziLines n lines)"
proof (induction lines arbitrary: n pa cerr)
  case Nil
  then show ?case by simp
next
  case (Cons line rest)
  show ?case
  proof (cases "isDataLine line")
    case False
    then show ?thesis using Cons.prems Cons.IH [of "n + 1" pa cerr] by simp
  next
    case True
    show ?thesis
    proof (cases "parseXyziLine line")
      case (Inl e)
      then show ?thesis
        using True Cons.prems Cons.IH [of "n + 1" pa "cerr @ [XyziParseError n]"] by simp
    next
      case (Inr pc)
      obtain p c where pc: "pc = (p, c)" by (cases pc)
      have sp: "\<And>q d. storedPoint (addPoint p c pa) q d = storedPoint pa q d"
        by (rule storedPoint_cong) (simp_all add: addPoint_config)
      show ?thesis
        using True Inr pc Cons.prems Cons.IH [of "n + 1" "addPoint p c pa" cerr]
        by (simp add: addPoint_config sp)
    qed
  qed
qed

lemma las_rejected_unchanged:
  assumes "4 \<le> length (signature file)" and "lasRejected file"
  shows "\<exists>out. loadPointFileLas pa file classMask = Inr (pa, out)"
  using assms
  by (auto simp: loadPointFileLas_def lasRejected_def Let_def not_less split: option.splits)

lemma las_cut_off_throws:
  assumes "lasCutOff file"
  shows "loadPointFileLas pa file classMask = Inl ReadPastEnd"
  using assms
  by (auto simp: loadPointFileLas_def lasCutOff_def)

text \<open>
  C9. The ASCII loader never fails: it keeps every point accumulated before, adds the
  points of the well-formed data lines in file order, and prints one diagnostic, with
  the line number, for every data line whose numbers do not parse, going on with the
  next line. The LAS loader returns without an exception and with the accumulator
  unchanged for a file of at least four bytes with a bad signature, and for a file
  whose header can be read in full and gives an unsupported point data format or a
  point data offset below 227. For a file that ends before its four signature bytes, or
  that has the signature and ends inside the header, the read throws; nothing catches
  the exception, so it ends the run.
\<close>

theorem C9_malformed_input_skipped:
  "(case loadPointFileXyzi pa lines of
      (pa', cerr) \<Rightarrow>
        points pa' = points pa @ map (\<lambda>(p, c). storedPoint pa p c) (goodXyziPoints lines) \<and>
        cerr = map XyziParseError (badXyziLines 1 lines))
   \<and> (4 \<le> length (signature file) \<and> lasRejected file \<longrightarrow>
        (\<exists>out. loadPointFileLas pa file classMask = Inr (pa, out)))
   \<and> (lasCutOff file \<longrightarrow> loadPointFileLas pa file classMask = Inl ReadPastEnd)"
proof -
  obtain pa' cerr where r: "loadPointFileXyzi pa lines = (pa', cerr)"
    by (cases "loadPointFileXyzi pa lines")
  then have "xyziLines 1 lines (pa, []) = (pa', cerr)"
    by (simp add: loadPointFileXyzi_def)
  from xyziLines_result [OF this] r las_rejected_unchanged [of "file" pa classMask]
    las_cut_off_throws [of "file" pa classMask]
  show ?thesis by simp
qed

text \<open>
  A LAS file that ends inside its header, and one of two bytes: neither is skipped, the
  loader throws.
\<close>

theorem C9_cut_off_las_file_counterexample:
  "loadPointFileLas
     \<lparr>pointOffset = (10, 20, 30), transform = None, colorMask = (1, 1, 1), points = [((0, 0, 0), (9, 9, 9))]\<rparr>
     \<lparr>signature = ''LASF'', header = None, pointData = []\<rparr> 4
   = Inl ReadPastEnd
   \<and> loadPointFileLas
     \<lparr>pointOffset = (10, 20, 30), transform = None, colorMask = (1, 1, 1), points = [((0, 0, 0), (9, 9, 9))]\<rparr>
     \<lparr>signature = ''LA'', header = None, pointData = []\<rparr> 4
   = Inl ReadPastEnd"
  by (simp add: loadPointFileLas_def)

theorem C9_malformed_input_skipped_witness:
  "loadPointFileXyzi
     \<lparr>pointOffset = (10, 20, 30), transform = None, colorMask = (1, 1, 1), points = [((0, 0, 0), (9, 9, 9))]\<rparr>
     [[NumberToken 1, NumberToken 2, NumberToken 3, NumberToken 4],
      [HashToken, WordToken ''comment''],
      [NumberToken 1, WordToken ''x'', NumberToken 3, NumberToken 4],
      [],
      [NumberToken 5, NumberToken 6, NumberToken 7],
      [NumberToken 5, NumberToken 6, NumberToken 7, NumberToken 8]]
   = (\<lparr>pointOffset = (10, 20, 30), transform = None, colorMask = (1, 1, 1),
       points = [((0, 0, 0), (9, 9, 9)), ((- 9, - 18, - 27), (4, 4, 4)), ((- 5, - 14, - 23), (8, 8, 8))]\<rparr>,
      [XyziParseError 3, XyziParseError 5])
   \<and> (\<exists>out. loadPointFileLas
         \<lparr>pointOffset = (10, 20, 30), transform = None, colorMask = (1, 1, 1), points = [((0, 0, 0), (9, 9, 9))]\<rparr>
         \<lparr>signature = ''LASF'',
          header = Some \<lparr>pointDataOffset = 227, pointDataFormat = 7, pointDataRecordLength = 26,
                      numPointRecords = 1, scale = (1, 1, 1), offset = (100, 200, 300)\<rparr>,
          pointData = [2, 0, 0, 0, 4, 0, 0, 0, 6, 0, 0, 0, 7, 0, 0, 2, 0, 0, 0, 0, 1, 0, 2, 0, 3, 0]\<rparr> 4
       = Inr (\<lparr>pointOffset = (10, 20, 30), transform = None, colorMask = (1, 1, 1), points = [((0, 0, 0), (9, 9, 9))]\<rparr>, out))
   \<and> lasCutOff \<lparr>signature = ''LASF'', header = None, pointData = []\<rparr>
   \<and> loadPointFileLas
         \<lparr>pointOffset = (10, 20, 30), transform = None, colorMask = (1, 1, 1), points = [((0, 0, 0), (9, 9, 9))]\<rparr>
         \<lparr>signature = ''LASF'', header = None, pointData = []\<rparr> 4
       = Inl ReadPastEnd"
proof -
  have rej: "4 \<le> length (signature \<lparr>signature = ''LASF'',
          header = Some \<lparr>pointDataOffset = 227, pointDataFormat = 7, pointDataRecordLength = 26,
                      numPointRecords = 1, scale = (1, 1, 1), offset = (100, 200, 300)\<rparr>,
          pointData = [2, 0, 0, 0, 4, 0, 0, 0, 6, 0, 0, 0, 7, 0, 0, 2, 0, 0, 0, 0, 1, 0, 2, 0, 3, 0]\<rparr>)
     \<and> lasRejected \<lparr>signature = ''LASF'',
          header = Some \<lparr>pointDataOffset = 227, pointDataFormat = 7, pointDataRecordLength = 26,
                      numPointRecords = 1, scale = (1, 1, 1), offset = (100, 200, 300)\<rparr>,
          pointData = [2, 0, 0, 0, 4, 0, 0, 0, 6, 0, 0, 0, 7, 0, 0, 2, 0, 0, 0, 0, 1, 0, 2, 0, 3, 0]\<rparr>"
    by (simp add: lasRejected_def)
  have cut: "lasCutOff \<lparr>signature = ''LASF'', header = None, pointData = []\<rparr>"
    by (simp add: lasCutOff_def)
  have run: "loadPointFileXyzi
     \<lparr>pointOffset = (10, 20, 30), transform = None, colorMask = (1, 1, 1), points = [((0, 0, 0), (9, 9, 9))]\<rparr>
     [[NumberToken 1, NumberToken 2, NumberToken 3, NumberToken 4],
      [HashToken, WordToken ''comment''],
      [NumberToken 1, WordToken ''x'', NumberToken 3, NumberToken 4],
      [],
      [NumberToken 5, NumberToken 6, NumberToken 7],
      [NumberToken 5, NumberToken 6, NumberToken 7, NumberToken 8]]
   = (\<lparr>pointOffset = (10, 20, 30), transform = None, colorMask = (1, 1, 1),
       points = [((0, 0, 0), (9, 9, 9)), ((- 9, - 18, - 27), (4, 4, 4)), ((- 5, - 14, - 23), (8, 8, 8))]\<rparr>,
      [XyziParseError 3, XyziParseError 5])"
    by code_simp
  note a = C9_malformed_input_skipped [of
        "\<lparr>pointOffset = (10, 20, 30), transform = None, colorMask = (1, 1, 1), points = [((0, 0, 0), (9, 9, 9))]\<rparr>"
        "[[NumberToken 1, NumberToken 2, NumberToken 3, NumberToken 4],
      [HashToken, WordToken ''comment''],
      [NumberToken 1, WordToken ''x'', NumberToken 3, NumberToken 4],
      [],
      [NumberToken 5, NumberToken 6, NumberToken 7],
      [NumberToken 5, NumberToken 6, NumberToken 7, NumberToken 8]]"
        "\<lparr>signature = ''LASF'',
          header = Some \<lparr>pointDataOffset = 227, pointDataFormat = 7, pointDataRecordLength = 26,
                      numPointRecords = 1, scale = (1, 1, 1), offset = (100, 200, 300)\<rparr>,
          pointData = [2, 0, 0, 0, 4, 0, 0, 0, 6, 0, 0, 0, 7, 0, 0, 2, 0, 0, 0, 0, 1, 0, 2, 0, 3, 0]\<rparr>"
        4]
  note b = C9_malformed_input_skipped [of
        "\<lparr>pointOffset = (10, 20, 30), transform = None, colorMask = (1, 1, 1), points = [((0, 0, 0), (9, 9, 9))]\<rparr>"
        "[[NumberToken 1, NumberToken 2, NumberToken 3, NumberToken 4],
      [HashToken, WordToken ''comment''],
      [NumberToken 1, WordToken ''x'', NumberToken 3, NumberToken 4],
      [],
      [NumberToken 5, NumberToken 6, NumberToken 7],
      [NumberToken 5, NumberToken 6, NumberToken 7, NumberToken 8]]"
        "\<lparr>signature = ''LASF'', header = None, pointData = []\<rparr>"
        4, THEN conjunct2, THEN conjunct2, THEN mp, OF cut]
  show ?thesis
    using run rej cut a b by simp
qed

subsection \<open>Re-importing an octree\<close>

lemma storedLidarPoint_cong:
  "pointOffset pa' = pointOffset pa \<Longrightarrow> transform pa' = transform pa \<Longrightarrow> colorMask pa' = colorMask pa
    \<Longrightarrow> storedLidarPoint pa' lp = storedLidarPoint pa lp"
  by (cases lp) (simp add: storedPoint_def)

lemma addLidarPoint_config:
  "pointOffset (addLidarPoint lp pa) = pointOffset pa" "transform (addLidarPoint lp pa) = transform pa"
  "colorMask (addLidarPoint lp pa) = colorMask pa"
  "points (addLidarPoint lp pa) = points pa @ [storedLidarPoint pa lp]"
  by (cases lp; simp add: addPoint_def)+

lemma fold_addLidarPoint:
  "pointOffset (fold addLidarPoint ps pa) = pointOffset pa \<and>
   transform (fold addLidarPoint ps pa) = transform pa \<and>
   colorMask (fold addLidarPoint ps pa) = colorMask pa \<and>
   points (fold addLidarPoint ps pa) = points pa @ map (storedLidarPoint pa) ps"
proof (induction ps arbitrary: pa)
  case Nil
  then show ?case by simp
next
  case (Cons lp ps)
  have "\<And>q. storedLidarPoint (addLidarPoint lp pa) q = storedLidarPoint pa q"
    by (rule storedLidarPoint_cong) (simp_all add: addLidarPoint_config)
  then show ?case
    using Cons.IH [of "addLidarPoint lp pa"] by (simp add: addLidarPoint_config)
qed

lemma readNodePoints_pointsAt:
  "pointsAt obinFile readPos ps \<Longrightarrow>
     readNodePoints obinFile readPos (length ps) pa = Inr (fold addLidarPoint ps pa)"
  by (induction ps arbitrary: readPos pa) simp_all

lemma le_fold_max: "(a::nat) \<le> fold max xs a"
proof (induction xs arbitrary: a)
  case Nil
  then show ?case by simp
next
  case (Cons x xs)
  have "a \<le> max x a" by simp
  also have "\<dots> \<le> fold max xs (max x a)" by (rule Cons.IH)
  finally show ?case by simp
qed

lemma mem_le_fold_max: "(x::nat) \<in> set xs \<Longrightarrow> x \<le> fold max xs a"
proof (induction xs arbitrary: a)
  case Nil
  then show ?case by simp
next
  case (Cons y xs)
  show ?case
  proof (cases "x = y")
    case True
    have "x \<le> max y a" using True by simp
    also have "\<dots> \<le> fold max xs (max y a)" by (rule le_fold_max)
    finally show ?thesis by simp
  next
    case False
    then show ?thesis using Cons by simp
  qed
qed

lemma depth_child: "c \<in> set cs \<Longrightarrow> depth c < depth (OctreeNode pts cs)"
  using mem_le_fold_max [of "depth c" "map depth cs" 0] by (simp add: less_Suc_eq_le)

lemma readChildren_holds:
  assumes "\<And>c readPos pa. c \<in> set cs \<Longrightarrow> holdsTree octFile obinFile readPos c \<Longrightarrow>
      readOctreeFileSubtree fuel octFile obinFile readPos pa = Some (Inr (fold addLidarPoint (leafPoints c) pa))"
    and "holdsChildren octFile obinFile childOffset cs"
  shows "readChildren fuel octFile obinFile childOffset (length cs) pa =
      Some (Inr (fold addLidarPoint (concat (map leafPoints cs)) pa))"
  using assms
proof (induction cs arbitrary: childOffset pa)
  case Nil
  then show ?case by simp
next
  case (Cons c cs)
  have c: "readOctreeFileSubtree fuel octFile obinFile childOffset pa = Some (Inr (fold addLidarPoint (leafPoints c) pa))"
    using Cons.prems by simp
  have rest: "readChildren fuel octFile obinFile (childOffset + getSize) (length cs) (fold addLidarPoint (leafPoints c) pa)
      = Some (Inr (fold addLidarPoint (concat (map leafPoints cs)) (fold addLidarPoint (leafPoints c) pa)))"
    using Cons.prems by (intro Cons.IH) simp_all
  show ?case
    by (simp add: c rest)
qed

lemma readOctreeFileSubtree_holds:
  "holdsTree octFile obinFile readPos t \<Longrightarrow> depth t \<le> fuel \<Longrightarrow>
     readOctreeFileSubtree fuel octFile obinFile readPos pa = Some (Inr (fold addLidarPoint (leafPoints t) pa))"
proof (induction t arbitrary: fuel readPos pa)
  case (OctreeNode pts cs)
  obtain f where fuel: "fuel = Suc f" and f: "fold max (map depth cs) 0 \<le> f"
    using OctreeNode.prems(2) by (cases fuel) simp_all
  obtain ofn where ofn: "octFile readPos = Some ofn"
    using OctreeNode.prems(1) by (auto split: option.splits)
  show ?case
  proof (cases "cs = []")
    case True
    then have leaf: "childrenOffset ofn = 0" "numPoints ofn = length pts" "pointsAt obinFile (pointsOffset ofn) pts"
      using OctreeNode.prems(1) ofn by simp_all
    show ?thesis
    proof (cases "pts = []")
      case True
      then show ?thesis using leaf \<open>cs = []\<close> by (simp add: fuel ofn)
    next
      case False
      then show ?thesis
        using leaf \<open>cs = []\<close> readNodePoints_pointsAt [OF leaf(3), of pa] by (simp add: fuel ofn)
    qed
  next
    case False
    then have inner: "childrenOffset ofn \<noteq> 0" "length cs = 8" "holdsChildren octFile obinFile (childrenOffset ofn) cs"
      using OctreeNode.prems(1) ofn by simp_all
    have ih: "\<And>c readPos pa. c \<in> set cs \<Longrightarrow> holdsTree octFile obinFile readPos c \<Longrightarrow>
        readOctreeFileSubtree f octFile obinFile readPos pa = Some (Inr (fold addLidarPoint (leafPoints c) pa))"
    proof -
      fix c readPos pa assume c: "c \<in> set cs" and h: "holdsTree octFile obinFile readPos c"
      have "depth c \<le> f"
        using mem_le_fold_max [of "depth c" "map depth cs" 0] c f by simp
      then show "readOctreeFileSubtree f octFile obinFile readPos pa = Some (Inr (fold addLidarPoint (leafPoints c) pa))"
        using OctreeNode.IH [OF c h] by simp
    qed
    show ?thesis
      using readChildren_holds [OF ih inner(3), of pa] inner False by (simp add: fuel ofn)
  qed
qed

lemma processChildren_loader:
  assumes "\<And>c nodeLevel pa. c \<in> set cs \<Longrightarrow>
      processNodesPostfix LidarFileLoader c nodeLevel pa = fold addLidarPoint (leafPoints c) pa"
  shows "fold (\<lambda>c. processNodesPostfix LidarFileLoader c nodeLevel) cs pa =
      fold addLidarPoint (concat (map leafPoints cs)) pa"
  using assms by (induction cs arbitrary: pa) simp_all

lemma processNodesPostfix_loader:
  "processNodesPostfix LidarFileLoader t nodeLevel pa = fold addLidarPoint (leafPoints t) pa"
proof (induction t arbitrary: nodeLevel pa)
  case (OctreeNode pts cs)
  have ch: "fold (\<lambda>c. processNodesPostfix LidarFileLoader c (nodeLevel + 1)) cs pa =
      fold addLidarPoint (concat (map leafPoints cs)) pa"
    by (rule processChildren_loader) (rule OctreeNode.IH)
  have top: "\<And>st. LidarFileLoader (OctreeNode pts cs) nodeLevel st =
      (if cs = [] then fold addLidarPoint pts st else st)"
    by (simp add: LidarFileLoader_def isLeaf_def)
  show ?case
    using ch by (simp add: top)
qed

text \<open>
  C3. Re-importing an octree adds exactly the points stored at its leaves, each once
  and in traversal order, and none of the points stored at interior nodes. The loader of
  the new format adds points only at nodes that are leaves, so over a postfix traversal
  it adds the leaf points of the tree. The loader of the old format, run on files that
  hold a tree (with enough fuel for its depth), returns without an error having added
  the leaf points of that tree; at a node record with a nonzero \<open>childrenOffset\<close> it
  reads eight child records, and at any other record the \<open>numPoints\<close> points stored from
  \<open>pointsOffset\<close>.
\<close>

theorem C3_reimport_adds_leaf_points:
  "points (loadLidarFile pa rootNode) = points pa @ map (storedLidarPoint pa) (leafPoints rootNode)
   \<and> (holdsTree octFile obinFile readPos t \<and> depth t \<le> fuel \<longrightarrow>
        (\<exists>pa'. readOctreeFileSubtree fuel octFile obinFile readPos pa = Some (Inr pa')
           \<and> points pa' = points pa @ map (storedLidarPoint pa) (leafPoints t)))
   \<and> (octFile readPos = Some ofn \<and> childrenOffset ofn \<noteq> 0 \<longrightarrow>
        readOctreeFileSubtree (Suc fuel) octFile obinFile readPos pa
          = readChildren fuel octFile obinFile (childrenOffset ofn) 8 pa)"
proof -
  have new: "points (loadLidarFile pa rootNode) = points pa @ map (storedLidarPoint pa) (leafPoints rootNode)"
    by (simp add: loadLidarFile_def processNodesPostfix_loader fold_addLidarPoint)
  have old: "holdsTree octFile obinFile readPos t \<and> depth t \<le> fuel \<longrightarrow>
        (\<exists>pa'. readOctreeFileSubtree fuel octFile obinFile readPos pa = Some (Inr pa')
           \<and> points pa' = points pa @ map (storedLidarPoint pa) (leafPoints t))"
    using readOctreeFileSubtree_holds [of octFile obinFile readPos t fuel pa]
    by (simp add: fold_addLidarPoint)
  have step: "octFile readPos = Some ofn \<and> childrenOffset ofn \<noteq> 0 \<longrightarrow>
        readOctreeFileSubtree (Suc fuel) octFile obinFile readPos pa
          = readChildren fuel octFile obinFile (childrenOffset ofn) 8 pa"
    by simp
  show ?thesis using new old step by blast
qed


theorem C3_reimport_adds_leaf_points_witness:
  "points (loadLidarFile \<lparr>pointOffset = (1, 1, 1), transform = None, colorMask = (1, 1, 1), points = []\<rparr>
       (OctreeNode [((5, 5, 5), (255, 0, 0, 255))] [OctreeNode [((1, 2, 3), (10, 20, 30, 255)), ((7, 8, 9), (40, 50, 60, 255))] [], OctreeNode [] [], OctreeNode [] [], OctreeNode [] [], OctreeNode [] [], OctreeNode [] [], OctreeNode [] [], OctreeNode [] []])) = [((0, 1, 2), (10, 20, 30)), ((6, 7, 8), (40, 50, 60))]
   \<and> (\<exists>pa'. readOctreeFileSubtree 2
         (\<lambda>p. if p = 8 then Some \<lparr>childrenOffset = 32, detailSize = 1, numPoints = 1, pointsOffset = 0\<rparr>
            else if p = 32 then Some \<lparr>childrenOffset = 0, detailSize = 0, numPoints = 2, pointsOffset = 16\<rparr>
            else if p \<in> {56, 80, 104, 128, 152, 176, 200}
            then Some \<lparr>childrenOffset = 0, detailSize = 0, numPoints = 0, pointsOffset = 0\<rparr>
            else None)
         (\<lambda>p. if p = 0 then Some ((5, 5, 5), (255, 0, 0, 255)) else if p = 16 then Some ((1, 2, 3), (10, 20, 30, 255))
            else if p = 32 then Some ((7, 8, 9), (40, 50, 60, 255)) else None) 8 \<lparr>pointOffset = (1, 1, 1), transform = None, colorMask = (1, 1, 1), points = []\<rparr> = Some (Inr pa')
       \<and> points pa' = [((0, 1, 2), (10, 20, 30)), ((6, 7, 8), (40, 50, 60))])"
proof -
  have h: "holdsTree
         (\<lambda>p. if p = 8 then Some \<lparr>childrenOffset = 32, detailSize = 1, numPoints = 1, pointsOffset = 0\<rparr>
            else if p = 32 then Some \<lparr>childrenOffset = 0, detailSize = 0, numPoints = 2, pointsOffset = 16\<rparr>
            else if p \<in> {56, 80, 104, 128, 152, 176, 200}
            then Some \<lparr>childrenOffset = 0, detailSize = 0, numPoints = 0, pointsOffset = 0\<rparr>
            else None)
         (\<lambda>p. if p = 0 then Some ((5, 5, 5), (255, 0, 0, 255)) else if p = 16 then Some ((1, 2, 3), (10, 20, 30, 255))
            else if p = 32 then Some ((7, 8, 9), (40, 50, 60, 255)) else None) 8
         (OctreeNode [((5, 5, 5), (255, 0, 0, 255))] [OctreeNode [((1, 2, 3), (10, 20, 30, 255)), ((7, 8, 9), (40, 50, 60, 255))] [], OctreeNode [] [], OctreeNode [] [], OctreeNode [] [], OctreeNode [] [], OctreeNode [] [], OctreeNode [] [], OctreeNode [] []])
     \<and> depth (OctreeNode [((5, 5, 5), (255, 0, 0, 255))] [OctreeNode [((1, 2, 3), (10, 20, 30, 255)), ((7, 8, 9), (40, 50, 60, 255))] [], OctreeNode [] [], OctreeNode [] [], OctreeNode [] [], OctreeNode [] [], OctreeNode [] [], OctreeNode [] [], OctreeNode [] []]) \<le> 2"
    by code_simp
  have l: "leafPoints (OctreeNode [((5, 5, 5), (255, 0, 0, 255))] [OctreeNode [((1, 2, 3), (10, 20, 30, 255)), ((7, 8, 9), (40, 50, 60, 255))] [], OctreeNode [] [], OctreeNode [] [], OctreeNode [] [], OctreeNode [] [], OctreeNode [] [], OctreeNode [] [], OctreeNode [] []]) = [((1, 2, 3), (10, 20, 30, 255)), ((7, 8, 9), (40, 50, 60, 255))]"
    by simp
  show ?thesis
    using h C3_reimport_adds_leaf_points [of "\<lparr>pointOffset = (1, 1, 1), transform = None, colorMask = (1, 1, 1), points = []\<rparr>"
      "OctreeNode [((5, 5, 5), (255, 0, 0, 255))] [OctreeNode [((1, 2, 3), (10, 20, 30, 255)), ((7, 8, 9), (40, 50, 60, 255))] [], OctreeNode [] [], OctreeNode [] [], OctreeNode [] [], OctreeNode [] [], OctreeNode [] [], OctreeNode [] [], OctreeNode [] []]"
      "(\<lambda>p. if p = 8 then Some \<lparr>childrenOffset = 32, detailSize = 1, numPoints = 1, pointsOffset = 0\<rparr>
            else if p = 32 then Some \<lparr>childrenOffset = 0, detailSize = 0, numPoints = 2, pointsOffset = 16\<rparr>
            else if p \<in> {56, 80, 104, 128, 152, 176, 200}
            then Some \<lparr>childrenOffset = 0, detailSize = 0, numPoints = 0, pointsOffset = 0\<rparr>
            else None)"
      "(\<lambda>p. if p = 0 then Some ((5, 5, 5), (255, 0, 0, 255)) else if p = 16 then Some ((1, 2, 3), (10, 20, 30, 255))
            else if p = 32 then Some ((7, 8, 9), (40, 50, 60, 255)) else None)" 8
      "OctreeNode [((5, 5, 5), (255, 0, 0, 255))] [OctreeNode [((1, 2, 3), (10, 20, 30, 255)), ((7, 8, 9), (40, 50, 60, 255))] [], OctreeNode [] [], OctreeNode [] [], OctreeNode [] [], OctreeNode [] [], OctreeNode [] [], OctreeNode [] [], OctreeNode [] []]" 2]
    by (simp only: l) (simp add: storedPoint_def)
qed

subsection \<open>The offset file and the exporter\<close>

lemma fold_PointSaver_call:
  "fold PointSaver_call pts ps =
     ps\<lparr>psLines := psLines ps @ map (\<lambda>(p, (r, g, b, a)). (pointSaverFormat, vadd p (psOffset ps), r, g, b)) pts,
        psNumPoints := psNumPoints ps + length pts\<rparr>"
proof (induction pts arbitrary: ps)
  case Nil
  then show ?case by simp
next
  case (Cons lp pts)
  obtain p r g b a where lp: "lp = (p, (r, g, b, a))" by (cases lp) auto
  show ?case by (simp add: Cons.IH lp)
qed

lemma fold_BinaryPointSaver_call:
  "fold BinaryPointSaver_call pts ps =
     ps\<lparr>bpsRecords := bpsRecords ps @ pts, bpsNumPoints := bpsNumPoints ps + length pts\<rparr>"
  by (induction pts arbitrary: ps) (simp_all add: BinaryPointSaver_call_def)

lemma fold_LasPointSaver_call_Inl:
  "fold LasPointSaver_call pts (Inl e) = Inl e"
  by (induction pts) simp_all

lemma quantize_Inr:
  "quantizable x off sc \<Longrightarrow> quantize x off sc = Inr (word_of_int \<lfloor>(x - off) / sc + 1 / 2\<rfloor>)"
  by (simp add: quantizable_def quantize_def)

lemma quantize_Inl:
  "\<not> quantizable x off sc \<Longrightarrow> quantize x off sc = Inl UndefinedIntConversion"
  by (auto simp: quantizable_def quantize_def)

lemma LasPointSaver_call_Inr:
  assumes "pointQuantizable (lpsOffset ps) (lpsScale ps) lp"
  shows "LasPointSaver_call lp (Inr ps) =
     Inr (ps\<lparr>lpsRecords := lpsRecords ps @ [lasRecordOf (lpsOffset ps) (lpsScale ps) lp],
             lpsNumPoints := lpsNumPoints ps + 1\<rparr>)"
proof -
  obtain x y z r g b a where lp: "lp = ((x, y, z), (r, g, b, a))" by (cases lp) auto
  obtain o0 o1 o2 where off: "lpsOffset ps = (o0, o1, o2)" by (cases "lpsOffset ps") auto
  obtain s0 s1 s2 where sc: "lpsScale ps = (s0, s1, s2)" by (cases "lpsScale ps") auto
  have q: "quantizable x o0 s0" "quantizable y o1 s1" "quantizable z o2 s2"
    using assms by (simp_all add: lp off sc)
  show ?thesis
    by (simp add: lp off sc quantize_Inr [OF q(1)] quantize_Inr [OF q(2)] quantize_Inr [OF q(3)])
qed

lemma LasPointSaver_call_Inl:
  assumes "\<not> pointQuantizable (lpsOffset ps) (lpsScale ps) lp"
  shows "LasPointSaver_call lp (Inr ps) = Inl UndefinedIntConversion"
proof -
  obtain x y z r g b a where lp: "lp = ((x, y, z), (r, g, b, a))" by (cases lp) auto
  obtain o0 o1 o2 where off: "lpsOffset ps = (o0, o1, o2)" by (cases "lpsOffset ps") auto
  obtain s0 s1 s2 where sc: "lpsScale ps = (s0, s1, s2)" by (cases "lpsScale ps") auto
  have "\<not> quantizable x o0 s0 \<or> \<not> quantizable y o1 s1 \<or> \<not> quantizable z o2 s2"
    using assms by (simp add: lp off sc)
  then show ?thesis
    by (cases "quantizable x o0 s0"; cases "quantizable y o1 s1")
       (auto simp: lp off sc quantize_Inr quantize_Inl)
qed

lemma fold_LasPointSaver_call_Inr:
  "list_all (pointQuantizable (lpsOffset ps) (lpsScale ps)) pts \<Longrightarrow>
   fold LasPointSaver_call pts (Inr ps) =
     Inr (ps\<lparr>lpsRecords := lpsRecords ps @ map (lasRecordOf (lpsOffset ps) (lpsScale ps)) pts,
             lpsNumPoints := lpsNumPoints ps + length pts\<rparr>)"
proof (induction pts arbitrary: ps)
  case Nil
  then show ?case by simp
next
  case (Cons lp pts)
  let ?ps1 = "ps\<lparr>lpsRecords := lpsRecords ps @ [lasRecordOf (lpsOffset ps) (lpsScale ps) lp],
             lpsNumPoints := lpsNumPoints ps + 1\<rparr>"
  have q: "pointQuantizable (lpsOffset ps) (lpsScale ps) lp"
    and rest: "list_all (pointQuantizable (lpsOffset ?ps1) (lpsScale ?ps1)) pts"
    using Cons.prems by simp_all
  show ?case
    using Cons.IH [OF rest] by (simp add: LasPointSaver_call_Inr [OF q])
qed

lemma fold_LasPointSaver_call_fails:
  "\<not> list_all (pointQuantizable (lpsOffset ps) (lpsScale ps)) pts \<Longrightarrow>
   fold LasPointSaver_call pts (Inr ps) = Inl UndefinedIntConversion"
proof (induction pts arbitrary: ps)
  case Nil
  then show ?case by simp
next
  case (Cons lp pts)
  show ?case
  proof (cases "pointQuantizable (lpsOffset ps) (lpsScale ps) lp")
    case False
    then show ?thesis
      by (simp add: LasPointSaver_call_Inl fold_LasPointSaver_call_Inl)
  next
    case True
    let ?ps1 = "ps\<lparr>lpsRecords := lpsRecords ps @ [lasRecordOf (lpsOffset ps) (lpsScale ps) lp],
             lpsNumPoints := lpsNumPoints ps + 1\<rparr>"
    have rest: "\<not> list_all (pointQuantizable (lpsOffset ?ps1) (lpsScale ?ps1)) pts"
      using Cons.prems True by simp
    show ?thesis
      using Cons.IH [OF rest] by (simp add: LasPointSaver_call_Inr [OF True])
  qed
qed

lemma processExport_fold:
  "processExport args lpo f st = fold f (visitedPoints args lpo) st"
  by (simp add: processExport_def visitedPoints_def processPoints_def processPointsInBox_def)

lemma round_within:
  fixes x off sc :: real
  assumes "sc \<noteq> 0"
  shows "\<bar>real_of_int \<lfloor>(x - off) / sc + 1 / 2\<rfloor> * sc + off - x\<bar> \<le> \<bar>sc\<bar> / 2"
proof -
  define t where "t = (x - off) / sc"
  define q where "q = real_of_int \<lfloor>t + 1 / 2\<rfloor>"
  have "q \<le> t + 1 / 2" "t + 1 / 2 < q + 1"
    unfolding q_def by linarith+
  then have d: "\<bar>q - t\<bar> \<le> 1 / 2" by linarith
  have "t * sc = x - off" using assms by (simp add: t_def)
  then have "q * sc + off - x = (q - t) * sc" by (simp add: algebra_simps)
  then have "\<bar>q * sc + off - x\<bar> = \<bar>q - t\<bar> * \<bar>sc\<bar>" by (simp add: abs_mult)
  also have "\<dots> \<le> (1 / 2) * \<bar>sc\<bar>"
    using d by (rule mult_right_mono) simp
  finally show ?thesis by (simp add: q_def t_def)
qed

lemma sint_word_of_int_32:
  assumes "- (2 ^ 31) \<le> k" and "k < 2 ^ 31"
  shows "sint (word_of_int k :: 32 word) = k"
proof -
  have "sint (word_of_int k :: 32 word) = signed_take_bit (LENGTH(32) - 1) k"
    by (rule sint_sbintrunc')
  also have "\<dots> = signed_take_bit 31 k" by simp
  also have "\<dots> = k" using assms by (rule signed_take_bit_int_eq_self)
  finally show ?thesis .
qed

lemma quantizable_within:
  assumes "quantizable x off sc"
  shows "\<bar>real_of_int (sint (word_of_int \<lfloor>(x - off) / sc + 1 / 2\<rfloor> :: 32 word)) * sc + (off + l) - (x + l)\<bar>
           \<le> \<bar>sc\<bar> / 2"
proof -
  have r: "- (2 ^ 31) \<le> \<lfloor>(x - off) / sc + 1 / 2\<rfloor>" "\<lfloor>(x - off) / sc + 1 / 2\<rfloor> < 2 ^ 31" and nz: "sc \<noteq> 0"
    using assms by (simp_all add: quantizable_def)
  have s: "sint (word_of_int \<lfloor>(x - off) / sc + 1 / 2\<rfloor> :: 32 word) = \<lfloor>(x - off) / sc + 1 / 2\<rfloor>"
    using r by (rule sint_word_of_int_32)
  have b: "\<bar>real_of_int \<lfloor>(x - off) / sc + 1 / 2\<rfloor> * sc + off - x\<bar> \<le> \<bar>sc\<bar> / 2"
    using nz by (rule round_within)
  have e: "real_of_int (sint (word_of_int \<lfloor>(x - off) / sc + 1 / 2\<rfloor> :: 32 word)) * sc + (off + l) - (x + l)
      = real_of_int \<lfloor>(x - off) / sc + 1 / 2\<rfloor> * sc + off - x"
    by (simp add: s)
  show ?thesis
    unfolding e by (rule b)
qed

lemma lasRecordOf_within:
  assumes "pointQuantizable off sc lp"
  shows "withinHalfStep sc (lasDecodedPosition sc (vadd off l) (lasRecordOf off sc lp)) (vadd (fst lp) l)"
proof -
  obtain x y z r g b a where lp: "lp = ((x, y, z), (r, g, b, a))" by (cases lp) auto
  obtain o0 o1 o2 where off: "off = (o0, o1, o2)" by (cases off) auto
  obtain s0 s1 s2 where sc: "sc = (s0, s1, s2)" by (cases sc) auto
  obtain l0 l1 l2 where l: "l = (l0, l1, l2)" by (cases l) auto
  have q: "quantizable x o0 s0" "quantizable y o1 s1" "quantizable z o2 s2"
    using assms by (simp_all add: lp off sc)
  show ?thesis
    unfolding lp off sc l
    using quantizable_within [OF q(1), of l0] quantizable_within [OF q(2), of l1]
      quantizable_within [OF q(3), of l2]
    by simp
qed


text \<open>
  C4, as amended. After a build the preprocessor writes the \<open>Offset\<close> file, holding the
  three components of the accumulator's point offset as little-endian 8-byte values,
  exactly when that offset is not zero. The exporter turns a query box given in
  original coordinates into stored coordinates by subtracting the dataset's offset from
  both corners. In the default ASCII output mode it prints, for every visited point and
  with the format \<open>%.12g\<close>, the stored position plus the dataset's offset. In binary mode
  it writes the offset once, in the file header, followed by the point count and the
  visited points with their stored positions unchanged. In LAS mode, if every
  coordinate of every visited point can be quantized, it writes the sum of the
  quantization offset (the domain centre) and the dataset's offset to the header and,
  for every visited point, the record of its quantized coordinates, from which a reader
  recovers the stored position plus the dataset's offset up to half a quantization
  step; otherwise the conversion to a 32-bit integer is undefined.
\<close>

theorem C4_offset_file_and_export:
  "writeOffsetFile pa =
     (if pointOffset pa = vzero then None
      else Some \<lparr>ofEndianness = LittleEndian, ofComponentSize = 8,
                  ofComponents = [comp (pointOffset pa) 0, comp (pointOffset pa) 1, comp (pointOffset pa) 2]\<rparr>)
   \<and> lidarBox args lpo =
       \<lparr>boxMin = vsub (fst (box args)) (lpoOffset lpo), boxMax = vsub (snd (box args)) (lpoOffset lpo)\<rparr>
   \<and> (outputFileType args \<noteq> 1 \<and> outputFileType args \<noteq> 2 \<longrightarrow>
        exporterMain args lpo =
          AsciiOutput \<lparr>psOffset = lpoOffset lpo,
             psLines = map (\<lambda>(p, (r, g, b, a)).
                              (''%.12g %.12g %.12g %u %u %u'' @ [CHR 0x0A], vadd p (lpoOffset lpo), r, g, b))
                         (visitedPoints args lpo),
             psNumPoints = length (visitedPoints args lpo)\<rparr>
        \<and> outputPositions (exporterMain args lpo) =
            map (\<lambda>lp. vadd (fst lp) (lpoOffset lpo)) (visitedPoints args lpo))
   \<and> (outputFileType args = 1 \<longrightarrow>
        exporterMain args lpo =
          BinaryOutput \<lparr>bpsOffset = lpoOffset lpo, bpsCount = of_nat (length (visitedPoints args lpo)),
             bpsRecords = visitedPoints args lpo, bpsNumPoints = length (visitedPoints args lpo)\<rparr>)
   \<and> (outputFileType args = 2 \<longrightarrow>
        (if list_all (pointQuantizable (domainCenter lpo) (lasScale args)) (visitedPoints args lpo)
         then \<exists>ps. exporterMain args lpo = LasOutput (Inr ps)
                \<and> lpsScale ps = lasScale args
                \<and> lpsHeaderOffset ps = vadd (domainCenter lpo) (lpoOffset lpo)
                \<and> lpsCount ps = of_nat (length (visitedPoints args lpo))
                \<and> lpsRecords ps = map (lasRecordOf (domainCenter lpo) (lasScale args)) (visitedPoints args lpo)
                \<and> (\<forall>lp\<in>set (visitedPoints args lpo).
                      withinHalfStep (lasScale args)
                        (lasDecodedPosition (lasScale args) (lpsHeaderOffset ps)
                           (lasRecordOf (domainCenter lpo) (lasScale args) lp))
                        (vadd (fst lp) (lpoOffset lpo)))
         else exporterMain args lpo = LasOutput (Inl UndefinedIntConversion)))"
proof -
  let ?vis = "visitedPoints args lpo"
  have off: "writeOffsetFile pa =
     (if pointOffset pa = vzero then None
      else Some \<lparr>ofEndianness = LittleEndian, ofComponentSize = 8,
                  ofComponents = [comp (pointOffset pa) 0, comp (pointOffset pa) 1, comp (pointOffset pa) 2]\<rparr>)"
    by (cases "pointOffset pa") (simp add: writeOffsetFile_def getPointOffset_def sizeofDouble_def)
  have bx: "lidarBox args lpo =
       \<lparr>boxMin = vsub (fst (box args)) (lpoOffset lpo), boxMax = vsub (snd (box args)) (lpoOffset lpo)\<rparr>"
    by (simp add: lidarBox_def)
  have asc: "outputFileType args \<noteq> 1 \<and> outputFileType args \<noteq> 2 \<longrightarrow>
        exporterMain args lpo =
          AsciiOutput \<lparr>psOffset = lpoOffset lpo,
             psLines = map (\<lambda>(p, (r, g, b, a)).
                              (''%.12g %.12g %.12g %u %u %u'' @ [CHR 0x0A], vadd p (lpoOffset lpo), r, g, b))
                         ?vis,
             psNumPoints = length ?vis\<rparr>
        \<and> outputPositions (exporterMain args lpo) =
            map (\<lambda>lp. vadd (fst lp) (lpoOffset lpo)) ?vis"
    by (auto simp: exporterMain_def processExport_fold fold_PointSaver_call newPointSaver_def
          pointSaverFormat_def)
  have bin: "outputFileType args = 1 \<longrightarrow>
        exporterMain args lpo =
          BinaryOutput \<lparr>bpsOffset = lpoOffset lpo, bpsCount = of_nat (length ?vis),
             bpsRecords = ?vis, bpsNumPoints = length ?vis\<rparr>"
    by (simp add: exporterMain_def processExport_fold fold_BinaryPointSaver_call newBinaryPointSaver_def
          closeBinaryPointSaver_def)
  let ?ps0 = "newLasPointSaver (lpoOffset lpo) (lasScale args) (domainCenter lpo)"
  have ps0: "lpsOffset ?ps0 = domainCenter lpo" "lpsScale ?ps0 = lasScale args"
    by (simp_all add: newLasPointSaver_def)
  have las: "outputFileType args = 2 \<longrightarrow>
        (if list_all (pointQuantizable (domainCenter lpo) (lasScale args)) ?vis
         then \<exists>ps. exporterMain args lpo = LasOutput (Inr ps)
                \<and> lpsScale ps = lasScale args
                \<and> lpsHeaderOffset ps = vadd (domainCenter lpo) (lpoOffset lpo)
                \<and> lpsCount ps = of_nat (length ?vis)
                \<and> lpsRecords ps = map (lasRecordOf (domainCenter lpo) (lasScale args)) ?vis
                \<and> (\<forall>lp\<in>set ?vis.
                      withinHalfStep (lasScale args)
                        (lasDecodedPosition (lasScale args) (lpsHeaderOffset ps)
                           (lasRecordOf (domainCenter lpo) (lasScale args) lp))
                        (vadd (fst lp) (lpoOffset lpo)))
         else exporterMain args lpo = LasOutput (Inl UndefinedIntConversion))"
  proof (cases "list_all (pointQuantizable (domainCenter lpo) (lasScale args)) ?vis")
    case False
    then have "\<not> list_all (pointQuantizable (lpsOffset ?ps0) (lpsScale ?ps0)) ?vis"
      by (simp add: ps0)
    from fold_LasPointSaver_call_fails [OF this] False show ?thesis
      by (simp add: exporterMain_def processExport_fold)
  next
    case True
    then have "list_all (pointQuantizable (lpsOffset ?ps0) (lpsScale ?ps0)) ?vis"
      by (simp add: ps0)
    from fold_LasPointSaver_call_Inr [OF this]
    have run: "fold LasPointSaver_call ?vis (Inr ?ps0) =
        Inr (?ps0\<lparr>lpsRecords := lpsRecords ?ps0 @ map (lasRecordOf (domainCenter lpo) (lasScale args)) ?vis,
                   lpsNumPoints := lpsNumPoints ?ps0 + length ?vis\<rparr>)"
      by (simp only: ps0)
    have within: "\<forall>lp\<in>set ?vis.
        withinHalfStep (lasScale args)
          (lasDecodedPosition (lasScale args) (vadd (domainCenter lpo) (lpoOffset lpo))
             (lasRecordOf (domainCenter lpo) (lasScale args) lp))
          (vadd (fst lp) (lpoOffset lpo))"
      using True by (auto simp: list_all_iff intro: lasRecordOf_within)
    let ?ps = "closeLasPointSaver
        (?ps0\<lparr>lpsRecords := lpsRecords ?ps0 @ map (lasRecordOf (domainCenter lpo) (lasScale args)) ?vis,
               lpsNumPoints := lpsNumPoints ?ps0 + length ?vis\<rparr>)"
    have main: "outputFileType args = 2 \<longrightarrow> exporterMain args lpo = LasOutput (Inr ?ps)"
      by (simp add: exporterMain_def processExport_fold run)
    have fields: "lpsScale ?ps = lasScale args"
      "lpsHeaderOffset ?ps = vadd (domainCenter lpo) (lpoOffset lpo)"
      "lpsCount ?ps = of_nat (length ?vis)"
      "lpsRecords ?ps = map (lasRecordOf (domainCenter lpo) (lasScale args)) ?vis"
      by (simp_all add: closeLasPointSaver_def newLasPointSaver_def)
    have "outputFileType args = 2 \<longrightarrow>
        (\<exists>ps. exporterMain args lpo = LasOutput (Inr ps)
                \<and> lpsScale ps = lasScale args
                \<and> lpsHeaderOffset ps = vadd (domainCenter lpo) (lpoOffset lpo)
                \<and> lpsCount ps = of_nat (length ?vis)
                \<and> lpsRecords ps = map (lasRecordOf (domainCenter lpo) (lasScale args)) ?vis
                \<and> (\<forall>lp\<in>set ?vis.
                      withinHalfStep (lasScale args)
                        (lasDecodedPosition (lasScale args) (lpsHeaderOffset ps)
                           (lasRecordOf (domainCenter lpo) (lasScale args) lp))
                        (vadd (fst lp) (lpoOffset lpo))))"
    proof
      assume t: "outputFileType args = 2"
      show "\<exists>ps. exporterMain args lpo = LasOutput (Inr ps)
                \<and> lpsScale ps = lasScale args
                \<and> lpsHeaderOffset ps = vadd (domainCenter lpo) (lpoOffset lpo)
                \<and> lpsCount ps = of_nat (length ?vis)
                \<and> lpsRecords ps = map (lasRecordOf (domainCenter lpo) (lasScale args)) ?vis
                \<and> (\<forall>lp\<in>set ?vis.
                      withinHalfStep (lasScale args)
                        (lasDecodedPosition (lasScale args) (lpsHeaderOffset ps)
                           (lasRecordOf (domainCenter lpo) (lasScale args) lp))
                        (vadd (fst lp) (lpoOffset lpo)))"
      proof (intro exI [of _ ?ps] conjI)
        show "exporterMain args lpo = LasOutput (Inr ?ps)" using main t by simp
        show "\<forall>lp\<in>set ?vis.
                      withinHalfStep (lasScale args)
                        (lasDecodedPosition (lasScale args) (lpsHeaderOffset ?ps)
                           (lasRecordOf (domainCenter lpo) (lasScale args) lp))
                        (vadd (fst lp) (lpoOffset lpo))"
          using within by (simp only: fields)
      qed (rule fields)+
    qed
    then show ?thesis
      using True by simp
  qed
  show ?thesis
    by (intro conjI off bx asc bin las)
qed

text \<open>
  C4 as stated fails in binary mode: with the offset (100, 0, 0), the stored point
  (1, 2, 3) is written as (1, 2, 3), not as (101, 2, 3).
\<close>

theorem C4_binary_export_counterexample:
  "visitedPoints
       \<lparr>outputFileType = 1, lasScale = (1 / 1000, 1 / 1000, 1 / 1000), haveBox = False,
        box = ((0, 0, 0), (0, 0, 0))\<rparr>
       \<lparr>lpoOffset = (100, 0, 0), domainCenter = (0, 0, 0),
        leaves = [(\<lparr>boxMin = (0, 0, 0), boxMax = (4, 4, 4)\<rparr>, [((1, 2, 3), (9, 9, 9, 255))])]\<rparr>
     = [((1, 2, 3), (9, 9, 9, 255))]
   \<and> outputPositions (exporterMain
       \<lparr>outputFileType = 1, lasScale = (1 / 1000, 1 / 1000, 1 / 1000), haveBox = False,
        box = ((0, 0, 0), (0, 0, 0))\<rparr>
       \<lparr>lpoOffset = (100, 0, 0), domainCenter = (0, 0, 0),
        leaves = [(\<lparr>boxMin = (0, 0, 0), boxMax = (4, 4, 4)\<rparr>, [((1, 2, 3), (9, 9, 9, 255))])]\<rparr>)
     = [(1, 2, 3)]
   \<and> (1, 2, 3) \<noteq> vadd (1, 2, 3) (lpoOffset
       \<lparr>lpoOffset = (100, 0, 0), domainCenter = (0, 0, 0),
        leaves = [(\<lparr>boxMin = (0, 0, 0), boxMax = (4, 4, 4)\<rparr>, [((1, 2, 3), (9, 9, 9, 255))])]\<rparr>)"
  by (simp add: exporterMain_def processExport_def processPoints_def visitedPoints_def
        newBinaryPointSaver_def BinaryPointSaver_call_def closeBinaryPointSaver_def)

theorem C4_offset_file_and_export_witness:
  "writeOffsetFile \<lparr>pointOffset = (100, 0, 0), transform = None, colorMask = (1, 1, 1), points = []\<rparr>
     = Some \<lparr>ofEndianness = LittleEndian, ofComponentSize = 8, ofComponents = [100, 0, 0]\<rparr>
   \<and> exporterMain
       \<lparr>outputFileType = 0, lasScale = (1 / 1000, 1 / 1000, 1 / 1000), haveBox = True,
        box = ((100, 0, 0), (102, 2, 2))\<rparr>
       \<lparr>lpoOffset = (100, 0, 0), domainCenter = (0, 0, 0),
        leaves = [(\<lparr>boxMin = (0, 0, 0), boxMax = (4, 4, 4)\<rparr>, [((1, 2, 3), (9, 9, 9, 255))]),
                  (\<lparr>boxMin = (4, 0, 0), boxMax = (8, 4, 4)\<rparr>, [((5, 2, 3), (9, 9, 9, 255))])]\<rparr>
     = AsciiOutput \<lparr>psOffset = (100, 0, 0),
         psLines = [(''%.12g %.12g %.12g %u %u %u'' @ [CHR 0x0A], (101, 2, 3), 9, 9, 9)],
         psNumPoints = 1\<rparr>
   \<and> exporterMain
       \<lparr>outputFileType = 1, lasScale = (1 / 1000, 1 / 1000, 1 / 1000), haveBox = False,
        box = ((0, 0, 0), (0, 0, 0))\<rparr>
       \<lparr>lpoOffset = (100, 0, 0), domainCenter = (0, 0, 0),
        leaves = [(\<lparr>boxMin = (0, 0, 0), boxMax = (4, 4, 4)\<rparr>, [((1, 2, 3), (9, 9, 9, 255))])]\<rparr>
     = BinaryOutput \<lparr>bpsOffset = (100, 0, 0), bpsCount = 1,
         bpsRecords = [((1, 2, 3), (9, 9, 9, 255))], bpsNumPoints = 1\<rparr>
   \<and> (\<exists>ps. exporterMain
       \<lparr>outputFileType = 2, lasScale = (1 / 1000, 1 / 1000, 1 / 1000), haveBox = False,
        box = ((0, 0, 0), (0, 0, 0))\<rparr>
       \<lparr>lpoOffset = (100, 0, 0), domainCenter = (0, 0, 0),
        leaves = [(\<lparr>boxMin = (0, 0, 0), boxMax = (4, 4, 4)\<rparr>, [((1, 2, 3), (9, 9, 9, 255))])]\<rparr>
     = LasOutput (Inr ps)
       \<and> lpsHeaderOffset ps = (100, 0, 0)
       \<and> lpsRecords ps = [((1000, 2000, 3000), 9, (9, 9, 9))])"
proof -
  have vis0: "visitedPoints
       \<lparr>outputFileType = 0, lasScale = (1 / 1000, 1 / 1000, 1 / 1000), haveBox = True,
        box = ((100, 0, 0), (102, 2, 2))\<rparr>
       \<lparr>lpoOffset = (100, 0, 0), domainCenter = (0, 0, 0),
        leaves = [(\<lparr>boxMin = (0, 0, 0), boxMax = (4, 4, 4)\<rparr>, [((1, 2, 3), (9, 9, 9, 255))]),
                  (\<lparr>boxMin = (4, 0, 0), boxMax = (8, 4, 4)\<rparr>, [((5, 2, 3), (9, 9, 9, 255))])]\<rparr> = [((1, 2, 3), (9, 9, 9, 255))]"
    by (simp add: visitedPoints_def lidarBox_def)
  have vis1: "visitedPoints
       \<lparr>outputFileType = 1, lasScale = (1 / 1000, 1 / 1000, 1 / 1000), haveBox = False,
        box = ((0, 0, 0), (0, 0, 0))\<rparr>
       \<lparr>lpoOffset = (100, 0, 0), domainCenter = (0, 0, 0),
        leaves = [(\<lparr>boxMin = (0, 0, 0), boxMax = (4, 4, 4)\<rparr>, [((1, 2, 3), (9, 9, 9, 255))])]\<rparr> = [((1, 2, 3), (9, 9, 9, 255))]"
    by (simp add: visitedPoints_def)
  have vis2: "visitedPoints
       \<lparr>outputFileType = 2, lasScale = (1 / 1000, 1 / 1000, 1 / 1000), haveBox = False,
        box = ((0, 0, 0), (0, 0, 0))\<rparr>
       \<lparr>lpoOffset = (100, 0, 0), domainCenter = (0, 0, 0),
        leaves = [(\<lparr>boxMin = (0, 0, 0), boxMax = (4, 4, 4)\<rparr>, [((1, 2, 3), (9, 9, 9, 255))])]\<rparr> = [((1, 2, 3), (9, 9, 9, 255))]"
    by (simp add: visitedPoints_def)
  have q: "list_all (pointQuantizable (0, 0, 0) (1 / 1000, 1 / 1000, 1 / 1000)) [((1, 2, 3), (9, 9, 9, 255))]"
    by (simp add: quantizable_def)
  have rec: "lasRecordOf (0, 0, 0) (1 / 1000, 1 / 1000, 1 / 1000) ((1, 2, 3), (9, 9, 9, 255))
      = ((1000, 2000, 3000), 9, (9, 9, 9))"
    by simp
  note i0 = C4_offset_file_and_export [of
       "\<lparr>pointOffset = (100, 0, 0), transform = None, colorMask = (1, 1, 1), points = []\<rparr>"
       "\<lparr>outputFileType = 0, lasScale = (1 / 1000, 1 / 1000, 1 / 1000), haveBox = True,
        box = ((100, 0, 0), (102, 2, 2))\<rparr>"
       "\<lparr>lpoOffset = (100, 0, 0), domainCenter = (0, 0, 0),
        leaves = [(\<lparr>boxMin = (0, 0, 0), boxMax = (4, 4, 4)\<rparr>, [((1, 2, 3), (9, 9, 9, 255))]),
                  (\<lparr>boxMin = (4, 0, 0), boxMax = (8, 4, 4)\<rparr>, [((5, 2, 3), (9, 9, 9, 255))])]\<rparr>"]
  note i1 = C4_offset_file_and_export [of
       "\<lparr>pointOffset = (100, 0, 0), transform = None, colorMask = (1, 1, 1), points = []\<rparr>"
       "\<lparr>outputFileType = 1, lasScale = (1 / 1000, 1 / 1000, 1 / 1000), haveBox = False,
        box = ((0, 0, 0), (0, 0, 0))\<rparr>"
       "\<lparr>lpoOffset = (100, 0, 0), domainCenter = (0, 0, 0),
        leaves = [(\<lparr>boxMin = (0, 0, 0), boxMax = (4, 4, 4)\<rparr>, [((1, 2, 3), (9, 9, 9, 255))])]\<rparr>"]
  note i2 = C4_offset_file_and_export [of
       "\<lparr>pointOffset = (100, 0, 0), transform = None, colorMask = (1, 1, 1), points = []\<rparr>"
       "\<lparr>outputFileType = 2, lasScale = (1 / 1000, 1 / 1000, 1 / 1000), haveBox = False,
        box = ((0, 0, 0), (0, 0, 0))\<rparr>"
       "\<lparr>lpoOffset = (100, 0, 0), domainCenter = (0, 0, 0),
        leaves = [(\<lparr>boxMin = (0, 0, 0), boxMax = (4, 4, 4)\<rparr>, [((1, 2, 3), (9, 9, 9, 255))])]\<rparr>"]
  have a: "writeOffsetFile \<lparr>pointOffset = (100, 0, 0), transform = None, colorMask = (1, 1, 1), points = []\<rparr>
     = Some \<lparr>ofEndianness = LittleEndian, ofComponentSize = 8, ofComponents = [100, 0, 0]\<rparr>"
    using i0 [THEN conjunct1] by (simp add: vzero_def)
  have b: "exporterMain
       \<lparr>outputFileType = 0, lasScale = (1 / 1000, 1 / 1000, 1 / 1000), haveBox = True,
        box = ((100, 0, 0), (102, 2, 2))\<rparr>
       \<lparr>lpoOffset = (100, 0, 0), domainCenter = (0, 0, 0),
        leaves = [(\<lparr>boxMin = (0, 0, 0), boxMax = (4, 4, 4)\<rparr>, [((1, 2, 3), (9, 9, 9, 255))]),
                  (\<lparr>boxMin = (4, 0, 0), boxMax = (8, 4, 4)\<rparr>, [((5, 2, 3), (9, 9, 9, 255))])]\<rparr>
     = AsciiOutput \<lparr>psOffset = (100, 0, 0),
         psLines = [(''%.12g %.12g %.12g %u %u %u'' @ [CHR 0x0A], (101, 2, 3), 9, 9, 9)],
         psNumPoints = 1\<rparr>"
    using i0 [THEN conjunct2, THEN conjunct2, THEN conjunct1] by (simp add: vis0)
  have c: "exporterMain
       \<lparr>outputFileType = 1, lasScale = (1 / 1000, 1 / 1000, 1 / 1000), haveBox = False,
        box = ((0, 0, 0), (0, 0, 0))\<rparr>
       \<lparr>lpoOffset = (100, 0, 0), domainCenter = (0, 0, 0),
        leaves = [(\<lparr>boxMin = (0, 0, 0), boxMax = (4, 4, 4)\<rparr>, [((1, 2, 3), (9, 9, 9, 255))])]\<rparr>
     = BinaryOutput \<lparr>bpsOffset = (100, 0, 0), bpsCount = 1,
         bpsRecords = [((1, 2, 3), (9, 9, 9, 255))], bpsNumPoints = 1\<rparr>"
    using i1 [THEN conjunct2, THEN conjunct2, THEN conjunct2, THEN conjunct1] by (simp add: vis1)
  have d: "\<exists>ps. exporterMain
       \<lparr>outputFileType = 2, lasScale = (1 / 1000, 1 / 1000, 1 / 1000), haveBox = False,
        box = ((0, 0, 0), (0, 0, 0))\<rparr>
       \<lparr>lpoOffset = (100, 0, 0), domainCenter = (0, 0, 0),
        leaves = [(\<lparr>boxMin = (0, 0, 0), boxMax = (4, 4, 4)\<rparr>, [((1, 2, 3), (9, 9, 9, 255))])]\<rparr>
     = LasOutput (Inr ps)
       \<and> lpsHeaderOffset ps = (100, 0, 0)
       \<and> lpsRecords ps = [((1000, 2000, 3000), 9, (9, 9, 9))]"
    using i2 [THEN conjunct2, THEN conjunct2, THEN conjunct2, THEN conjunct2] q rec
    by (simp add: vis2 del: lasRecordOf.simps pointQuantizable.simps) blast
  show ?thesis
    by (intro conjI a b c d)
qed

subsection \<open>Primitive files\<close>

lemma bind_scalar: "bindR readScalar k (ScalarField x # rest) = k x rest"
  by (simp add: bindR_def)

lemma bind_int: "bindR readInt k (IntField i # rest) = k i rest"
  by (simp add: bindR_def)

lemma bind_scalars3: "bindR readScalars3 k (writeScalars3 v @ rest) = k v rest"
  by (cases v) (simp add: readScalars3_def bindR_def returnR_def)

lemma bind_scalars2: "bindR readScalars2 k (writeScalars2 v @ rest) = k v rest"
  by (cases v) (simp add: readScalars2_def bindR_def returnR_def)

lemma bind_ints2: "bindR readInts2 k (writeInts2 v @ rest) = k v rest"
  by (cases v) (simp add: readInts2_def bindR_def returnR_def)

lemma bind_base: "bindR (Primitive_read t) k (Primitive_write b t' @ rest) = k b rest"
  by (cases b) (simp add: Primitive_read_def bindR_def returnR_def)

lemma bind_point:
  "bindR (PointPrimitive_read t) k (PointPrimitive_write b pt t' @ rest) = k (b, vadd (vadd pt t') t) rest"
proof -
  have "PointPrimitive_read t (PointPrimitive_write b pt t' @ rest) = Inr ((b, vadd (vadd pt t') t), rest)"
    by (simp add: PointPrimitive_read_def PointPrimitive_write_def bind_base bind_scalars3 returnR_def)
  then show ?thesis by (simp add: bindR_def)
qed

lemma bind_line:
  "bindR (LinePrimitive_read t) k (LinePrimitive_write b c ax len ext t' @ rest)
     = k (b, vadd (vadd c t') t, ax, len, ext) rest"
proof -
  have "LinePrimitive_read t (LinePrimitive_write b c ax len ext t' @ rest)
     = Inr ((b, vadd (vadd c t') t, ax, len, ext), rest)"
    by (simp add: LinePrimitive_read_def LinePrimitive_write_def bind_base bind_scalars3 bind_scalar
          bind_scalars2 returnR_def)
  then show ?thesis by (simp add: bindR_def)
qed

lemma bind_plane:
  "bindR (PlanePrimitive_read t) k (PlanePrimitive_write b c nrm axes exts nl t' @ rest)
     = k (b, vadd (vadd c t') t, nrm, axes, exts, nl) rest"
proof -
  have "PlanePrimitive_read t (PlanePrimitive_write b c nrm axes exts nl t' @ rest)
     = Inr ((b, vadd (vadd c t') t, nrm, axes, exts, nl), rest)"
    by (simp add: PlanePrimitive_read_def PlanePrimitive_write_def bind_base bind_scalars3
          bind_scalars2 bind_ints2 returnR_def)
  then show ?thesis by (simp add: bindR_def)
qed

lemma read_write_primitive:
  "readPrimitive (typeTag p) t (writePrimitive p t' @ rest)
     = Inr (translatePrimitive t (translatePrimitive t' p), rest)"
proof (cases p)
  case (PointPrimitive b pt)
  then show ?thesis
    by (simp add: readPrimitive_def bind_point returnR_def)
next
  case (SpherePrimitive b pt rad)
  then show ?thesis
    by (simp add: readPrimitive_def SpherePrimitive_read_def SpherePrimitive_write_def
          bind_point bind_scalar returnR_def)
next
  case (LinePrimitive b c ax len ext)
  then show ?thesis
    by (simp add: readPrimitive_def bind_line returnR_def)
next
  case (CylinderPrimitive b c ax len ext rad nl)
  then show ?thesis
    by (simp add: readPrimitive_def CylinderPrimitive_read_def CylinderPrimitive_write_def
          bind_line bind_scalar bind_ints2 returnR_def)
next
  case (PlanePrimitive b c nrm axes exts nl)
  then show ?thesis
    by (simp add: readPrimitive_def bind_plane returnR_def)
next
  case (BruntonPrimitive b c nrm axes exts nl)
  then show ?thesis
    by (simp add: readPrimitive_def bind_plane returnR_def)
qed


lemma loadedStore_Nil: "loadedStore st [] = st"
  by (simp add: loadedStore_def)

lemma loadedStore_Cons:
  "(case addPrimitive q st of (st', i) \<Rightarrow> loadedStore (st'\<lparr>lastPickedPrimitive := i\<rparr>) qs) = loadedStore st (q # qs)"
  by (simp add: addPrimitive_def loadedStore_def Let_def)

lemma loadLoop_saved:
  assumes tail: "\<And>m st'. length tail \<le> m \<Longrightarrow> loadLoop m offs tail st' = Some (F st')"
  shows "length (savePrimitives off ps @ tail) \<le> n \<Longrightarrow>
     loadLoop n offs (savePrimitives off ps @ tail) st = Some (F (loadedStore st (map (reloaded offs off) ps)))"
proof (induction ps arbitrary: n st)
  case Nil
  then show ?case by (simp add: tail loadedStore_Nil)
next
  case (Cons p ps)
  obtain m where n: "n = Suc m" and m: "length (savePrimitives off ps @ tail) \<le> m"
    using Cons.prems by (cases n) simp_all
  have rd: "bindR readInt (\<lambda>primitiveType. readPrimitive primitiveType (vneg offs))
      (IntField (typeTag p) # writePrimitive p off @ savePrimitives off ps @ tail)
      = Inr (reloaded offs off p, savePrimitives off ps @ tail)"
    by (simp add: bind_int read_write_primitive reloaded_def)
  have "loadLoop n offs (savePrimitives off (p # ps) @ tail) st =
      (case addPrimitive (reloaded offs off p) st of
         (st', i) \<Rightarrow> loadLoop m offs (savePrimitives off ps @ tail) (st'\<lparr>lastPickedPrimitive := i\<rparr>))"
    by (simp add: n rd)
  also have "\<dots> = (case addPrimitive (reloaded offs off p) st of
         (st', i) \<Rightarrow> Some (F (loadedStore (st'\<lparr>lastPickedPrimitive := i\<rparr>) (map (reloaded offs off) ps))))"
    by (simp add: Cons.IH [OF m] split: prod.splits)
  also have "\<dots> = Some (F (loadedStore st (map (reloaded offs off) (p # ps))))"
    using loadedStore_Cons [where q = "reloaded offs off p" and st = st and qs = "map (reloaded offs off) ps"]
    by (simp split: prod.splits)
  finally show ?case .
qed

lemma readChars_map: "readChars (length cs) (map CharField cs @ rest) = Inr (cs, rest)"
  by (induction cs) (simp_all add: bindR_def returnR_def)

lemma readChars_length: "readChars n file = Inr (cs, rest) \<Longrightarrow> length cs = n"
proof (induction n arbitrary: "file" cs rest)
  case 0
  then show ?case by (simp add: returnR_def)
next
  case (Suc n)
  then show ?case
    by (auto simp: bindR_def returnR_def split: sum.splits prod.splits)
qed

lemma length_headerBytes: "length headerBytes = 40"
  by (simp add: headerBytes_def headerString_def)

lemma cstring_headerBytes: "cstring headerBytes = headerString"
  by (simp add: cstring_def headerBytes_def headerString_def)

lemma cstring_literal: "cstring (headerString @ [CHR 0x00]) = headerString"
  by (simp add: cstring_def headerString_def)

lemma cstring_header_eq:
  assumes "length hdr = 40"
  shows "cstring hdr = cstring (headerString @ [CHR 0x00]) \<longleftrightarrow> hdr = headerBytes"
proof
  assume "hdr = headerBytes"
  then show "cstring hdr = cstring (headerString @ [CHR 0x00])"
    by (simp add: cstring_headerBytes cstring_literal)
next
  assume eq: "cstring hdr = cstring (headerString @ [CHR 0x00])"
  let ?P = "\<lambda>c. c \<noteq> CHR 0x00"
  have tw: "takeWhile ?P hdr = headerString"
    using eq by (simp add: cstring_literal) (simp add: cstring_def)
  have len: "length headerString = 39" by (simp add: headerString_def)
  have split: "hdr = headerString @ dropWhile ?P hdr"
    using takeWhile_dropWhile_id [of ?P hdr] tw by simp
  have "length hdr = length headerString + length (dropWhile ?P hdr)"
    by (metis split length_append)
  then have "length (dropWhile ?P hdr) = 1"
    using assms len by simp
  then obtain c where c: "dropWhile ?P hdr = [c]"
    by (cases "dropWhile ?P hdr") simp_all
  have "\<not> ?P (hd (dropWhile ?P hdr))"
    using c by (intro hd_dropWhile) auto
  then have "c = CHR 0x00" using c by simp
  then show "hdr = headerBytes"
    using split c by (simp add: headerBytes_def len)
qed


lemma savePrimitives_concat:
  "savePrimitives offsets prims = concat (map (\<lambda>p. IntField (typeTag p) # writePrimitive p offsets) prims)"
  by (induction prims) simp_all

lemma typeTag_range: "typeTag p \<in> {0, 1, 2, 3, 4, 5}"
  by (cases p) simp_all

lemma readPrimitive_unknown:
  "primitiveType \<notin> {0, 1, 2, 3, 4, 5} \<Longrightarrow>
     readPrimitive primitiveType t rest = Inl (UnknownPrimitiveType primitiveType)"
  by (simp add: readPrimitive_def)

lemma load_header_ok:
  "loadPrimitivesOKCallback offsets (map CharField headerBytes @ rest) st = loadLoop (length rest) offsets rest st"
proof -
  have "readChars 40 (map CharField headerBytes @ rest) = Inr (headerBytes, rest)"
    using readChars_map [of headerBytes rest] by (simp add: length_headerBytes)
  then show ?thesis
    by (simp add: loadPrimitivesOKCallback_def cstring_headerBytes cstring_literal)
qed

lemma load_saved:
  "loadPrimitivesOKCallback offsets (savePrimitivesOKCallback offsets' prims) st
     = Some (loadedStore st (map (reloaded offsets offsets') prims), None)"
proof -
  have "loadLoop (length (savePrimitives offsets' prims)) offsets (savePrimitives offsets' prims @ []) st
      = Some (loadedStore st (map (reloaded offsets offsets') prims), None)"
    by (rule loadLoop_saved) simp_all
  then show ?thesis
    using load_header_ok [of offsets "savePrimitives offsets' prims" st]
    by (simp add: savePrimitivesOKCallback_def)
qed

lemma load_saved_unknown:
  assumes "primitiveType \<notin> {0, 1, 2, 3, 4, 5}"
  shows "loadPrimitivesOKCallback offsets (savePrimitivesOKCallback offsets' prims @ IntField primitiveType # rest) st
     = Some (loadedStore st (map (reloaded offsets offsets') prims), Some (UnknownPrimitiveType primitiveType))"
proof -
  let ?tail = "IntField primitiveType # rest"
  have tail: "\<And>m st'. length ?tail \<le> m \<Longrightarrow>
      loadLoop m offsets ?tail st' = Some (st', Some (UnknownPrimitiveType primitiveType))"
  proof -
    fix m :: nat and st' assume "length ?tail \<le> m"
    then obtain k where "m = Suc k" by (cases m) simp_all
    then show "loadLoop m offsets ?tail st' = Some (st', Some (UnknownPrimitiveType primitiveType))"
      by (simp add: bind_int readPrimitive_unknown [OF assms])
  qed
  have "loadLoop (length (savePrimitives offsets' prims @ ?tail)) offsets (savePrimitives offsets' prims @ ?tail) st
      = Some (loadedStore st (map (reloaded offsets offsets') prims), Some (UnknownPrimitiveType primitiveType))"
    by (rule loadLoop_saved [where F = "\<lambda>st'. (st', Some (UnknownPrimitiveType primitiveType))"])
       (simp_all add: tail del: loadLoop.simps)
  then show ?thesis
    using load_header_ok [of offsets "savePrimitives offsets' prims @ ?tail" st]
    by (simp add: savePrimitivesOKCallback_def)
qed

lemma load_bad_header:
  assumes "readChars 40 file = Inr (hdr, rest)" and "hdr \<noteq> headerBytes"
  shows "loadPrimitivesOKCallback offsets file st = Some (st, Some NotValidHeader)"
proof -
  have "length hdr = 40" using readChars_length [OF assms(1)] .
  then have "cstring hdr \<noteq> cstring (headerString @ [CHR 0x00])"
    using cstring_header_eq [of hdr] assms(2) by simp
  then show ?thesis
    using assms(1) by (simp add: loadPrimitivesOKCallback_def)
qed

lemma vadd_vneg_cancel: "vadd (vadd c t) (vneg t) = c"
  by (cases c; cases t) simp

lemma reloaded_same: "reloaded offsets offsets p = p"
  by (cases p) (simp_all add: reloaded_def vadd_vneg_cancel)

lemma vadd_vzero: "vadd c vzero = c"
  by (cases c) (simp add: vzero_def)

text \<open>
  C7. A saved primitive file is the 40 bytes of the version 1.3 header (the header
  string and its terminating NUL) followed by one record per primitive: the type tag as
  a 32-bit integer (0 point, 1 sphere, 2 line, 3 cylinder, 4 plane, 5 Brunton) and then
  the primitive's fields. Loading reports the error "not a valid version 1.3 primitive
  file" when the 40 bytes read differ from that header, and the error "unknown primitive
  type" when a record starts with a tag other than 0 to 5, keeping the primitives of the
  records before it. Loading a saved file reports no error and stores one primitive per
  record, of the type the record's tag names, up to the end of the file.
\<close>

theorem C7_primitive_file_format:
  "length headerBytes = 40
   \<and> savePrimitivesOKCallback offsets prims =
       map CharField headerBytes @ concat (map (\<lambda>p. IntField (typeTag p) # writePrimitive p offsets) prims)
   \<and> typeTag p \<in> {0, 1, 2, 3, 4, 5}
   \<and> (readChars 40 primitiveFile = Inr (hdr, rest) \<and> hdr \<noteq> headerBytes \<longrightarrow>
        loadPrimitivesOKCallback offsets primitiveFile st = Some (st, Some NotValidHeader))
   \<and> (primitiveType \<notin> {0, 1, 2, 3, 4, 5} \<longrightarrow>
        loadPrimitivesOKCallback offsets
            (savePrimitivesOKCallback offsets' prims @ IntField primitiveType # rest') st
          = Some (loadedStore st (map (reloaded offsets offsets') prims),
                  Some (UnknownPrimitiveType primitiveType)))
   \<and> loadPrimitivesOKCallback offsets (savePrimitivesOKCallback offsets' prims) st
       = Some (loadedStore st (map (reloaded offsets offsets') prims), None)
   \<and> map typeTag (map (reloaded offsets offsets') prims) = map typeTag prims"
proof -
  have tags: "map typeTag (map (reloaded offsets offsets') prims) = map typeTag prims"
  proof -
    have "\<And>q. typeTag (reloaded offsets offsets' q) = typeTag q"
    proof -
      fix q show "typeTag (reloaded offsets offsets' q) = typeTag q"
        by (cases q) (simp_all add: reloaded_def)
    qed
    then show ?thesis by simp
  qed
  show ?thesis
    using length_headerBytes savePrimitives_concat [of offsets prims] typeTag_range [of p]
      load_bad_header [of primitiveFile hdr rest offsets st]
      load_saved_unknown [of primitiveType offsets offsets' prims rest' st]
      load_saved [of offsets offsets' prims st] tags
    by (simp add: savePrimitivesOKCallback_def del: insert_iff)
qed

text \<open>
  C8. Writing a primitive with the offset vector as translation stores the fields of
  the primitive moved by the offsets, that is, absolute coordinates. Loading applies the
  negated offsets: the characteristic point of a reloaded primitive is
  (p + offsets) + (-offsets), which in exact arithmetic is p. So saving the primitive
  list and loading the file appends to the store exactly the saved primitives, with
  every field the file keeps unchanged.
\<close>

theorem C8_save_load_round_trip:
  "writePrimitive p offsets = writePrimitive (translatePrimitive offsets p) vzero
   \<and> characteristicPoint (reloaded offsets offsets p)
       = vadd (vadd (characteristicPoint p) offsets) (vneg offsets)
   \<and> reloaded offsets offsets p = p
   \<and> loadPrimitivesOKCallback offsets (savePrimitivesOKCallback offsets prims) st
       = Some (loadedStore st prims, None)"
proof -
  have b: "\<And>d t t'. Primitive_write d t = Primitive_write d t'"
  proof -
    fix d t t' show "Primitive_write d t = Primitive_write d t'" by (cases d) simp
  qed
  have w: "writePrimitive p offsets = writePrimitive (translatePrimitive offsets p) vzero"
    by (cases p)
       (simp_all add: PointPrimitive_write_def SpherePrimitive_write_def LinePrimitive_write_def
          CylinderPrimitive_write_def PlanePrimitive_write_def vadd_vzero b [of _ offsets vzero])
  have c: "characteristicPoint (reloaded offsets offsets p)
       = vadd (vadd (characteristicPoint p) offsets) (vneg offsets)"
    by (cases p) (simp_all add: reloaded_def)
  have "map (reloaded offsets offsets) prims = prims"
    by (induction prims) (simp_all add: reloaded_same)
  then have l: "loadPrimitivesOKCallback offsets (savePrimitivesOKCallback offsets prims) st
       = Some (loadedStore st prims, None)"
    using load_saved [of offsets offsets prims st] by simp
  show ?thesis using w c reloaded_same l by simp
qed


theorem C7_primitive_file_format_witness:
  "loadPrimitivesOKCallback (10, 20, 30) (map CharField (replicate 40 (CHR ''x''))) \<lparr>primitives = [], primitiveSelectedFlags = [], lastPickedPrimitive = - 1\<rparr>
     = Some (\<lparr>primitives = [], primitiveSelectedFlags = [], lastPickedPrimitive = - 1\<rparr>, Some NotValidHeader)
   \<and> loadPrimitivesOKCallback (10, 20, 30)
       (savePrimitivesOKCallback (10, 20, 30)
          [SpherePrimitive (3, 1 / 2, ''s'') (1, 2, 3) 4,
      PlanePrimitive (5, 0, ''p'') (0, 0, 1) (0, 0, 1) ((1, 0, 0), (0, 1, 0)) ((- 1, 1), (- 1, 1)) (10, 10)] @ [IntField 7]) \<lparr>primitives = [], primitiveSelectedFlags = [], lastPickedPrimitive = - 1\<rparr>
     = Some (\<lparr>primitives = [SpherePrimitive (3, 1 / 2, ''s'') (1, 2, 3) 4,
      PlanePrimitive (5, 0, ''p'') (0, 0, 1) (0, 0, 1) ((1, 0, 0), (0, 1, 0)) ((- 1, 1), (- 1, 1)) (10, 10)],
            primitiveSelectedFlags = [False, False], lastPickedPrimitive = 1\<rparr>, Some (UnknownPrimitiveType 7))
   \<and> loadPrimitivesOKCallback (10, 20, 30)
       (savePrimitivesOKCallback (10, 20, 30)
          [SpherePrimitive (3, 1 / 2, ''s'') (1, 2, 3) 4,
      PlanePrimitive (5, 0, ''p'') (0, 0, 1) (0, 0, 1) ((1, 0, 0), (0, 1, 0)) ((- 1, 1), (- 1, 1)) (10, 10)]) \<lparr>primitives = [], primitiveSelectedFlags = [], lastPickedPrimitive = - 1\<rparr>
     = Some (\<lparr>primitives = [SpherePrimitive (3, 1 / 2, ''s'') (1, 2, 3) 4,
      PlanePrimitive (5, 0, ''p'') (0, 0, 1) (0, 0, 1) ((1, 0, 0), (0, 1, 0)) ((- 1, 1), (- 1, 1)) (10, 10)],
            primitiveSelectedFlags = [False, False], lastPickedPrimitive = 1\<rparr>, None)"
proof -
  have h: "readChars 40 (map CharField (replicate 40 (CHR ''x''))) = Inr (replicate 40 (CHR ''x''), [])
      \<and> replicate 40 (CHR ''x'') \<noteq> headerBytes"
    by code_simp
  have t: "(7 :: 32 word) \<notin> {0, 1, 2, 3, 4, 5}"
    by simp
  note fmt = C7_primitive_file_format [where offsets = "(10, 20, 30)" and offsets' = "(10, 20, 30)"
        and prims = "[SpherePrimitive (3, 1 / 2, ''s'') (1, 2, 3) 4,
      PlanePrimitive (5, 0, ''p'') (0, 0, 1) (0, 0, 1) ((1, 0, 0), (0, 1, 0)) ((- 1, 1), (- 1, 1)) (10, 10)]"
        and st = "\<lparr>primitives = [], primitiveSelectedFlags = [], lastPickedPrimitive = - 1\<rparr>"
        and hdr = "replicate 40 (CHR ''x'')" and rest = "[]" and rest' = "[]" and primitiveType = 7
        and primitiveFile = "map CharField (replicate 40 (CHR ''x''))"
        and p = "PointPrimitive (0, 0, []) (0, 0, 0)"]
  have A: "loadPrimitivesOKCallback (10, 20, 30) (map CharField (replicate 40 (CHR ''x''))) \<lparr>primitives = [], primitiveSelectedFlags = [], lastPickedPrimitive = - 1\<rparr>
     = Some (\<lparr>primitives = [], primitiveSelectedFlags = [], lastPickedPrimitive = - 1\<rparr>, Some NotValidHeader)"
    using fmt h by blast
  have B: "loadPrimitivesOKCallback (10, 20, 30)
       (savePrimitivesOKCallback (10, 20, 30)
          [SpherePrimitive (3, 1 / 2, ''s'') (1, 2, 3) 4,
      PlanePrimitive (5, 0, ''p'') (0, 0, 1) (0, 0, 1) ((1, 0, 0), (0, 1, 0)) ((- 1, 1), (- 1, 1)) (10, 10)] @ [IntField 7]) \<lparr>primitives = [], primitiveSelectedFlags = [], lastPickedPrimitive = - 1\<rparr>
     = Some (loadedStore \<lparr>primitives = [], primitiveSelectedFlags = [], lastPickedPrimitive = - 1\<rparr> (map (reloaded (10, 20, 30) (10, 20, 30)) [SpherePrimitive (3, 1 / 2, ''s'') (1, 2, 3) 4,
      PlanePrimitive (5, 0, ''p'') (0, 0, 1) (0, 0, 1) ((1, 0, 0), (0, 1, 0)) ((- 1, 1), (- 1, 1)) (10, 10)]), Some (UnknownPrimitiveType 7))"
    using fmt t by blast
  have C: "loadPrimitivesOKCallback (10, 20, 30)
       (savePrimitivesOKCallback (10, 20, 30)
          [SpherePrimitive (3, 1 / 2, ''s'') (1, 2, 3) 4,
      PlanePrimitive (5, 0, ''p'') (0, 0, 1) (0, 0, 1) ((1, 0, 0), (0, 1, 0)) ((- 1, 1), (- 1, 1)) (10, 10)]) \<lparr>primitives = [], primitiveSelectedFlags = [], lastPickedPrimitive = - 1\<rparr>
     = Some (loadedStore \<lparr>primitives = [], primitiveSelectedFlags = [], lastPickedPrimitive = - 1\<rparr> (map (reloaded (10, 20, 30) (10, 20, 30)) [SpherePrimitive (3, 1 / 2, ''s'') (1, 2, 3) 4,
      PlanePrimitive (5, 0, ''p'') (0, 0, 1) (0, 0, 1) ((1, 0, 0), (0, 1, 0)) ((- 1, 1), (- 1, 1)) (10, 10)]), None)"
    using fmt by blast
  show ?thesis
    unfolding A B C by (simp add: loadedStore_def reloaded_def)
qed

theorem C8_save_load_round_trip_witness:
  "loadPrimitivesOKCallback (10, 20, 30)
       (savePrimitivesOKCallback (10, 20, 30)
          [SpherePrimitive (3, 1 / 2, ''s'') (1, 2, 3) 4,
      PlanePrimitive (5, 0, ''p'') (0, 0, 1) (0, 0, 1) ((1, 0, 0), (0, 1, 0)) ((- 1, 1), (- 1, 1)) (10, 10)]) \<lparr>primitives = [], primitiveSelectedFlags = [], lastPickedPrimitive = - 1\<rparr>
     = Some (\<lparr>primitives = [SpherePrimitive (3, 1 / 2, ''s'') (1, 2, 3) 4,
      PlanePrimitive (5, 0, ''p'') (0, 0, 1) (0, 0, 1) ((1, 0, 0), (0, 1, 0)) ((- 1, 1), (- 1, 1)) (10, 10)],
            primitiveSelectedFlags = [False, False], lastPickedPrimitive = 1\<rparr>, None)"
  using C8_save_load_round_trip [where offsets = "(10, 20, 30)"
        and prims = "[SpherePrimitive (3, 1 / 2, ''s'') (1, 2, 3) 4,
      PlanePrimitive (5, 0, ''p'') (0, 0, 1) (0, 0, 1) ((1, 0, 0), (0, 1, 0)) ((- 1, 1), (- 1, 1)) (10, 10)]"
        and st = "\<lparr>primitives = [], primitiveSelectedFlags = [], lastPickedPrimitive = - 1\<rparr>"]
  by (simp add: loadedStore_def)

subsection \<open>The subsampling threads of the normal calculator\<close>

lemma range_cover:
  fixes T n i :: nat
  assumes "0 < T" and "i < n"
  shows "\<exists>t<T. (t * n) div T \<le> i \<and> i < ((t + 1) * n) div T"
proof -
  define f where "f t = (t * n) div T" for t
  have fT: "f T = n" using assms(1) by (simp add: f_def)
  have ex: "\<exists>t. i < f (Suc t)"
  proof (cases T)
    case 0
    then show ?thesis using assms(1) by simp
  next
    case (Suc k)
    then have "i < f (Suc k)" using fT assms(2) by simp
    then show ?thesis by blast
  qed
  define t where "t = (LEAST t. i < f (Suc t))"
  have t1: "i < f (Suc t)" unfolding t_def using ex by (rule LeastI_ex)
  have t2: "f t \<le> i"
  proof (cases t)
    case 0
    then show ?thesis by (simp add: f_def)
  next
    case (Suc k)
    have "\<not> i < f (Suc k)"
    proof
      assume "i < f (Suc k)"
      then have "t \<le> k" unfolding t_def by (rule Least_le)
      then show False using Suc by simp
    qed
    then show ?thesis using Suc by simp
  qed
  have "t < T"
  proof (rule ccontr)
    assume "\<not> t < T"
    then have "T \<le> t" by simp
    then have "T * n \<le> t * n" by simp
    then have "f T \<le> f t" unfolding f_def by (rule div_le_mono)
    then show False using fT t2 assms(2) by simp
  qed
  then show ?thesis using t1 t2 by (auto simp: f_def)
qed

lemma unat_firstI:
  assumes "unat nThreads * unat numPts < 2 ^ 32" and "threadIndex < nThreads"
  shows "unat (firstI threadIndex numPts nThreads) = (unat threadIndex * unat numPts) div unat nThreads"
proof -
  have bound: "unat nThreads * unat numPts < 2 ^ LENGTH(32)"
    using assms(1) by simp
  have "unat threadIndex \<le> unat nThreads"
    using assms(2) by (simp add: word_less_nat_alt)
  then have "unat threadIndex * unat numPts \<le> unat nThreads * unat numPts"
    by (rule mult_le_mono1)
  then have "unat threadIndex * unat numPts < 2 ^ LENGTH(32)"
    using bound by (rule le_less_trans)
  then have "unat (threadIndex * numPts) = unat threadIndex * unat numPts"
    by (rule unat_mult_lem [THEN iffD1])
  then show ?thesis
    by (simp add: firstI_def unat_div)
qed

lemma unat_lastI:
  assumes "unat nThreads * unat numPts < 2 ^ 32" and "threadIndex < nThreads"
  shows "unat (lastI threadIndex numPts nThreads) = ((unat threadIndex + 1) * unat numPts) div unat nThreads"
proof -
  have bound: "unat nThreads * unat numPts < 2 ^ LENGTH(32)"
    using assms(1) by simp
  have lt: "unat threadIndex < unat nThreads"
    using assms(2) by (simp add: word_less_nat_alt)
  have "unat nThreads < 2 ^ LENGTH(32)"
    by (rule unsigned_less)
  then have "unat threadIndex + unat (1 :: 32 word) < 2 ^ LENGTH(32)"
    using lt by simp
  then have "unat (threadIndex + 1) = unat threadIndex + unat (1 :: 32 word)"
    by (rule unat_add_lem [THEN iffD1])
  then have s: "unat (threadIndex + 1) = unat threadIndex + 1"
    by simp
  have "unat threadIndex + 1 \<le> unat nThreads"
    using lt by simp
  then have "(unat threadIndex + 1) * unat numPts \<le> unat nThreads * unat numPts"
    by (rule mult_le_mono1)
  then have "(unat threadIndex + 1) * unat numPts < 2 ^ LENGTH(32)"
    using bound by (rule le_less_trans)
  then have "unat (threadIndex + 1) * unat numPts < 2 ^ LENGTH(32)"
    unfolding s .
  then have "unat ((threadIndex + 1) * numPts) = unat (threadIndex + 1) * unat numPts"
    by (rule unat_mult_lem [THEN iffD1])
  then show ?thesis
    by (simp add: lastI_def unat_div s)
qed


lemma fold_FindPoint_None:
  "fold (FindPoint_call q) (List.enumerate n pts) acc = None \<longleftrightarrow>
     acc = None \<and> (\<forall>lp\<in>set pts. sqrDist (fst lp) q \<noteq> 0)"
  by (induction pts arbitrary: n acc) auto

lemma fold_FindPoint_Some:
  "fold (FindPoint_call q) (List.enumerate n pts) acc = Some j \<Longrightarrow>
     acc = Some j \<or> (n \<le> j \<and> j < n + length pts \<and> sqrDist (fst (pts ! (j - n))) q = 0)"
proof (induction pts arbitrary: n acc)
  case Nil
  then show ?case by simp
next
  case (Cons lp pts)
  let ?acc = "FindPoint_call q (n, lp) acc"
  have "fold (FindPoint_call q) (List.enumerate (Suc n) pts) ?acc = Some j"
    using Cons.prems by simp
  from Cons.IH [OF this]
  consider "?acc = Some j" | "Suc n \<le> j" "j < Suc n + length pts" "sqrDist (fst (pts ! (j - Suc n))) q = 0"
    by blast
  then show ?case
  proof cases
    case 1
    then show ?thesis by (auto split: if_splits)
  next
    case 2
    then have "(lp # pts) ! (j - n) = pts ! (j - Suc n)"
      by (simp add: nth_Cons')
    then show ?thesis using 2 by simp
  qed
qed

lemma findAncestor_None: "findAncestor child q = None \<longleftrightarrow> \<not> hasExactMatch child q"
  by (simp add: findAncestor_def processNodePointsDirected_def fold_FindPoint_None hasExactMatch_def
        list_ex_iff)

lemma findAncestor_Some:
  "findAncestor child q = Some j \<Longrightarrow>
     j < length (pointArray child) \<and> sqrDist (fst (pointArray child ! j)) q = 0"
  using fold_FindPoint_Some [of q 0 "pointArray child" None j]
  by (simp add: findAncestor_def processNodePointsDirected_def)

lemma subsamplePoint_Inl:
  "subsamplePoint node cs cn i = Inl e \<longleftrightarrow>
     \<not> hasExactMatch (pointChildOf node cs i) (nodePoint node i) \<and> e = corruptedAt (nodePoint node i)"
  by (auto simp: subsamplePoint_def Let_def pointChildOf_def nodePoint_def findAncestor_None [symmetric]
        split: option.splits)

lemma subsamplePoint_Inr:
  "subsamplePoint node cs cn i = Inr n \<Longrightarrow>
     \<exists>j<length (pointArray (pointChildOf node cs i)).
        sqrDist (fst (pointArray (pointChildOf node cs i) ! j)) (nodePoint node i) = 0
        \<and> n = subsampledNormal node cs cn i j"
  using findAncestor_Some [of "pointChildOf node cs i" "nodePoint node i"]
  by (auto simp: subsamplePoint_def Let_def pointChildOf_def nodePoint_def split: option.splits)

lemma subsampleLoop_Inl:
  "subsampleLoop node cs cn is buf = Inl e \<Longrightarrow> \<exists>i\<in>set is. subsamplePoint node cs cn i = Inl e"
  by (induction "is" arbitrary: buf) (auto split: sum.splits)

lemma subsampleLoop_fail:
  "i \<in> set is \<Longrightarrow> subsamplePoint node cs cn i = Inl e \<Longrightarrow> \<exists>e'. subsampleLoop node cs cn is buf = Inl e'"
  by (induction "is" arbitrary: buf) (auto split: sum.splits)

lemma subsampleLoop_Inr:
  "subsampleLoop node cs cn is buf = Inr buf' \<Longrightarrow> distinct is \<Longrightarrow>
     length buf' = length buf \<and>
     (\<forall>i\<in>set is. i < length buf \<longrightarrow> subsamplePoint node cs cn i = Inr (buf' ! i)) \<and>
     (\<forall>k. k \<notin> set is \<longrightarrow> buf' ! k = buf ! k)"
proof (induction "is" arbitrary: buf)
  case Nil
  then show ?case by simp
next
  case (Cons i "is")
  obtain n where n: "subsamplePoint node cs cn i = Inr n"
    and run: "subsampleLoop node cs cn is (buf[i := n]) = Inr buf'"
    using Cons.prems(1) by (auto split: sum.splits)
  have d: "distinct is" "i \<notin> set is" using Cons.prems(2) by simp_all
  have ih: "length buf' = length (buf[i := n])"
    "\<forall>k\<in>set is. k < length (buf[i := n]) \<longrightarrow> subsamplePoint node cs cn k = Inr (buf' ! k)"
    "\<forall>k. k \<notin> set is \<longrightarrow> buf' ! k = buf[i := n] ! k"
    using Cons.IH [OF run d(1)] by simp_all
  have "i < length buf \<longrightarrow> buf' ! i = n"
    using ih(3) d(2) by simp
  then show ?case
    using ih n d(2) by (auto simp: nth_list_update)
qed

lemma findChild_contains:
  "cubeContains c p \<Longrightarrow> findChild c p < 8 \<and> cubeContains (childCube c (findChild c p)) p"
  by (cases p; cases "cubeCenter c") (auto simp: childCube_def)


text \<open>
  C1. In the subsampling phase at an interior node (with at least one thread, and the
  product of thread count and point count below 2^32, so that the index arithmetic does
  not wrap around), the threads' index ranges cover every point stored at the node and
  stay within the point array. For each point of its range a thread searches the
  child selected by \<open>findChild\<close> for the point's position, which is the child whose cube
  contains the point when the node's cube does, for a point at squared distance exactly
  zero. If some point of the range has no such match in its child, the thread raises the
  corruption error, and an error it raises carries the coordinates of a point of the
  range without a match. If the thread finishes its range, the value stored for every
  point was computed from the normal of a child point at squared distance zero: no
  other point is ever taken as the ancestor.
\<close>

theorem C1_subsample_exact_ancestor:
  assumes "0 < nThreads" and "unat nThreads * length (pointArray currentNode) < 2 ^ 32"
  shows "(\<forall>i<length (pointArray currentNode).
            \<exists>threadIndex<nThreads. i \<in> threadRange threadIndex nThreads currentNode)
   \<and> (\<forall>threadIndex<nThreads. \<forall>i\<in>threadRange threadIndex nThreads currentNode.
          i < length (pointArray currentNode))
   \<and> (\<forall>e. subsampleThreadMethod threadIndex nThreads currentNode currentChildren childBuffers
              nBuffer = Inl e \<longrightarrow>
          (\<exists>i\<in>threadRange threadIndex nThreads currentNode.
             \<not> hasExactMatch (pointChildOf currentNode currentChildren i) (nodePoint currentNode i)
             \<and> e = corruptedAt (nodePoint currentNode i)))
   \<and> ((\<exists>i\<in>threadRange threadIndex nThreads currentNode.
           \<not> hasExactMatch (pointChildOf currentNode currentChildren i) (nodePoint currentNode i)) \<longrightarrow>
        (\<exists>e. subsampleThreadMethod threadIndex nThreads currentNode currentChildren childBuffers
               nBuffer = Inl e))
   \<and> (\<forall>buf'. subsampleThreadMethod threadIndex nThreads currentNode currentChildren childBuffers
                nBuffer = Inr buf' \<longrightarrow>
          (\<forall>i\<in>threadRange threadIndex nThreads currentNode. i < length nBuffer \<longrightarrow>
             (\<exists>j<length (pointArray (pointChildOf currentNode currentChildren i)).
                sqrDist (fst (pointArray (pointChildOf currentNode currentChildren i) ! j))
                  (nodePoint currentNode i) = 0
                \<and> buf' ! i = subsampledNormal currentNode currentChildren childBuffers i j)))
   \<and> (cubeContains (domain currentNode) p \<longrightarrow>
        findChild (domain currentNode) p < 8
        \<and> cubeContains (childCube (domain currentNode) (findChild (domain currentNode) p)) p)"
proof -
  let ?n = "length (pointArray currentNode)"
  let ?T = "unat nThreads"
  have T: "0 < ?T" using assms(1) by (simp add: word_less_nat_alt)
  have b32: "?T * ?n < 2 ^ LENGTH(32)" using assms(2) by simp
  have "?n \<le> ?T * ?n" using T by simp
  then have n32: "?n < 2 ^ LENGTH(32)" using b32 by (rule le_less_trans)
  have un: "unat (getNumPoints currentNode) = ?n"
    unfolding getNumPoints_def using n32 by (simp add: unat_of_nat)
  have bound: "unat nThreads * unat (getNumPoints currentNode) < 2 ^ 32"
    using assms(2) by (simp add: un)
  have rng: "\<And>t. t < nThreads \<Longrightarrow>
      threadRange t nThreads currentNode = {(unat t * ?n) div ?T ..< ((unat t + 1) * ?n) div ?T}"
    by (simp add: threadRange_def unat_firstI [OF bound] unat_lastI [OF bound] un)
  have cover: "\<forall>i<?n. \<exists>threadIndex<nThreads. i \<in> threadRange threadIndex nThreads currentNode"
  proof (intro allI impI)
    fix i assume "i < ?n"
    from range_cover [OF T this] obtain t where t: "t < ?T" "(t * ?n) div ?T \<le> i" "i < ((t + 1) * ?n) div ?T"
      by blast
    have "?T < 2 ^ LENGTH(32)" by (rule unsigned_less)
    then have "t < 2 ^ LENGTH(32)" using t(1) by simp
    then have ut: "unat (of_nat t :: 32 word) = t" by (simp add: unat_of_nat)
    then have lt: "(of_nat t :: 32 word) < nThreads" using t(1) by (simp add: word_less_nat_alt)
    have "i \<in> threadRange (of_nat t) nThreads currentNode"
      using t(2,3) by (simp add: rng [OF lt] ut)
    then show "\<exists>threadIndex<nThreads. i \<in> threadRange threadIndex nThreads currentNode"
      using lt by blast
  qed
  have inside: "\<forall>threadIndex<nThreads. \<forall>i\<in>threadRange threadIndex nThreads currentNode. i < ?n"
  proof (intro allI impI ballI)
    fix t i assume t: "t < nThreads" and i: "i \<in> threadRange t nThreads currentNode"
    have "unat t + 1 \<le> ?T" using t by (simp add: word_less_nat_alt)
    then have "(unat t + 1) * ?n \<le> ?T * ?n" by (rule mult_le_mono1)
    then have "((unat t + 1) * ?n) div ?T \<le> (?T * ?n) div ?T" by (rule div_le_mono)
    then have "((unat t + 1) * ?n) div ?T \<le> ?n" using T by simp
    then show "i < ?n" using i by (simp add: rng [OF t])
  qed
  let ?is = "[unat (firstI threadIndex (getNumPoints currentNode) nThreads)
          ..< unat (lastI threadIndex (getNumPoints currentNode) nThreads)]"
  have set_is: "set ?is = threadRange threadIndex nThreads currentNode"
    by (simp add: threadRange_def)
  have err: "\<forall>e. subsampleThreadMethod threadIndex nThreads currentNode currentChildren childBuffers
              nBuffer = Inl e \<longrightarrow>
          (\<exists>i\<in>threadRange threadIndex nThreads currentNode.
             \<not> hasExactMatch (pointChildOf currentNode currentChildren i) (nodePoint currentNode i)
             \<and> e = corruptedAt (nodePoint currentNode i))"
  proof (intro allI impI)
    fix e
    assume "subsampleThreadMethod threadIndex nThreads currentNode currentChildren childBuffers
              nBuffer = Inl e"
    then have "subsampleLoop currentNode currentChildren childBuffers ?is nBuffer = Inl e"
      by (simp add: subsampleThreadMethod_def)
    from subsampleLoop_Inl [OF this] obtain i where i: "i \<in> set ?is"
      and si: "subsamplePoint currentNode currentChildren childBuffers i = Inl e"
      by blast
    have "\<not> hasExactMatch (pointChildOf currentNode currentChildren i) (nodePoint currentNode i)
             \<and> e = corruptedAt (nodePoint currentNode i)"
      by (rule subsamplePoint_Inl [THEN iffD1, OF si])
    moreover have "i \<in> threadRange threadIndex nThreads currentNode"
      using i by (simp only: set_is)
    ultimately show "\<exists>i\<in>threadRange threadIndex nThreads currentNode.
             \<not> hasExactMatch (pointChildOf currentNode currentChildren i) (nodePoint currentNode i)
             \<and> e = corruptedAt (nodePoint currentNode i)"
      by (rule_tac x = i in bexI)
  qed
  have fail: "(\<exists>i\<in>threadRange threadIndex nThreads currentNode.
           \<not> hasExactMatch (pointChildOf currentNode currentChildren i) (nodePoint currentNode i)) \<longrightarrow>
        (\<exists>e. subsampleThreadMethod threadIndex nThreads currentNode currentChildren childBuffers
               nBuffer = Inl e)"
  proof (intro impI)
    assume "\<exists>i\<in>threadRange threadIndex nThreads currentNode.
           \<not> hasExactMatch (pointChildOf currentNode currentChildren i) (nodePoint currentNode i)"
    then obtain i where i: "i \<in> set ?is"
      and nm: "\<not> hasExactMatch (pointChildOf currentNode currentChildren i) (nodePoint currentNode i)"
      unfolding set_is by blast
    have "subsamplePoint currentNode currentChildren childBuffers i = Inl (corruptedAt (nodePoint currentNode i))"
      by (rule subsamplePoint_Inl [THEN iffD2]) (simp add: nm)
    from subsampleLoop_fail [OF i this]
    show "\<exists>e. subsampleThreadMethod threadIndex nThreads currentNode currentChildren childBuffers
               nBuffer = Inl e"
      by (simp only: subsampleThreadMethod_def)
  qed
  have ok: "\<forall>buf'. subsampleThreadMethod threadIndex nThreads currentNode currentChildren childBuffers
                nBuffer = Inr buf' \<longrightarrow>
          (\<forall>i\<in>threadRange threadIndex nThreads currentNode. i < length nBuffer \<longrightarrow>
             (\<exists>j<length (pointArray (pointChildOf currentNode currentChildren i)).
                sqrDist (fst (pointArray (pointChildOf currentNode currentChildren i) ! j))
                  (nodePoint currentNode i) = 0
                \<and> buf' ! i = subsampledNormal currentNode currentChildren childBuffers i j))"
  proof (intro allI impI ballI)
    fix buf' i
    assume run: "subsampleThreadMethod threadIndex nThreads currentNode currentChildren childBuffers
                nBuffer = Inr buf'"
      and i: "i \<in> threadRange threadIndex nThreads currentNode" and len: "i < length nBuffer"
    have "subsampleLoop currentNode currentChildren childBuffers ?is nBuffer = Inr buf'"
      using run by (simp add: subsampleThreadMethod_def)
    from subsampleLoop_Inr [OF this]
    have "\<forall>i\<in>set ?is. i < length nBuffer \<longrightarrow>
        subsamplePoint currentNode currentChildren childBuffers i = Inr (buf' ! i)"
      by simp
    moreover have "i \<in> set ?is" using i by (simp only: set_is)
    ultimately have "subsamplePoint currentNode currentChildren childBuffers i = Inr (buf' ! i)"
      using len by blast
    from subsamplePoint_Inr [OF this]
    show "\<exists>j<length (pointArray (pointChildOf currentNode currentChildren i)).
                sqrDist (fst (pointArray (pointChildOf currentNode currentChildren i) ! j))
                  (nodePoint currentNode i) = 0
                \<and> buf' ! i = subsampledNormal currentNode currentChildren childBuffers i j" .
  qed
  have geo: "cubeContains (domain currentNode) p \<longrightarrow>
        findChild (domain currentNode) p < 8
        \<and> cubeContains (childCube (domain currentNode) (findChild (domain currentNode) p)) p"
    using findChild_contains [of "domain currentNode" p] by (rule impI)
  show ?thesis
    by (intro conjI cover inside err fail ok geo)
qed



theorem C1_subsample_exact_ancestor_witness:
  "subsampleThreadMethod 1 2
     \<lparr>domain = \<lparr>cubeCenter = (0, 0, 0), cubeRadius = 4\<rparr>, nodeDetailSize = 1, dataOffset = 0,
        pointArray = [((- 1, - 1, - 1), (0, 0, 0, 255)), ((1, 1, 1), (0, 0, 0, 255)), ((3, 3, 3), (0, 0, 0, 255))]\<rparr>
     [\<lparr>domain = \<lparr>cubeCenter = (- 2, - 2, - 2), cubeRadius = 2\<rparr>, nodeDetailSize = 1 / 2, dataOffset = 0, pointArray = [((- 1, - 1, - 1), (0, 0, 0, 255))]\<rparr>,
         \<lparr>domain = \<lparr>cubeCenter = (2, - 2, - 2), cubeRadius = 2\<rparr>, nodeDetailSize = 1 / 2, dataOffset = 0, pointArray = []\<rparr>,
         \<lparr>domain = \<lparr>cubeCenter = (- 2, 2, - 2), cubeRadius = 2\<rparr>, nodeDetailSize = 1 / 2, dataOffset = 0, pointArray = []\<rparr>,
         \<lparr>domain = \<lparr>cubeCenter = (2, 2, - 2), cubeRadius = 2\<rparr>, nodeDetailSize = 1 / 2, dataOffset = 0, pointArray = []\<rparr>,
         \<lparr>domain = \<lparr>cubeCenter = (- 2, - 2, 2), cubeRadius = 2\<rparr>, nodeDetailSize = 1 / 2, dataOffset = 0, pointArray = []\<rparr>,
         \<lparr>domain = \<lparr>cubeCenter = (2, - 2, 2), cubeRadius = 2\<rparr>, nodeDetailSize = 1 / 2, dataOffset = 0, pointArray = []\<rparr>,
         \<lparr>domain = \<lparr>cubeCenter = (- 2, 2, 2), cubeRadius = 2\<rparr>, nodeDetailSize = 1 / 2, dataOffset = 0, pointArray = []\<rparr>,
         \<lparr>domain = \<lparr>cubeCenter = (2, 2, 2), cubeRadius = 2\<rparr>, nodeDetailSize = 1 / 2, dataOffset = 0, pointArray = [((1, 1, 1), (0, 0, 0, 255))]\<rparr>]
     [[(0, 0, 1)], [], [], [], [], [], [], [(0, 0, 1)]]
     [(0, 0, 0), (0, 0, 0), (0, 0, 0)]
   = Inl (OctreeFileCorrupted 3 3 3)"
proof -
  have h: "(0 :: 32 word) < 2 \<and> unat (2 :: 32 word) * length (pointArray \<lparr>domain = \<lparr>cubeCenter = (0, 0, 0), cubeRadius = 4\<rparr>, nodeDetailSize = 1, dataOffset = 0,
        pointArray = [((- 1, - 1, - 1), (0, 0, 0, 255)), ((1, 1, 1), (0, 0, 0, 255)), ((3, 3, 3), (0, 0, 0, 255))]\<rparr>) < 2 ^ 32"
    by simp
  have r: "threadRange 1 2 \<lparr>domain = \<lparr>cubeCenter = (0, 0, 0), cubeRadius = 4\<rparr>, nodeDetailSize = 1, dataOffset = 0,
        pointArray = [((- 1, - 1, - 1), (0, 0, 0, 255)), ((1, 1, 1), (0, 0, 0, 255)), ((3, 3, 3), (0, 0, 0, 255))]\<rparr> = {1..<3}"
    by (simp add: threadRange_def firstI_def lastI_def getNumPoints_def)
  have m: "hasExactMatch (pointChildOf \<lparr>domain = \<lparr>cubeCenter = (0, 0, 0), cubeRadius = 4\<rparr>, nodeDetailSize = 1, dataOffset = 0,
        pointArray = [((- 1, - 1, - 1), (0, 0, 0, 255)), ((1, 1, 1), (0, 0, 0, 255)), ((3, 3, 3), (0, 0, 0, 255))]\<rparr>
       [\<lparr>domain = \<lparr>cubeCenter = (- 2, - 2, - 2), cubeRadius = 2\<rparr>, nodeDetailSize = 1 / 2, dataOffset = 0, pointArray = [((- 1, - 1, - 1), (0, 0, 0, 255))]\<rparr>,
         \<lparr>domain = \<lparr>cubeCenter = (2, - 2, - 2), cubeRadius = 2\<rparr>, nodeDetailSize = 1 / 2, dataOffset = 0, pointArray = []\<rparr>,
         \<lparr>domain = \<lparr>cubeCenter = (- 2, 2, - 2), cubeRadius = 2\<rparr>, nodeDetailSize = 1 / 2, dataOffset = 0, pointArray = []\<rparr>,
         \<lparr>domain = \<lparr>cubeCenter = (2, 2, - 2), cubeRadius = 2\<rparr>, nodeDetailSize = 1 / 2, dataOffset = 0, pointArray = []\<rparr>,
         \<lparr>domain = \<lparr>cubeCenter = (- 2, - 2, 2), cubeRadius = 2\<rparr>, nodeDetailSize = 1 / 2, dataOffset = 0, pointArray = []\<rparr>,
         \<lparr>domain = \<lparr>cubeCenter = (2, - 2, 2), cubeRadius = 2\<rparr>, nodeDetailSize = 1 / 2, dataOffset = 0, pointArray = []\<rparr>,
         \<lparr>domain = \<lparr>cubeCenter = (- 2, 2, 2), cubeRadius = 2\<rparr>, nodeDetailSize = 1 / 2, dataOffset = 0, pointArray = []\<rparr>,
         \<lparr>domain = \<lparr>cubeCenter = (2, 2, 2), cubeRadius = 2\<rparr>, nodeDetailSize = 1 / 2, dataOffset = 0, pointArray = [((1, 1, 1), (0, 0, 0, 255))]\<rparr>] 1) (nodePoint \<lparr>domain = \<lparr>cubeCenter = (0, 0, 0), cubeRadius = 4\<rparr>, nodeDetailSize = 1, dataOffset = 0,
        pointArray = [((- 1, - 1, - 1), (0, 0, 0, 255)), ((1, 1, 1), (0, 0, 0, 255)), ((3, 3, 3), (0, 0, 0, 255))]\<rparr> 1)
     \<and> \<not> hasExactMatch (pointChildOf \<lparr>domain = \<lparr>cubeCenter = (0, 0, 0), cubeRadius = 4\<rparr>, nodeDetailSize = 1, dataOffset = 0,
        pointArray = [((- 1, - 1, - 1), (0, 0, 0, 255)), ((1, 1, 1), (0, 0, 0, 255)), ((3, 3, 3), (0, 0, 0, 255))]\<rparr>
       [\<lparr>domain = \<lparr>cubeCenter = (- 2, - 2, - 2), cubeRadius = 2\<rparr>, nodeDetailSize = 1 / 2, dataOffset = 0, pointArray = [((- 1, - 1, - 1), (0, 0, 0, 255))]\<rparr>,
         \<lparr>domain = \<lparr>cubeCenter = (2, - 2, - 2), cubeRadius = 2\<rparr>, nodeDetailSize = 1 / 2, dataOffset = 0, pointArray = []\<rparr>,
         \<lparr>domain = \<lparr>cubeCenter = (- 2, 2, - 2), cubeRadius = 2\<rparr>, nodeDetailSize = 1 / 2, dataOffset = 0, pointArray = []\<rparr>,
         \<lparr>domain = \<lparr>cubeCenter = (2, 2, - 2), cubeRadius = 2\<rparr>, nodeDetailSize = 1 / 2, dataOffset = 0, pointArray = []\<rparr>,
         \<lparr>domain = \<lparr>cubeCenter = (- 2, - 2, 2), cubeRadius = 2\<rparr>, nodeDetailSize = 1 / 2, dataOffset = 0, pointArray = []\<rparr>,
         \<lparr>domain = \<lparr>cubeCenter = (2, - 2, 2), cubeRadius = 2\<rparr>, nodeDetailSize = 1 / 2, dataOffset = 0, pointArray = []\<rparr>,
         \<lparr>domain = \<lparr>cubeCenter = (- 2, 2, 2), cubeRadius = 2\<rparr>, nodeDetailSize = 1 / 2, dataOffset = 0, pointArray = []\<rparr>,
         \<lparr>domain = \<lparr>cubeCenter = (2, 2, 2), cubeRadius = 2\<rparr>, nodeDetailSize = 1 / 2, dataOffset = 0, pointArray = [((1, 1, 1), (0, 0, 0, 255))]\<rparr>] 2) (nodePoint \<lparr>domain = \<lparr>cubeCenter = (0, 0, 0), cubeRadius = 4\<rparr>, nodeDetailSize = 1, dataOffset = 0,
        pointArray = [((- 1, - 1, - 1), (0, 0, 0, 255)), ((1, 1, 1), (0, 0, 0, 255)), ((3, 3, 3), (0, 0, 0, 255))]\<rparr> 2)
     \<and> corruptedAt (nodePoint \<lparr>domain = \<lparr>cubeCenter = (0, 0, 0), cubeRadius = 4\<rparr>, nodeDetailSize = 1, dataOffset = 0,
        pointArray = [((- 1, - 1, - 1), (0, 0, 0, 255)), ((1, 1, 1), (0, 0, 0, 255)), ((3, 3, 3), (0, 0, 0, 255))]\<rparr> 2) = OctreeFileCorrupted 3 3 3"
    by (simp add: hasExactMatch_def pointChildOf_def nodePoint_def)
  note inst = C1_subsample_exact_ancestor [where nThreads = 2 and threadIndex = 1
      and currentNode = "\<lparr>domain = \<lparr>cubeCenter = (0, 0, 0), cubeRadius = 4\<rparr>, nodeDetailSize = 1, dataOffset = 0,
        pointArray = [((- 1, - 1, - 1), (0, 0, 0, 255)), ((1, 1, 1), (0, 0, 0, 255)), ((3, 3, 3), (0, 0, 0, 255))]\<rparr>"
      and currentChildren = "[\<lparr>domain = \<lparr>cubeCenter = (- 2, - 2, - 2), cubeRadius = 2\<rparr>, nodeDetailSize = 1 / 2, dataOffset = 0, pointArray = [((- 1, - 1, - 1), (0, 0, 0, 255))]\<rparr>,
         \<lparr>domain = \<lparr>cubeCenter = (2, - 2, - 2), cubeRadius = 2\<rparr>, nodeDetailSize = 1 / 2, dataOffset = 0, pointArray = []\<rparr>,
         \<lparr>domain = \<lparr>cubeCenter = (- 2, 2, - 2), cubeRadius = 2\<rparr>, nodeDetailSize = 1 / 2, dataOffset = 0, pointArray = []\<rparr>,
         \<lparr>domain = \<lparr>cubeCenter = (2, 2, - 2), cubeRadius = 2\<rparr>, nodeDetailSize = 1 / 2, dataOffset = 0, pointArray = []\<rparr>,
         \<lparr>domain = \<lparr>cubeCenter = (- 2, - 2, 2), cubeRadius = 2\<rparr>, nodeDetailSize = 1 / 2, dataOffset = 0, pointArray = []\<rparr>,
         \<lparr>domain = \<lparr>cubeCenter = (2, - 2, 2), cubeRadius = 2\<rparr>, nodeDetailSize = 1 / 2, dataOffset = 0, pointArray = []\<rparr>,
         \<lparr>domain = \<lparr>cubeCenter = (- 2, 2, 2), cubeRadius = 2\<rparr>, nodeDetailSize = 1 / 2, dataOffset = 0, pointArray = []\<rparr>,
         \<lparr>domain = \<lparr>cubeCenter = (2, 2, 2), cubeRadius = 2\<rparr>, nodeDetailSize = 1 / 2, dataOffset = 0, pointArray = [((1, 1, 1), (0, 0, 0, 255))]\<rparr>]"
      and childBuffers = "[[(0, 0, 1)], [], [], [], [], [], [], [(0, 0, 1)]]" and nBuffer = "[(0, 0, 0), (0, 0, 0), (0, 0, 0)]" and p = "(0, 0, 0)",
      OF h [THEN conjunct1] h [THEN conjunct2]]
  note err = inst [THEN conjunct2, THEN conjunct2, THEN conjunct1, rule_format]
  note fail = inst [THEN conjunct2, THEN conjunct2, THEN conjunct2, THEN conjunct1, THEN mp]
  have "2 \<in> threadRange 1 2 \<lparr>domain = \<lparr>cubeCenter = (0, 0, 0), cubeRadius = 4\<rparr>, nodeDetailSize = 1, dataOffset = 0,
        pointArray = [((- 1, - 1, - 1), (0, 0, 0, 255)), ((1, 1, 1), (0, 0, 0, 255)), ((3, 3, 3), (0, 0, 0, 255))]\<rparr>"
    unfolding r by simp
  then have "\<exists>i\<in>threadRange 1 2 \<lparr>domain = \<lparr>cubeCenter = (0, 0, 0), cubeRadius = 4\<rparr>, nodeDetailSize = 1, dataOffset = 0,
        pointArray = [((- 1, - 1, - 1), (0, 0, 0, 255)), ((1, 1, 1), (0, 0, 0, 255)), ((3, 3, 3), (0, 0, 0, 255))]\<rparr>.
      \<not> hasExactMatch (pointChildOf \<lparr>domain = \<lparr>cubeCenter = (0, 0, 0), cubeRadius = 4\<rparr>, nodeDetailSize = 1, dataOffset = 0,
        pointArray = [((- 1, - 1, - 1), (0, 0, 0, 255)), ((1, 1, 1), (0, 0, 0, 255)), ((3, 3, 3), (0, 0, 0, 255))]\<rparr>
       [\<lparr>domain = \<lparr>cubeCenter = (- 2, - 2, - 2), cubeRadius = 2\<rparr>, nodeDetailSize = 1 / 2, dataOffset = 0, pointArray = [((- 1, - 1, - 1), (0, 0, 0, 255))]\<rparr>,
         \<lparr>domain = \<lparr>cubeCenter = (2, - 2, - 2), cubeRadius = 2\<rparr>, nodeDetailSize = 1 / 2, dataOffset = 0, pointArray = []\<rparr>,
         \<lparr>domain = \<lparr>cubeCenter = (- 2, 2, - 2), cubeRadius = 2\<rparr>, nodeDetailSize = 1 / 2, dataOffset = 0, pointArray = []\<rparr>,
         \<lparr>domain = \<lparr>cubeCenter = (2, 2, - 2), cubeRadius = 2\<rparr>, nodeDetailSize = 1 / 2, dataOffset = 0, pointArray = []\<rparr>,
         \<lparr>domain = \<lparr>cubeCenter = (- 2, - 2, 2), cubeRadius = 2\<rparr>, nodeDetailSize = 1 / 2, dataOffset = 0, pointArray = []\<rparr>,
         \<lparr>domain = \<lparr>cubeCenter = (2, - 2, 2), cubeRadius = 2\<rparr>, nodeDetailSize = 1 / 2, dataOffset = 0, pointArray = []\<rparr>,
         \<lparr>domain = \<lparr>cubeCenter = (- 2, 2, 2), cubeRadius = 2\<rparr>, nodeDetailSize = 1 / 2, dataOffset = 0, pointArray = []\<rparr>,
         \<lparr>domain = \<lparr>cubeCenter = (2, 2, 2), cubeRadius = 2\<rparr>, nodeDetailSize = 1 / 2, dataOffset = 0, pointArray = [((1, 1, 1), (0, 0, 0, 255))]\<rparr>] i) (nodePoint \<lparr>domain = \<lparr>cubeCenter = (0, 0, 0), cubeRadius = 4\<rparr>, nodeDetailSize = 1, dataOffset = 0,
        pointArray = [((- 1, - 1, - 1), (0, 0, 0, 255)), ((1, 1, 1), (0, 0, 0, 255)), ((3, 3, 3), (0, 0, 0, 255))]\<rparr> i)"
    using m by (rule_tac x = 2 in bexI) simp_all
  from fail [OF this] obtain e where e: "subsampleThreadMethod 1 2
     \<lparr>domain = \<lparr>cubeCenter = (0, 0, 0), cubeRadius = 4\<rparr>, nodeDetailSize = 1, dataOffset = 0,
        pointArray = [((- 1, - 1, - 1), (0, 0, 0, 255)), ((1, 1, 1), (0, 0, 0, 255)), ((3, 3, 3), (0, 0, 0, 255))]\<rparr>
     [\<lparr>domain = \<lparr>cubeCenter = (- 2, - 2, - 2), cubeRadius = 2\<rparr>, nodeDetailSize = 1 / 2, dataOffset = 0, pointArray = [((- 1, - 1, - 1), (0, 0, 0, 255))]\<rparr>,
         \<lparr>domain = \<lparr>cubeCenter = (2, - 2, - 2), cubeRadius = 2\<rparr>, nodeDetailSize = 1 / 2, dataOffset = 0, pointArray = []\<rparr>,
         \<lparr>domain = \<lparr>cubeCenter = (- 2, 2, - 2), cubeRadius = 2\<rparr>, nodeDetailSize = 1 / 2, dataOffset = 0, pointArray = []\<rparr>,
         \<lparr>domain = \<lparr>cubeCenter = (2, 2, - 2), cubeRadius = 2\<rparr>, nodeDetailSize = 1 / 2, dataOffset = 0, pointArray = []\<rparr>,
         \<lparr>domain = \<lparr>cubeCenter = (- 2, - 2, 2), cubeRadius = 2\<rparr>, nodeDetailSize = 1 / 2, dataOffset = 0, pointArray = []\<rparr>,
         \<lparr>domain = \<lparr>cubeCenter = (2, - 2, 2), cubeRadius = 2\<rparr>, nodeDetailSize = 1 / 2, dataOffset = 0, pointArray = []\<rparr>,
         \<lparr>domain = \<lparr>cubeCenter = (- 2, 2, 2), cubeRadius = 2\<rparr>, nodeDetailSize = 1 / 2, dataOffset = 0, pointArray = []\<rparr>,
         \<lparr>domain = \<lparr>cubeCenter = (2, 2, 2), cubeRadius = 2\<rparr>, nodeDetailSize = 1 / 2, dataOffset = 0, pointArray = [((1, 1, 1), (0, 0, 0, 255))]\<rparr>]
     [[(0, 0, 1)], [], [], [], [], [], [], [(0, 0, 1)]]
     [(0, 0, 0), (0, 0, 0), (0, 0, 0)] = Inl e"
    by (rule exE)
  from err [OF e] obtain i where i: "i \<in> threadRange 1 2 \<lparr>domain = \<lparr>cubeCenter = (0, 0, 0), cubeRadius = 4\<rparr>, nodeDetailSize = 1, dataOffset = 0,
        pointArray = [((- 1, - 1, - 1), (0, 0, 0, 255)), ((1, 1, 1), (0, 0, 0, 255)), ((3, 3, 3), (0, 0, 0, 255))]\<rparr>"
      and nm: "\<not> hasExactMatch (pointChildOf \<lparr>domain = \<lparr>cubeCenter = (0, 0, 0), cubeRadius = 4\<rparr>, nodeDetailSize = 1, dataOffset = 0,
        pointArray = [((- 1, - 1, - 1), (0, 0, 0, 255)), ((1, 1, 1), (0, 0, 0, 255)), ((3, 3, 3), (0, 0, 0, 255))]\<rparr>
       [\<lparr>domain = \<lparr>cubeCenter = (- 2, - 2, - 2), cubeRadius = 2\<rparr>, nodeDetailSize = 1 / 2, dataOffset = 0, pointArray = [((- 1, - 1, - 1), (0, 0, 0, 255))]\<rparr>,
         \<lparr>domain = \<lparr>cubeCenter = (2, - 2, - 2), cubeRadius = 2\<rparr>, nodeDetailSize = 1 / 2, dataOffset = 0, pointArray = []\<rparr>,
         \<lparr>domain = \<lparr>cubeCenter = (- 2, 2, - 2), cubeRadius = 2\<rparr>, nodeDetailSize = 1 / 2, dataOffset = 0, pointArray = []\<rparr>,
         \<lparr>domain = \<lparr>cubeCenter = (2, 2, - 2), cubeRadius = 2\<rparr>, nodeDetailSize = 1 / 2, dataOffset = 0, pointArray = []\<rparr>,
         \<lparr>domain = \<lparr>cubeCenter = (- 2, - 2, 2), cubeRadius = 2\<rparr>, nodeDetailSize = 1 / 2, dataOffset = 0, pointArray = []\<rparr>,
         \<lparr>domain = \<lparr>cubeCenter = (2, - 2, 2), cubeRadius = 2\<rparr>, nodeDetailSize = 1 / 2, dataOffset = 0, pointArray = []\<rparr>,
         \<lparr>domain = \<lparr>cubeCenter = (- 2, 2, 2), cubeRadius = 2\<rparr>, nodeDetailSize = 1 / 2, dataOffset = 0, pointArray = []\<rparr>,
         \<lparr>domain = \<lparr>cubeCenter = (2, 2, 2), cubeRadius = 2\<rparr>, nodeDetailSize = 1 / 2, dataOffset = 0, pointArray = [((1, 1, 1), (0, 0, 0, 255))]\<rparr>] i) (nodePoint \<lparr>domain = \<lparr>cubeCenter = (0, 0, 0), cubeRadius = 4\<rparr>, nodeDetailSize = 1, dataOffset = 0,
        pointArray = [((- 1, - 1, - 1), (0, 0, 0, 255)), ((1, 1, 1), (0, 0, 0, 255)), ((3, 3, 3), (0, 0, 0, 255))]\<rparr> i)"
      and ei: "e = corruptedAt (nodePoint \<lparr>domain = \<lparr>cubeCenter = (0, 0, 0), cubeRadius = 4\<rparr>, nodeDetailSize = 1, dataOffset = 0,
        pointArray = [((- 1, - 1, - 1), (0, 0, 0, 255)), ((1, 1, 1), (0, 0, 0, 255)), ((3, 3, 3), (0, 0, 0, 255))]\<rparr> i)"
    by blast
  have "i = 1 \<or> i = 2" using i unfolding r by auto
  then have "i = 2" using nm m by auto
  then have "e = OctreeFileCorrupted 3 3 3" using ei m by simp
  then show ?thesis using e by simp
qed

subsection \<open>The normal file\<close>

lemma writeVectors_other:
  "(\<forall>k<length vs. q \<noteq> writePos + k * recordSize) \<Longrightarrow>
     writeVectors recordSize writePos vs recs q = recs q"
proof (induction vs arbitrary: writePos recs)
  case Nil
  then show ?case by simp
next
  case (Cons v vs)
  have q0: "q \<noteq> writePos" using Cons.prems by fastforce
  have "\<forall>k<length vs. q \<noteq> (writePos + recordSize) + k * recordSize"
  proof (intro allI impI)
    fix k assume "k < length vs"
    then have "Suc k < length (v # vs)" by simp
    then have "q \<noteq> writePos + Suc k * recordSize" using Cons.prems by blast
    then show "q \<noteq> (writePos + recordSize) + k * recordSize" by (simp add: add.assoc)
  qed
  from Cons.IH [OF this] show ?case using q0 by simp
qed

lemma writeVectors_nth:
  "0 < recordSize \<Longrightarrow> k < length vs \<Longrightarrow>
     writeVectors recordSize writePos vs recs (writePos + k * recordSize) = Some (vs ! k)"
proof (induction vs arbitrary: writePos recs k)
  case Nil
  then show ?case by simp
next
  case (Cons v vs)
  show ?case
  proof (cases k)
    case 0
    have "\<forall>j<length vs. writePos \<noteq> (writePos + recordSize) + j * recordSize"
      using Cons.prems(1) by simp
    from writeVectors_other [OF this] show ?thesis using 0 by simp
  next
    case (Suc j)
    then have "j < length vs" using Cons.prems(2) by simp
    have h: "writeVectors recordSize (writePos + recordSize) vs (recs(writePos \<mapsto> v))
        ((writePos + recordSize) + j * recordSize) = Some (vs ! j)"
      by (rule Cons.IH [OF Cons.prems(1) \<open>j < length vs\<close>])
    have eq: "writePos + Suc j * recordSize = (writePos + recordSize) + j * recordSize"
      by simp
    show ?thesis
      unfolding Suc eq using h by (simp only: writeVectors.simps nth_Cons_Suc)
  qed
qed

lemma sameFile_refl: "sameFile c c"
  by (simp add: sameFile_def)

lemma sameFile_trans: "sameFile a b \<Longrightarrow> sameFile b c \<Longrightarrow> sameFile a c"
  by (simp add: sameFile_def)

lemma calcLoop_sameFile: "sameFile calc (calcLoop nc node is calc)"
proof (induction "is" arbitrary: calc)
  case Nil
  then show ?case by (simp add: sameFile_refl)
next
  case (Cons i "is")
  obtain n pn cd where ncv: "nc (pointArray node ! i) = (n, pn, cd)"
    by (cases "nc (pointArray node ! i)") auto
  define c where "c =
     (if n \<ge> 3 then calc\<lparr>normalBuffer := (normalBuffer calc)[i := vscale pn cd]\<rparr>
      else if saveOutliers calc
      then calc\<lparr>normalBuffer := (normalBuffer calc)[i := vzero],
                outliers := outliers calc @ [fst (pointArray node ! i)]\<rparr>
      else calc\<lparr>normalBuffer := (normalBuffer calc)[i := vzero]\<rparr>)"
  have step: "calcLoop nc node (i # is) calc = calcLoop nc node is c"
    by (simp add: ncv c_def)
  have "sameFile calc c"
    by (simp add: sameFile_def c_def)
  then have "sameFile calc (calcLoop nc node is c)"
    using Cons.IH [of c] by (rule sameFile_trans)
  then show ?case
    by (simp only: step)
qed

lemma runCalcThreads_sameFile: "sameFile calc (runCalcThreads nc node ts calc)"
proof (induction ts arbitrary: calc)
  case Nil
  then show ?case by (simp add: sameFile_refl)
next
  case (Cons t ts)
  have "sameFile calc (calcThreadMethod nc (of_nat t) node calc)"
    by (simp add: calcThreadMethod_def calcLoop_sameFile)
  then have "sameFile calc (runCalcThreads nc node ts (calcThreadMethod nc (of_nat t) node calc))"
    using Cons.IH [of "calcThreadMethod nc (of_nat t) node calc"] by (rule sameFile_trans)
  then show ?case
    by (simp only: runCalcThreads.simps)
qed

lemma subsampleLoop_length:
  "subsampleLoop node cs cn is buf = Inr buf' \<Longrightarrow> length buf' = length buf"
  by (induction "is" arbitrary: buf) (auto split: sum.splits)

lemma runSubsampleThreads_sameFile:
  "runSubsampleThreads node cs ts calc = Inr calc' \<Longrightarrow> sameFile calc calc'"
proof (induction ts arbitrary: calc)
  case Nil
  then show ?case by (simp add: sameFile_refl)
next
  case (Cons t ts)
  obtain buf where b: "subsampleThreadMethod (of_nat t) (numThreads calc) node cs
             (childNormalBuffers calc) (normalBuffer calc) = Inr buf"
    and run: "runSubsampleThreads node cs ts (calc\<lparr>normalBuffer := buf\<rparr>) = Inr calc'"
    using Cons.prems by (auto split: sum.splits)
  have "length buf = length (normalBuffer calc)"
    using b by (simp add: subsampleThreadMethod_def subsampleLoop_length)
  then have "sameFile calc (calc\<lparr>normalBuffer := buf\<rparr>)"
    by (simp add: sameFile_def)
  then show ?case
    using Cons.IH [OF run] by (rule sameFile_trans)
qed

lemma loadChildNormals_sameFile:
  "loadChildNormals cs ks calc = Inr calc' \<Longrightarrow> sameFile calc calc'"
proof (induction ks arbitrary: calc)
  case Nil
  then show ?case by (simp add: sameFile_refl)
next
  case (Cons k ks)
  show ?case
  proof (cases "getNumPoints (cs ! k) > 0")
    case False
    then show ?thesis using Cons by simp
  next
    case True
    then obtain vs where run: "loadChildNormals cs ks
        (calc\<lparr>childNormalBuffers := (childNormalBuffers calc)
             [k := vs @ drop (length vs) (childNormalBuffers calc ! k)]\<rparr>) = Inr calc'"
      using Cons.prems by (auto split: sum.splits)
    have "sameFile calc (calc\<lparr>childNormalBuffers := (childNormalBuffers calc)
             [k := vs @ drop (length vs) (childNormalBuffers calc ! k)]\<rparr>)"
      by (simp add: sameFile_def)
    then show ?thesis using Cons.IH [OF run] by (rule sameFile_trans)
  qed
qed

lemma call_writes:
  assumes "NodeNormalCalculator_call nc node nodeChildNodes calc = Inr calc'"
  shows "\<exists>calc2. sameFile calc calc2 \<and> normalBuffer calc' = normalBuffer calc2
      \<and> normalDataSize calc' = normalDataSize calc2
      \<and> dataHeader (normalFile calc') = dataHeader (normalFile calc2)
      \<and> normalRecords (normalFile calc') =
          writeVectors (normalDataSize calc2)
            (LidarDataFileHeader_getFileSize + normalDataSize calc2 * dataOffset node)
            (take (unat (getNumPoints node)) (normalBuffer calc2))
            (normalRecords (normalFile calc2))"
proof (cases "nodeChildNodes = []")
  case True
  let ?c1 = "runCalcThreads nc node [0..<unat (numThreads calc)] calc"
  let ?c2 = "(if saveOutliers ?c1
                     then ?c1\<lparr>outlierFile := outlierFile ?c1 @ outliers ?c1, outliers := []\<rparr>
                     else ?c1)"
  have c': "calc' = writeNodeNormals node ?c2"
    using assms True by (simp add: NodeNormalCalculator_call_def Let_def)
  have "sameFile ?c1 ?c2" by (simp add: sameFile_def)
  with runCalcThreads_sameFile [of calc nc node "[0..<unat (numThreads calc)]"]
  have "sameFile calc ?c2"
    by (rule sameFile_trans)
  then show ?thesis
    unfolding c' by (intro exI [of _ ?c2]) (simp add: writeNodeNormals_def)
next
  case False
  then obtain c1 c2 where l: "loadChildNormals nodeChildNodes [0..<8] calc = Inr c1"
    and r: "runSubsampleThreads node nodeChildNodes [0..<unat (numThreads c1)] c1 = Inr c2"
    and c': "calc' = writeNodeNormals node c2"
    using assms by (auto simp: NodeNormalCalculator_call_def split: sum.splits)
  have "sameFile calc c2"
    using loadChildNormals_sameFile [OF l] runSubsampleThreads_sameFile [OF r] by (rule sameFile_trans)
  then show ?thesis
    unfolding c' by (intro exI [of _ c2]) (simp add: writeNodeNormals_def)
qed


lemma calcLoop_buffer:
  "k < length (normalBuffer calc) \<Longrightarrow>
     normalBuffer (calcLoop nc node is calc) ! k =
       (if k \<in> set is then leafNormal nc node k else normalBuffer calc ! k)"
proof (induction "is" arbitrary: calc)
  case Nil
  then show ?case by simp
next
  case (Cons i "is")
  obtain n pn cd where ncv: "nc (pointArray node ! i) = (n, pn, cd)"
    by (cases "nc (pointArray node ! i)") auto
  define c where "c =
     (if n \<ge> 3 then calc\<lparr>normalBuffer := (normalBuffer calc)[i := vscale pn cd]\<rparr>
      else if saveOutliers calc
      then calc\<lparr>normalBuffer := (normalBuffer calc)[i := vzero],
                outliers := outliers calc @ [fst (pointArray node ! i)]\<rparr>
      else calc\<lparr>normalBuffer := (normalBuffer calc)[i := vzero]\<rparr>)"
  have step: "calcLoop nc node (i # is) calc = calcLoop nc node is c"
    by (simp add: ncv c_def)
  have buf: "normalBuffer c = (normalBuffer calc)[i := leafNormal nc node i]"
    by (simp add: c_def leafNormal_def ncv)
  have len: "k < length (normalBuffer c)"
    using Cons.prems by (simp add: buf)
  show ?case
    unfolding step using Cons.IH [OF len] Cons.prems by (auto simp: buf nth_list_update)
qed

lemma runCalcThreads_buffer:
  "k < length (normalBuffer calc) \<Longrightarrow>
     normalBuffer (runCalcThreads nc node ts calc) ! k =
       (if \<exists>t\<in>set ts. k \<in> threadRange (of_nat t) (numThreads calc) node
        then leafNormal nc node k else normalBuffer calc ! k)"
proof (induction ts arbitrary: calc)
  case Nil
  then show ?case by simp
next
  case (Cons t ts)
  let ?c = "calcThreadMethod nc (of_nat t) node calc"
  have same: "sameFile calc ?c"
    by (simp add: calcThreadMethod_def calcLoop_sameFile)
  then have nt: "numThreads ?c = numThreads calc" and ln: "length (normalBuffer ?c) = length (normalBuffer calc)"
    by (simp_all add: sameFile_def)
  have len: "k < length (normalBuffer ?c)"
    using Cons.prems by (simp add: ln)
  have one: "normalBuffer ?c ! k =
      (if k \<in> threadRange (of_nat t) (numThreads calc) node then leafNormal nc node k
       else normalBuffer calc ! k)"
    using calcLoop_buffer [OF Cons.prems, of nc node]
    by (simp add: calcThreadMethod_def threadRange_def)
  show ?case
    using Cons.IH [OF len] by (auto simp: nt one)
qed

lemma threads_cover:
  assumes "0 < nThreads" and "unat nThreads * length (pointArray node) < 2 ^ 32"
    and "k < length (pointArray node)"
  shows "\<exists>t\<in>set [0..<unat nThreads]. k \<in> threadRange (of_nat t) nThreads node"
proof -
  let ?n = "length (pointArray node)"
  let ?T = "unat nThreads"
  have T: "0 < ?T" using assms(1) by (simp add: word_less_nat_alt)
  have b32: "?T * ?n < 2 ^ LENGTH(32)" using assms(2) by simp
  have "?n \<le> ?T * ?n" using T by simp
  then have n32: "?n < 2 ^ LENGTH(32)" using b32 by (rule le_less_trans)
  have un: "unat (getNumPoints node) = ?n"
    unfolding getNumPoints_def using n32 by (simp add: unat_of_nat)
  have bound: "unat nThreads * unat (getNumPoints node) < 2 ^ 32"
    using assms(2) by (simp add: un)
  from range_cover [OF T assms(3)] obtain t where t: "t < ?T" "(t * ?n) div ?T \<le> k" "k < ((t + 1) * ?n) div ?T"
    by blast
  have "?T < 2 ^ LENGTH(32)" by (rule unsigned_less)
  then have "t < 2 ^ LENGTH(32)" using t(1) by simp
  then have ut: "unat (of_nat t :: 32 word) = t" by (simp add: unat_of_nat)
  then have lt: "(of_nat t :: 32 word) < nThreads" using t(1) by (simp add: word_less_nat_alt)
  have "threadRange (of_nat t) nThreads node = {(t * ?n) div ?T ..< ((t + 1) * ?n) div ?T}"
    by (simp add: threadRange_def unat_firstI [OF bound lt] unat_lastI [OF bound lt] un ut)
  then have "k \<in> threadRange (of_nat t) nThreads node"
    using t(2,3) by simp
  moreover have "t \<in> set [0..<?T]" using t(1) by simp
  ultimately show ?thesis by blast
qed

lemma runSubsampleThreads_buffer:
  "runSubsampleThreads node cs ts calc = Inr calc' \<Longrightarrow> k < length (normalBuffer calc) \<Longrightarrow>
     (if \<exists>t\<in>set ts. k \<in> threadRange (of_nat t) (numThreads calc) node
      then subsamplePoint node cs (childNormalBuffers calc) k = Inr (normalBuffer calc' ! k)
      else normalBuffer calc' ! k = normalBuffer calc ! k)"
proof (induction ts arbitrary: calc)
  case Nil
  then show ?case by simp
next
  case (Cons t ts)
  let ?is = "[unat (firstI (of_nat t) (getNumPoints node) (numThreads calc))
          ..< unat (lastI (of_nat t) (getNumPoints node) (numThreads calc))]"
  obtain buf where b: "subsampleLoop node cs (childNormalBuffers calc) ?is (normalBuffer calc) = Inr buf"
    and run: "runSubsampleThreads node cs ts (calc\<lparr>normalBuffer := buf\<rparr>) = Inr calc'"
    using Cons.prems(1) by (auto simp: subsampleThreadMethod_def split: sum.splits)
  have set_is: "set ?is = threadRange (of_nat t) (numThreads calc) node"
    by (simp add: threadRange_def)
  have d: "distinct ?is" by simp
  from subsampleLoop_Inr [OF b d]
  have l: "length buf = length (normalBuffer calc)"
    and inr: "\<forall>i\<in>set ?is. i < length (normalBuffer calc) \<longrightarrow>
        subsamplePoint node cs (childNormalBuffers calc) i = Inr (buf ! i)"
    and oth: "\<forall>i. i \<notin> set ?is \<longrightarrow> buf ! i = normalBuffer calc ! i"
    by simp_all
  let ?c1 = "calc\<lparr>normalBuffer := buf\<rparr>"
  have k1: "k < length (normalBuffer ?c1)" using Cons.prems(2) l by simp
  have f: "childNormalBuffers ?c1 = childNormalBuffers calc" "numThreads ?c1 = numThreads calc"
    "normalBuffer ?c1 = buf"
    by simp_all
  have ih: "(if \<exists>t\<in>set ts. k \<in> threadRange (of_nat t) (numThreads calc) node
      then subsamplePoint node cs (childNormalBuffers calc) k = Inr (normalBuffer calc' ! k)
      else normalBuffer calc' ! k = buf ! k)"
    using Cons.IH [OF run k1] by (simp only: f)
  show ?case
  proof (cases "\<exists>t\<in>set ts. k \<in> threadRange (of_nat t) (numThreads calc) node")
    case True
    then show ?thesis using ih by auto
  next
    case False
    then have e: "normalBuffer calc' ! k = buf ! k" using ih by simp
    show ?thesis
    proof (cases "k \<in> threadRange (of_nat t) (numThreads calc) node")
      case True
      then have "k \<in> set ?is" unfolding set_is .
      then have "subsamplePoint node cs (childNormalBuffers calc) k = Inr (buf ! k)"
        using inr Cons.prems(2) by blast
      then show ?thesis using True e by auto
    next
      case nin: False
      then have "k \<notin> set ?is" unfolding set_is .
      then have "buf ! k = normalBuffer calc ! k" using oth by blast
      then show ?thesis using nin False e by auto
    qed
  qed
qed

lemma readVectors_Inr:
  "readVectors recordSize readPos n recs = Inr vs \<Longrightarrow>
     length vs = n \<and> (\<forall>j<n. recs (readPos + j * recordSize) = Some (vs ! j))"
proof (induction n arbitrary: readPos vs)
  case 0
  then show ?case by simp
next
  case (Suc n)
  obtain v vs' where v: "recs readPos = Some v"
    and r: "readVectors recordSize (readPos + recordSize) n recs = Inr vs'"
    and vs: "vs = v # vs'"
    using Suc.prems by (auto split: option.splits sum.splits)
  from Suc.IH [OF r] have l: "length vs' = n"
    and a: "\<forall>j<n. recs ((readPos + recordSize) + j * recordSize) = Some (vs' ! j)"
    by simp_all
  have "\<forall>j<Suc n. recs (readPos + j * recordSize) = Some (vs ! j)"
  proof (intro allI impI)
    fix j assume j: "j < Suc n"
    show "recs (readPos + j * recordSize) = Some (vs ! j)"
    proof (cases j)
      case 0
      then show ?thesis using v vs by simp
    next
      case (Suc i)
      then have "i < n" using j by simp
      then have "recs ((readPos + recordSize) + i * recordSize) = Some (vs' ! i)" using a by blast
      then show ?thesis using Suc vs by (simp add: add.assoc)
    qed
  qed
  then show ?case using l vs by simp
qed

lemma loadChildNormals_buffers:
  "loadChildNormals cs ks calc = Inr calc1 \<Longrightarrow> distinct ks \<Longrightarrow>
     \<forall>c\<in>set ks. c < length (childNormalBuffers calc) \<Longrightarrow>
     length (childNormalBuffers calc1) = length (childNormalBuffers calc) \<and>
     (\<forall>c\<in>set ks. \<forall>j<unat (getNumPoints (cs ! c)).
        normalRecords (normalFile calc) (normalPosition (normalDataSize calc) (cs ! c) j)
          = Some (childNormalBuffers calc1 ! c ! j)) \<and>
     (\<forall>c. c \<notin> set ks \<longrightarrow> childNormalBuffers calc1 ! c = childNormalBuffers calc ! c)"
proof (induction ks arbitrary: calc)
  case Nil
  then show ?case by simp
next
  case (Cons k ks)
  have d: "distinct ks" "k \<notin> set ks" using Cons.prems(2) by simp_all
  have kl: "k < length (childNormalBuffers calc)" using Cons.prems(3) by simp
  show ?case
  proof (cases "getNumPoints (cs ! k) > 0")
    case False
    then have z: "unat (getNumPoints (cs ! k)) = 0"
      by (simp add: word_greater_zero_iff)
    have run: "loadChildNormals cs ks calc = Inr calc1"
      using Cons.prems(1) False by simp
    have b: "\<forall>c\<in>set ks. c < length (childNormalBuffers calc)" using Cons.prems(3) by simp
    from Cons.IH [OF run d(1) b] show ?thesis
      using z by auto
  next
    case True
    let ?pos = "LidarDataFileHeader_getFileSize + normalDataSize calc * dataOffset (cs ! k)"
    obtain vs where rd: "readVectors (normalDataSize calc) ?pos (unat (getNumPoints (cs ! k)))
          (normalRecords (normalFile calc)) = Inr vs"
      and run: "loadChildNormals cs ks
        (calc\<lparr>childNormalBuffers := (childNormalBuffers calc)
             [k := vs @ drop (length vs) (childNormalBuffers calc ! k)]\<rparr>) = Inr calc1"
      using Cons.prems(1) True by (auto split: sum.splits)
    let ?c2 = "calc\<lparr>childNormalBuffers := (childNormalBuffers calc)
             [k := vs @ drop (length vs) (childNormalBuffers calc ! k)]\<rparr>"
    from readVectors_Inr [OF rd] have lv: "length vs = unat (getNumPoints (cs ! k))"
      and rv: "\<forall>j<unat (getNumPoints (cs ! k)).
          normalRecords (normalFile calc) (?pos + j * normalDataSize calc) = Some (vs ! j)"
      by simp_all
    have b: "\<forall>c\<in>set ks. c < length (childNormalBuffers ?c2)" using Cons.prems(3) by simp
    from Cons.IH [OF run d(1) b]
    have l1: "length (childNormalBuffers calc1) = length (childNormalBuffers calc)"
      and r1: "\<forall>c\<in>set ks. \<forall>j<unat (getNumPoints (cs ! c)).
        normalRecords (normalFile calc) (normalPosition (normalDataSize calc) (cs ! c) j)
          = Some (childNormalBuffers calc1 ! c ! j)"
      and o1: "\<forall>c. c \<notin> set ks \<longrightarrow> childNormalBuffers calc1 ! c = childNormalBuffers ?c2 ! c"
      by simp_all
    have ck: "childNormalBuffers calc1 ! k = vs @ drop (length vs) (childNormalBuffers calc ! k)"
      using o1 d(2) kl by simp
    have rk: "\<forall>j<unat (getNumPoints (cs ! k)).
        normalRecords (normalFile calc) (normalPosition (normalDataSize calc) (cs ! k) j)
          = Some (childNormalBuffers calc1 ! k ! j)"
    proof (intro allI impI)
      fix j assume j: "j < unat (getNumPoints (cs ! k))"
      then have "normalRecords (normalFile calc) (?pos + j * normalDataSize calc) = Some (vs ! j)"
        using rv by blast
      moreover have "childNormalBuffers calc1 ! k ! j = vs ! j"
        using j lv by (simp add: ck nth_append)
      ultimately show "normalRecords (normalFile calc) (normalPosition (normalDataSize calc) (cs ! k) j)
          = Some (childNormalBuffers calc1 ! k ! j)"
        by (simp add: normalPosition_def)
    qed
    have ok: "\<forall>c. c \<notin> set (k # ks) \<longrightarrow> childNormalBuffers calc1 ! c = childNormalBuffers calc ! c"
      using o1 by (auto simp: nth_list_update)
    show ?thesis
      using l1 r1 rk ok by auto
  qed
qed


lemma call_buffer_leaf:
  assumes "NodeNormalCalculator_call nc node [] calc = Inr calc'"
    and "0 < numThreads calc" and "unat (numThreads calc) * length (pointArray node) < 2 ^ 32"
    and "k < length (pointArray node)" and "length (pointArray node) \<le> length (normalBuffer calc)"
  shows "normalBuffer calc' ! k = leafNormal nc node k"
proof -
  let ?c1 = "runCalcThreads nc node [0..<unat (numThreads calc)] calc"
  let ?c2 = "(if saveOutliers ?c1
                     then ?c1\<lparr>outlierFile := outlierFile ?c1 @ outliers ?c1, outliers := []\<rparr>
                     else ?c1)"
  have c': "calc' = writeNodeNormals node ?c2"
    using assms(1) by (simp add: NodeNormalCalculator_call_def Let_def)
  have b: "normalBuffer calc' = normalBuffer ?c1"
    unfolding c' by (simp add: writeNodeNormals_def)
  have kl: "k < length (normalBuffer calc)" using assms(4,5) by simp
  have cov: "\<exists>t\<in>set [0..<unat (numThreads calc)]. k \<in> threadRange (of_nat t) (numThreads calc) node"
    using assms(2,3,4) by (rule threads_cover)
  show ?thesis
    unfolding b using runCalcThreads_buffer [OF kl, of nc node "[0..<unat (numThreads calc)]"] cov
    by simp
qed

lemma call_buffer_interior:
  assumes "NodeNormalCalculator_call nc node nodeChildNodes calc = Inr calc'"
    and "nodeChildNodes \<noteq> []"
    and "0 < numThreads calc" and "unat (numThreads calc) * length (pointArray node) < 2 ^ 32"
    and "length (pointArray node) \<le> length (normalBuffer calc)"
    and "8 \<le> length (childNormalBuffers calc)"
  shows "\<exists>cnb. childNormalsLoaded (normalFile calc) (normalDataSize calc) nodeChildNodes cnb
      \<and> (\<forall>k<length (pointArray node).
            subsamplePoint node nodeChildNodes cnb k = Inr (normalBuffer calc' ! k))"
proof -
  obtain c1 c2 where l: "loadChildNormals nodeChildNodes [0..<8] calc = Inr c1"
    and r: "runSubsampleThreads node nodeChildNodes [0..<unat (numThreads c1)] c1 = Inr c2"
    and c': "calc' = writeNodeNormals node c2"
    using assms(1,2) by (auto simp: NodeNormalCalculator_call_def split: sum.splits)
  have same: "sameFile calc c1" using l by (rule loadChildNormals_sameFile)
  then have nt: "numThreads c1 = numThreads calc" and ln: "length (normalBuffer c1) = length (normalBuffer calc)"
    by (simp_all add: sameFile_def)
  have b: "normalBuffer calc' = normalBuffer c2"
    unfolding c' by (simp add: writeNodeNormals_def)
  have d: "distinct [0..<8::nat]" by simp
  have lt: "\<forall>c\<in>set [0..<8]. c < length (childNormalBuffers calc)"
    using assms(6) by simp
  from loadChildNormals_buffers [OF l d lt]
  have rec: "\<forall>c\<in>set [0..<8]. \<forall>j<unat (getNumPoints (nodeChildNodes ! c)).
        normalRecords (normalFile calc) (normalPosition (normalDataSize calc) (nodeChildNodes ! c) j)
          = Some (childNormalBuffers c1 ! c ! j)"
    by simp
  have loaded: "childNormalsLoaded (normalFile calc) (normalDataSize calc) nodeChildNodes (childNormalBuffers c1)"
    unfolding childNormalsLoaded_def using rec by simp
  have pts: "\<forall>k<length (pointArray node).
            subsamplePoint node nodeChildNodes (childNormalBuffers c1) k = Inr (normalBuffer calc' ! k)"
  proof (intro allI impI)
    fix k assume k: "k < length (pointArray node)"
    then have kl: "k < length (normalBuffer c1)" using assms(5) ln by simp
    have cov: "\<exists>t\<in>set [0..<unat (numThreads calc)]. k \<in> threadRange (of_nat t) (numThreads calc) node"
      using assms(3,4) k by (rule threads_cover)
    have r': "runSubsampleThreads node nodeChildNodes [0..<unat (numThreads calc)] c1 = Inr c2"
      using r by (simp only: nt)
    from runSubsampleThreads_buffer [OF r' kl] cov
    show "subsamplePoint node nodeChildNodes (childNormalBuffers c1) k = Inr (normalBuffer calc' ! k)"
      by (simp add: nt b)
  qed
  show ?thesis
    using loaded pts by blast
qed

text \<open>
  C2. The constructor writes the data header of the normal file, which records the
  record size of three scalars, and leaves the records as they were. Whenever
  \<open>operator()\<close> returns for a node (whose points fit into the normal buffer), the normal
  file holds the node's normal vectors, the first \<open>numPoints\<close> entries of the normal
  buffer, as \<open>numPoints\<close> consecutive records: record \<open>k\<close> starts at byte position
  header size + record size * \<open>dataOffset\<close> + k * record size. Every other record of the
  file, the header and the record size are unchanged. The vectors written are the ones
  computed (with at least one thread, and the product of thread count and point count
  below 2^32, so that the threads' index ranges cover the node): for a leaf, record \<open>k\<close>
  is the plane normal that the normal calculator fits at point \<open>k\<close>, scaled by the
  distance to the closest neighbour, or zero when fewer than three points were
  collected; for an interior node, record \<open>k\<close> is the normal subsampled for point \<open>k\<close>
  from its exact ancestor in the child that holds it, out of child normal buffers that
  hold the normal records of the children as the file had them.
\<close>

theorem C2_normals_file_layout:
  assumes "NodeNormalCalculator_call nc node nodeChildNodes calc = Inr calc'"
    and "0 < normalDataSize calc"
    and "length (pointArray node) \<le> length (normalBuffer calc)"
    and "length (pointArray node) < 2 ^ 32"
  shows "dataHeader (normalFile (newNodeNormalCalculator maxNumPointsPerNode sNumThreads openedFile))
           = Some (of_nat (sizeofScalar * 3))
   \<and> normalDataSize (newNodeNormalCalculator maxNumPointsPerNode sNumThreads openedFile) = sizeofScalar * 3
   \<and> normalRecords (normalFile (newNodeNormalCalculator maxNumPointsPerNode sNumThreads openedFile))
           = normalRecords openedFile
   \<and> normalPosition (normalDataSize calc) node 0
           = LidarDataFileHeader_getFileSize + normalDataSize calc * dataOffset node
   \<and> (\<forall>k<length (pointArray node).
          normalRecords (normalFile calc') (normalPosition (normalDataSize calc) node k)
            = Some (normalBuffer calc' ! k))
   \<and> (\<forall>q. (\<forall>k<length (pointArray node). q \<noteq> normalPosition (normalDataSize calc) node k) \<longrightarrow>
          normalRecords (normalFile calc') q = normalRecords (normalFile calc) q)
   \<and> dataHeader (normalFile calc') = dataHeader (normalFile calc)
   \<and> normalDataSize calc' = normalDataSize calc
   \<and> (nodeChildNodes = [] \<and> 0 < numThreads calc
        \<and> unat (numThreads calc) * length (pointArray node) < 2 ^ 32 \<longrightarrow>
        (\<forall>k<length (pointArray node).
           normalRecords (normalFile calc') (normalPosition (normalDataSize calc) node k)
             = Some (leafNormal nc node k)))
   \<and> (nodeChildNodes \<noteq> [] \<and> 0 < numThreads calc
        \<and> unat (numThreads calc) * length (pointArray node) < 2 ^ 32
        \<and> 8 \<le> length (childNormalBuffers calc) \<longrightarrow>
        (\<exists>cnb. childNormalsLoaded (normalFile calc) (normalDataSize calc) nodeChildNodes cnb
           \<and> (\<forall>k<length (pointArray node).
                \<exists>j<length (pointArray (pointChildOf node nodeChildNodes k)).
                  sqrDist (fst (pointArray (pointChildOf node nodeChildNodes k) ! j)) (nodePoint node k) = 0
                  \<and> normalRecords (normalFile calc') (normalPosition (normalDataSize calc) node k)
                      = Some (subsampledNormal node nodeChildNodes cnb k j))))"
proof -
  let ?n = "length (pointArray node)"
  let ?sz = "normalDataSize calc"
  let ?pos = "LidarDataFileHeader_getFileSize + ?sz * dataOffset node"
  from call_writes [OF assms(1)] obtain calc2 where same: "sameFile calc calc2"
    and buf: "normalBuffer calc' = normalBuffer calc2"
    and sz: "normalDataSize calc' = normalDataSize calc2"
    and hdr: "dataHeader (normalFile calc') = dataHeader (normalFile calc2)"
    and recs: "normalRecords (normalFile calc') =
          writeVectors (normalDataSize calc2)
            (LidarDataFileHeader_getFileSize + normalDataSize calc2 * dataOffset node)
            (take (unat (getNumPoints node)) (normalBuffer calc2))
            (normalRecords (normalFile calc2))"
    by blast
  have s2: "normalFile calc2 = normalFile calc" "normalDataSize calc2 = ?sz"
    "length (normalBuffer calc2) = length (normalBuffer calc)"
    using same by (simp_all add: sameFile_def)
  have "?n < 2 ^ LENGTH(32)" using assms(4) by simp
  then have un: "unat (getNumPoints node) = ?n"
    by (simp add: getNumPoints_def unat_of_nat)
  let ?vs = "take ?n (normalBuffer calc2)"
  have len: "length ?vs = ?n"
    using assms(3) s2(3) by simp
  have recs': "normalRecords (normalFile calc') = writeVectors ?sz ?pos ?vs (normalRecords (normalFile calc))"
    using recs by (simp only: s2 un)
  have new: "dataHeader (normalFile (newNodeNormalCalculator maxNumPointsPerNode sNumThreads openedFile))
           = Some (of_nat (sizeofScalar * 3))
     \<and> normalDataSize (newNodeNormalCalculator maxNumPointsPerNode sNumThreads openedFile) = sizeofScalar * 3
     \<and> normalRecords (normalFile (newNodeNormalCalculator maxNumPointsPerNode sNumThreads openedFile))
           = normalRecords openedFile"
    by (simp add: newNodeNormalCalculator_def)
  have p0: "normalPosition ?sz node 0 = ?pos"
    by (simp add: normalPosition_def)
  have wr: "\<forall>k<?n. normalRecords (normalFile calc') (normalPosition ?sz node k) = Some (normalBuffer calc' ! k)"
  proof (intro allI impI)
    fix k assume k: "k < ?n"
    then have "k < length ?vs" using len by simp
    from writeVectors_nth [OF assms(2) this, of ?pos "normalRecords (normalFile calc)"]
    have "normalRecords (normalFile calc') (?pos + k * ?sz) = Some (?vs ! k)"
      by (simp only: recs')
    then show "normalRecords (normalFile calc') (normalPosition ?sz node k) = Some (normalBuffer calc' ! k)"
      using k by (simp add: normalPosition_def buf)
  qed
  have ot: "\<forall>q. (\<forall>k<?n. q \<noteq> normalPosition ?sz node k) \<longrightarrow>
          normalRecords (normalFile calc') q = normalRecords (normalFile calc) q"
  proof (intro allI impI)
    fix q assume "\<forall>k<?n. q \<noteq> normalPosition ?sz node k"
    then have "\<forall>k<length ?vs. q \<noteq> ?pos + k * ?sz"
      using len by (simp add: normalPosition_def)
    from writeVectors_other [OF this, of "normalRecords (normalFile calc)"]
    show "normalRecords (normalFile calc') q = normalRecords (normalFile calc) q"
      by (simp only: recs')
  qed
  have h: "dataHeader (normalFile calc') = dataHeader (normalFile calc)"
    using hdr by (simp only: s2)
  have z: "normalDataSize calc' = ?sz"
    using sz by (simp only: s2)
  have leaf: "nodeChildNodes = [] \<and> 0 < numThreads calc
        \<and> unat (numThreads calc) * ?n < 2 ^ 32 \<longrightarrow>
        (\<forall>k<?n. normalRecords (normalFile calc') (normalPosition ?sz node k) = Some (leafNormal nc node k))"
  proof (intro impI allI)
    fix k
    assume a: "nodeChildNodes = [] \<and> 0 < numThreads calc \<and> unat (numThreads calc) * ?n < 2 ^ 32"
      and k: "k < ?n"
    have run: "NodeNormalCalculator_call nc node [] calc = Inr calc'"
      using assms(1) a by simp
    have "normalBuffer calc' ! k = leafNormal nc node k"
      using run a [THEN conjunct2, THEN conjunct1] a [THEN conjunct2, THEN conjunct2] k assms(3)
      by (rule call_buffer_leaf)
    then show "normalRecords (normalFile calc') (normalPosition ?sz node k) = Some (leafNormal nc node k)"
      using wr k by simp
  qed
  have inner: "nodeChildNodes \<noteq> [] \<and> 0 < numThreads calc
        \<and> unat (numThreads calc) * ?n < 2 ^ 32
        \<and> 8 \<le> length (childNormalBuffers calc) \<longrightarrow>
        (\<exists>cnb. childNormalsLoaded (normalFile calc) ?sz nodeChildNodes cnb
           \<and> (\<forall>k<?n.
                \<exists>j<length (pointArray (pointChildOf node nodeChildNodes k)).
                  sqrDist (fst (pointArray (pointChildOf node nodeChildNodes k) ! j)) (nodePoint node k) = 0
                  \<and> normalRecords (normalFile calc') (normalPosition ?sz node k)
                      = Some (subsampledNormal node nodeChildNodes cnb k j)))"
  proof (intro impI)
    assume a: "nodeChildNodes \<noteq> [] \<and> 0 < numThreads calc
        \<and> unat (numThreads calc) * ?n < 2 ^ 32 \<and> 8 \<le> length (childNormalBuffers calc)"
    from call_buffer_interior [OF assms(1) a [THEN conjunct1] a [THEN conjunct2, THEN conjunct1]
        a [THEN conjunct2, THEN conjunct2, THEN conjunct1] assms(3)
        a [THEN conjunct2, THEN conjunct2, THEN conjunct2]]
    obtain cnb where ld: "childNormalsLoaded (normalFile calc) ?sz nodeChildNodes cnb"
      and sp: "\<forall>k<?n. subsamplePoint node nodeChildNodes cnb k = Inr (normalBuffer calc' ! k)"
      by blast
    have "\<forall>k<?n.
                \<exists>j<length (pointArray (pointChildOf node nodeChildNodes k)).
                  sqrDist (fst (pointArray (pointChildOf node nodeChildNodes k) ! j)) (nodePoint node k) = 0
                  \<and> normalRecords (normalFile calc') (normalPosition ?sz node k)
                      = Some (subsampledNormal node nodeChildNodes cnb k j)"
    proof (intro allI impI)
      fix k assume k: "k < ?n"
      then have "subsamplePoint node nodeChildNodes cnb k = Inr (normalBuffer calc' ! k)"
        using sp by blast
      from subsamplePoint_Inr [OF this] obtain j
        where j: "j < length (pointArray (pointChildOf node nodeChildNodes k))"
          "sqrDist (fst (pointArray (pointChildOf node nodeChildNodes k) ! j)) (nodePoint node k) = 0"
          "normalBuffer calc' ! k = subsampledNormal node nodeChildNodes cnb k j"
        by blast
      have "normalRecords (normalFile calc') (normalPosition ?sz node k)
                      = Some (subsampledNormal node nodeChildNodes cnb k j)"
        using wr k j(3) by simp
      then show "\<exists>j<length (pointArray (pointChildOf node nodeChildNodes k)).
                  sqrDist (fst (pointArray (pointChildOf node nodeChildNodes k) ! j)) (nodePoint node k) = 0
                  \<and> normalRecords (normalFile calc') (normalPosition ?sz node k)
                      = Some (subsampledNormal node nodeChildNodes cnb k j)"
        using j(1,2) by blast
    qed
    then show "\<exists>cnb. childNormalsLoaded (normalFile calc) ?sz nodeChildNodes cnb
           \<and> (\<forall>k<?n.
                \<exists>j<length (pointArray (pointChildOf node nodeChildNodes k)).
                  sqrDist (fst (pointArray (pointChildOf node nodeChildNodes k) ! j)) (nodePoint node k) = 0
                  \<and> normalRecords (normalFile calc') (normalPosition ?sz node k)
                      = Some (subsampledNormal node nodeChildNodes cnb k j))"
      using ld by blast
  qed
  show ?thesis
    by (intro conjI new [THEN conjunct1] new [THEN conjunct2, THEN conjunct1]
          new [THEN conjunct2, THEN conjunct2] p0 wr ot h z leaf inner)
qed


lemma upt_0_8: "[0..<8] = [0, 1, 2, 3, 4, 5, 6, 7 :: nat]"
  by code_simp

lemma upt_0_2: "[0..<2] = [0, 1 :: nat]"
  by code_simp

theorem C2_normals_file_layout_witness:
  "(\<exists>calc'. NodeNormalCalculator_call (\<lambda>lp. if fst lp = (1, 1, 1) then (3, (0, 0, 1), 2) else (2, (1, 0, 0), 5))
       \<lparr>domain = \<lparr>cubeCenter = (0, 0, 0), cubeRadius = 4\<rparr>, nodeDetailSize = 1, dataOffset = 5,
        pointArray = [((1, 1, 1), (0, 0, 0, 255)), ((3, 3, 3), (0, 0, 0, 255))]\<rparr> [] (newNodeNormalCalculator 4 2 \<lparr>dataHeader = None, normalRecords = (\<lambda>q. None)\<rparr>) = Inr calc'
     \<and> normalRecords (normalFile calc') 64 = Some (0, 0, 2)
     \<and> normalRecords (normalFile calc') 76 = Some (0, 0, 0)
     \<and> normalRecords (normalFile calc') 88 = None
     \<and> dataHeader (normalFile calc') = Some 12)
   \<and> (\<exists>calc'. NodeNormalCalculator_call (\<lambda>lp. if fst lp = (1, 1, 1) then (3, (0, 0, 1), 2) else (2, (1, 0, 0), 5))
       \<lparr>domain = \<lparr>cubeCenter = (0, 0, 0), cubeRadius = 4\<rparr>, nodeDetailSize = 1, dataOffset = 5,
        pointArray = [((1, 1, 1), (0, 0, 0, 255))]\<rparr>
       [\<lparr>domain = \<lparr>cubeCenter = (- 2, - 2, - 2), cubeRadius = 2\<rparr>, nodeDetailSize = 1 / 2, dataOffset = 0, pointArray = []\<rparr>,
         \<lparr>domain = \<lparr>cubeCenter = (2, - 2, - 2), cubeRadius = 2\<rparr>, nodeDetailSize = 1 / 2, dataOffset = 0, pointArray = []\<rparr>,
         \<lparr>domain = \<lparr>cubeCenter = (- 2, 2, - 2), cubeRadius = 2\<rparr>, nodeDetailSize = 1 / 2, dataOffset = 0, pointArray = []\<rparr>,
         \<lparr>domain = \<lparr>cubeCenter = (2, 2, - 2), cubeRadius = 2\<rparr>, nodeDetailSize = 1 / 2, dataOffset = 0, pointArray = []\<rparr>,
         \<lparr>domain = \<lparr>cubeCenter = (- 2, - 2, 2), cubeRadius = 2\<rparr>, nodeDetailSize = 1 / 2, dataOffset = 0, pointArray = []\<rparr>,
         \<lparr>domain = \<lparr>cubeCenter = (2, - 2, 2), cubeRadius = 2\<rparr>, nodeDetailSize = 1 / 2, dataOffset = 0, pointArray = []\<rparr>,
         \<lparr>domain = \<lparr>cubeCenter = (- 2, 2, 2), cubeRadius = 2\<rparr>, nodeDetailSize = 1 / 2, dataOffset = 0, pointArray = []\<rparr>,
         \<lparr>domain = \<lparr>cubeCenter = (2, 2, 2), cubeRadius = 2\<rparr>, nodeDetailSize = 1 / 2, dataOffset = 0, pointArray = [((1, 1, 1), (0, 0, 0, 255))]\<rparr>]
       (newNodeNormalCalculator 4 2
          \<lparr>dataHeader = None, normalRecords = (\<lambda>q. if q = 4 then Some (0, 0, 2) else None)\<rparr>) = Inr calc'
     \<and> normalRecords (normalFile calc') 64 = Some (0, 0, 5 / 2))"
proof -
  let ?node = "\<lparr>domain = \<lparr>cubeCenter = (0, 0, 0), cubeRadius = 4\<rparr>, nodeDetailSize = 1, dataOffset = 5,
        pointArray = [((1, 1, 1), (0, 0, 0, 255)), ((3, 3, 3), (0, 0, 0, 255))]\<rparr>"
  let ?calc = "(newNodeNormalCalculator 4 2 \<lparr>dataHeader = None, normalRecords = (\<lambda>q. None)\<rparr>)"
  obtain calc' where run: "NodeNormalCalculator_call (\<lambda>lp. if fst lp = (1, 1, 1) then (3, (0, 0, 1), 2) else (2, (1, 0, 0), 5)) ?node [] ?calc = Inr calc'"
    by (simp add: NodeNormalCalculator_call_def Let_def)
  have h: "0 < normalDataSize ?calc"
    "length (pointArray ?node) \<le> length (normalBuffer ?calc)"
    "length (pointArray ?node) < 2 ^ 32"
    by (simp_all add: newNodeNormalCalculator_def sizeofScalar_def)
  note inst = C2_normals_file_layout [OF run h, where maxNumPointsPerNode = 4 and sNumThreads = 2
      and openedFile = "\<lparr>dataHeader = None, normalRecords = (\<lambda>q. None)\<rparr>"]
  note ot = inst [THEN conjunct2, THEN conjunct2, THEN conjunct2, THEN conjunct2, THEN conjunct2,
      THEN conjunct1, rule_format]
  note hd = inst [THEN conjunct2, THEN conjunct2, THEN conjunct2, THEN conjunct2, THEN conjunct2,
      THEN conjunct2, THEN conjunct1]
  note lf = inst [THEN conjunct2, THEN conjunct2, THEN conjunct2, THEN conjunct2, THEN conjunct2,
      THEN conjunct2, THEN conjunct2, THEN conjunct2, THEN conjunct1]
  have sz: "normalDataSize ?calc = 12"
    by (simp add: newNodeNormalCalculator_def sizeofScalar_def)
  have pre: "[] = ([] :: Node list) \<and> 0 < numThreads ?calc
        \<and> unat (numThreads ?calc) * length (pointArray ?node) < 2 ^ 32"
    by (simp add: newNodeNormalCalculator_def)
  note lf' = lf [THEN mp, OF pre, rule_format]
  have a: "normalRecords (normalFile calc') 64 = Some (0, 0, 2)"
    using lf' [of 0] by (simp add: sz normalPosition_def LidarDataFileHeader_getFileSize_def leafNormal_def)
  have b: "normalRecords (normalFile calc') 76 = Some (0, 0, 0)"
    using lf' [of 1]
    by (simp add: sz normalPosition_def LidarDataFileHeader_getFileSize_def leafNormal_def vzero_def)
  have "\<forall>k<length (pointArray ?node). (88::nat) \<noteq> normalPosition (normalDataSize ?calc) ?node k"
    by (auto simp: sz normalPosition_def LidarDataFileHeader_getFileSize_def)
  then have c: "normalRecords (normalFile calc') 88 = None"
    using ot [of 88] by (simp add: newNodeNormalCalculator_def)
  have d: "dataHeader (normalFile calc') = Some 12"
    using hd by (simp add: newNodeNormalCalculator_def sizeofScalar_def)
  have leaf: "\<exists>calc'. NodeNormalCalculator_call (\<lambda>lp. if fst lp = (1, 1, 1) then (3, (0, 0, 1), 2) else (2, (1, 0, 0), 5)) ?node [] ?calc = Inr calc'
     \<and> normalRecords (normalFile calc') 64 = Some (0, 0, 2)
     \<and> normalRecords (normalFile calc') 76 = Some (0, 0, 0)
     \<and> normalRecords (normalFile calc') 88 = None
     \<and> dataHeader (normalFile calc') = Some 12"
    using run a b c d by blast
  let ?inode = "\<lparr>domain = \<lparr>cubeCenter = (0, 0, 0), cubeRadius = 4\<rparr>, nodeDetailSize = 1, dataOffset = 5,
        pointArray = [((1, 1, 1), (0, 0, 0, 255))]\<rparr>"
  let ?ch = "[\<lparr>domain = \<lparr>cubeCenter = (- 2, - 2, - 2), cubeRadius = 2\<rparr>, nodeDetailSize = 1 / 2, dataOffset = 0, pointArray = []\<rparr>,
         \<lparr>domain = \<lparr>cubeCenter = (2, - 2, - 2), cubeRadius = 2\<rparr>, nodeDetailSize = 1 / 2, dataOffset = 0, pointArray = []\<rparr>,
         \<lparr>domain = \<lparr>cubeCenter = (- 2, 2, - 2), cubeRadius = 2\<rparr>, nodeDetailSize = 1 / 2, dataOffset = 0, pointArray = []\<rparr>,
         \<lparr>domain = \<lparr>cubeCenter = (2, 2, - 2), cubeRadius = 2\<rparr>, nodeDetailSize = 1 / 2, dataOffset = 0, pointArray = []\<rparr>,
         \<lparr>domain = \<lparr>cubeCenter = (- 2, - 2, 2), cubeRadius = 2\<rparr>, nodeDetailSize = 1 / 2, dataOffset = 0, pointArray = []\<rparr>,
         \<lparr>domain = \<lparr>cubeCenter = (2, - 2, 2), cubeRadius = 2\<rparr>, nodeDetailSize = 1 / 2, dataOffset = 0, pointArray = []\<rparr>,
         \<lparr>domain = \<lparr>cubeCenter = (- 2, 2, 2), cubeRadius = 2\<rparr>, nodeDetailSize = 1 / 2, dataOffset = 0, pointArray = []\<rparr>,
         \<lparr>domain = \<lparr>cubeCenter = (2, 2, 2), cubeRadius = 2\<rparr>, nodeDetailSize = 1 / 2, dataOffset = 0, pointArray = [((1, 1, 1), (0, 0, 0, 255))]\<rparr>]"
  let ?icalc = "(newNodeNormalCalculator 4 2
          \<lparr>dataHeader = None, normalRecords = (\<lambda>q. if q = 4 then Some (0, 0, 2) else None)\<rparr>)"
  have "\<exists>c. NodeNormalCalculator_call (\<lambda>lp. if fst lp = (1, 1, 1) then (3, (0, 0, 1), 2) else (2, (1, 0, 0), 5)) ?inode ?ch ?icalc = Inr c"
    by (simp add: NodeNormalCalculator_call_def upt_0_8 upt_0_2 getNumPoints_def
          newNodeNormalCalculator_def sizeofScalar_def LidarDataFileHeader_getFileSize_def
          subsampleThreadMethod_def firstI_def lastI_def subsamplePoint_def findAncestor_def
          processNodePointsDirected_def Let_def)
  then obtain icalc' where irun: "NodeNormalCalculator_call (\<lambda>lp. if fst lp = (1, 1, 1) then (3, (0, 0, 1), 2) else (2, (1, 0, 0), 5)) ?inode ?ch ?icalc = Inr icalc'"
    by (rule exE)
  have ih: "0 < normalDataSize ?icalc"
    "length (pointArray ?inode) \<le> length (normalBuffer ?icalc)"
    "length (pointArray ?inode) < 2 ^ 32"
    by (simp_all add: newNodeNormalCalculator_def sizeofScalar_def)
  note iinst = C2_normals_file_layout [OF irun ih, where maxNumPointsPerNode = 4 and sNumThreads = 2
      and openedFile = "\<lparr>dataHeader = None, normalRecords = (\<lambda>q. None)\<rparr>"]
  note inn = iinst [THEN conjunct2, THEN conjunct2, THEN conjunct2, THEN conjunct2, THEN conjunct2,
      THEN conjunct2, THEN conjunct2, THEN conjunct2, THEN conjunct2]
  have isz: "normalDataSize ?icalc = 12"
    by (simp add: newNodeNormalCalculator_def sizeofScalar_def)
  have ipre: "?ch \<noteq> [] \<and> 0 < numThreads ?icalc
        \<and> unat (numThreads ?icalc) * length (pointArray ?inode) < 2 ^ 32
        \<and> 8 \<le> length (childNormalBuffers ?icalc)"
    by (simp add: newNodeNormalCalculator_def)
  from inn [THEN mp, OF ipre] obtain cnb
    where ld: "childNormalsLoaded (normalFile ?icalc) (normalDataSize ?icalc) ?ch cnb"
      and sub: "\<forall>k<length (pointArray ?inode).
                \<exists>j<length (pointArray (pointChildOf ?inode ?ch k)).
                  sqrDist (fst (pointArray (pointChildOf ?inode ?ch k) ! j)) (nodePoint ?inode k) = 0
                  \<and> normalRecords (normalFile icalc') (normalPosition (normalDataSize ?icalc) ?inode k)
                      = Some (subsampledNormal ?inode ?ch cnb k j)"
    by blast
  have pc: "pointChildOf ?inode ?ch 0 = ?ch ! 7"
    by (simp add: pointChildOf_def nodePoint_def)
  have m7: "(7::nat) \<in> {0..<8}"
    by simp
  have m0: "(0::nat) \<in> {0..<unat (getNumPoints (?ch ! 7))}"
    by (simp add: getNumPoints_def)
  have "normalRecords (normalFile ?icalc) (normalPosition (normalDataSize ?icalc) (?ch ! 7) 0)
      = Some (cnb ! 7 ! 0)"
    by (rule ld [unfolded childNormalsLoaded_def, THEN bspec, OF m7, THEN bspec, OF m0])
  then have cn: "cnb ! 7 ! 0 = (0, 0, 2)"
    by (simp add: isz normalPosition_def LidarDataFileHeader_getFileSize_def newNodeNormalCalculator_def)
  have val: "subsampledNormal ?inode ?ch cnb 0 0 = (0, 0, 5 / 2)"
    by (simp add: subsampledNormal_def averageNormals_def processNodePointsDirected_def upt_0_8 cn
          mag_def vzero_def axisDist_def Let_def)
  from sub obtain j where j: "j < length (pointArray (pointChildOf ?inode ?ch 0))"
    and rec: "normalRecords (normalFile icalc') (normalPosition (normalDataSize ?icalc) ?inode 0)
                      = Some (subsampledNormal ?inode ?ch cnb 0 j)"
    by auto
  have "j = 0" using j by (simp add: pc)
  then have "normalRecords (normalFile icalc') 64 = Some (0, 0, 5 / 2)"
    using rec val by (simp add: isz normalPosition_def LidarDataFileHeader_getFileSize_def)
  then have inner: "\<exists>calc'. NodeNormalCalculator_call (\<lambda>lp. if fst lp = (1, 1, 1) then (3, (0, 0, 1), 2) else (2, (1, 0, 0), 5)) ?inode ?ch ?icalc = Inr calc'
     \<and> normalRecords (normalFile calc') 64 = Some (0, 0, 5 / 2)"
    using irun by blast
  show ?thesis
    using leaf inner by (rule conjI)
qed

end
